(* ===== verification/Prelude.thy ===== *)
theory Prelude
  imports Main "HOL-Library.Word"
begin

text \<open>
  Shared ground of the development: the error values of the Go code, the collections of
  facts that carry the component proofs (\<open>go_simps\<close> for evaluation of the Go string and
  address helpers, \<open>store_simps\<close> for the database statements, \<open>inv_intros\<close> for
  preservation of the store invariant), and generic lemmas on lists that several
  components use.

  A Go \<open>string\<close> is a sequence of bytes, and so is HOL's \<open>string\<close> (a list of 8-bit
  characters); \<open>int\<close> stands for Go's \<open>int\<close> and \<open>int64\<close>, with the wrap-around
  written out by \<open>wrap64\<close> where the code multiplies. A \<open>time.Time\<close> is an \<open>int\<close>
  (an instant).
\<close>

named_theorems go_simps
named_theorems store_simps
named_theorems inv_intros

section \<open>Error values\<close>

text \<open>Failures the database reports, by the class the code can tell apart.\<close>

datatype pg_error =
    ConnFault
  | UniqueViolation string
  | ForeignKeyViolation string
  | BadInput string

text \<open>
  An \<open>error\<close> value: the sentinels the code compares against (\<open>collector.ErrNoCredential\<close>,
  \<open>store.ErrUserNotFound\<close>, \<open>pgx.ErrNoRows\<close>), a plain text (\<open>errors.New\<close>), a database
  error, and \<open>fmt.Errorf("prefix: %w", err)\<close>, which keeps the wrapped error reachable.
\<close>

datatype go_error =
    ErrNoCredential
  | ErrUserNotFound
  | ErrNoRows
  | ErrText string
  | ErrPg pg_error
  | ErrWrap string go_error

text \<open>\<open>errors.Is\<close> walks the chain of wrapped errors.\<close>

fun errors_is :: "go_error \<Rightarrow> go_error \<Rightarrow> bool" where
  "errors_is (ErrWrap p e) target = (ErrWrap p e = target \<or> errors_is e target)"
| "errors_is e target = (e = target)"

text \<open>\<open>err.Error()\<close>; the text of a database error is the service's, hence a parameter.\<close>

fun error_text :: "(pg_error \<Rightarrow> string) \<Rightarrow> go_error \<Rightarrow> string" where
  "error_text pgt ErrNoCredential = ''no applicable credential''"
| "error_text pgt ErrUserNotFound = ''user not found''"
| "error_text pgt ErrNoRows = ''no rows in result set''"
| "error_text pgt (ErrText s) = s"
| "error_text pgt (ErrPg p) = pgt p"
| "error_text pgt (ErrWrap p e) = p @ error_text pgt e"

section \<open>JSON values\<close>

datatype json =
    JNull
  | JBool bool
  | JNum string
  | JStr string
  | JList "json list"
  | JObj "(string \<times> json) list"

section \<open>64-bit integers\<close>

definition wrap64 :: "int \<Rightarrow> int" where
  "wrap64 x = signed_take_bit 63 x"

lemma wrap64_id: "- (2 ^ 63) \<le> x \<Longrightarrow> x < 2 ^ 63 \<Longrightarrow> wrap64 x = x"
  by (simp add: wrap64_def signed_take_bit_int_eq_self)

lemma wrap64_range: "- (2 ^ 63) \<le> wrap64 x \<and> wrap64 x < 2 ^ 63"
  unfolding wrap64_def
  using signed_take_bit_int_greater_eq_minus_exp [of 63 x] signed_take_bit_int_less_exp [of 63 x]
  by simp

lemma unat_bound: "unat (w :: 'a::len word) < 2 ^ LENGTH('a)"
  by (rule unsigned_less)

section \<open>Insertion-ordered deduplication\<close>

text \<open>
  The idiom \<open>if seen[x] \<dots> seen[x] = true; out = append(out, x)\<close>: the \<open>seen\<close> map always
  holds exactly the elements of \<open>out\<close>, so the list alone is the state.
\<close>

definition add_unseen :: "'a \<Rightarrow> 'a list \<Rightarrow> 'a list" where
  "add_unseen x out = (if x \<in> set out then out else out @ [x])"

lemma set_add_unseen [simp]: "set (add_unseen x out) = insert x (set out)"
  by (auto simp: add_unseen_def)

lemma distinct_add_unseen [simp]: "distinct out \<Longrightarrow> distinct (add_unseen x out)"
  by (simp add: add_unseen_def)

lemma set_fold_add_unseen [simp]: "set (fold add_unseen xs out) = set out \<union> set xs"
  by (induction xs arbitrary: out) auto

lemma distinct_fold_add_unseen [simp]:
  "distinct out \<Longrightarrow> distinct (fold add_unseen xs out)"
  by (induction xs arbitrary: out) simp_all

lemma fold_add_unseen_fresh:
  "distinct xs \<Longrightarrow> set xs \<inter> set out = {} \<Longrightarrow> fold add_unseen xs out = out @ xs"
proof (induction xs arbitrary: out)
  case Nil
  then show ?case by simp
next
  case (Cons x xs)
  then have "add_unseen x out = out @ [x]" by (simp add: add_unseen_def)
  with Cons show ?case by auto
qed

lemma fold_add_unseen_prefix: "\<exists>ys. fold add_unseen xs out = out @ ys"
proof (induction xs arbitrary: out)
  case Nil
  then show ?case by simp
next
  case (Cons x xs)
  from Cons.IH [of "add_unseen x out"] show ?case
    by (auto simp: add_unseen_def)
qed

section \<open>Sums\<close>

text \<open>The two results every fallible operation has, as a case rule for the proofs.\<close>

lemma sum_case_Inr_iff:
  "(case r of Inl e \<Rightarrow> Inl e | Inr x \<Rightarrow> f x) = Inr y \<longleftrightarrow> (\<exists>x. r = Inr x \<and> f x = Inr y)"
  by (cases r) auto

end
