(* ===== verification/GoStrings.thy ===== *)
theory GoStrings
  imports Prelude
begin

text \<open>
  The functions of Go's \<open>strings\<close> and \<open>strconv\<close> packages that the program uses, on byte
  strings: trimming and field splitting (with the ASCII and the UTF-8 encoded Unicode white
  space that \<open>unicode.IsSpace\<close> accepts), splitting and joining at a separator, prefix and
  substring tests, decimal conversion with the 64-bit range check. \<open>to_lower\<close> and
  \<open>equal_fold\<close> are exact on ASCII letters and leave other bytes unchanged (the program
  compares their results with ASCII texts only).
\<close>

section \<open>White space\<close>

definition ascii_space :: "char \<Rightarrow> bool" where
  "ascii_space c \<longleftrightarrow> c \<in> {CHR 0x09, CHR 0x0A, CHR 0x0B, CHR 0x0C, CHR 0x0D, CHR 0x20}"

definition utf8_spaces :: "string list" where
  "utf8_spaces =
     [[CHR 0xC2, CHR 0x85], [CHR 0xC2, CHR 0xA0], [CHR 0xE1, CHR 0x9A, CHR 0x80],
      [CHR 0xE2, CHR 0x80, CHR 0x80], [CHR 0xE2, CHR 0x80, CHR 0x81],
      [CHR 0xE2, CHR 0x80, CHR 0x82], [CHR 0xE2, CHR 0x80, CHR 0x83],
      [CHR 0xE2, CHR 0x80, CHR 0x84], [CHR 0xE2, CHR 0x80, CHR 0x85],
      [CHR 0xE2, CHR 0x80, CHR 0x86], [CHR 0xE2, CHR 0x80, CHR 0x87],
      [CHR 0xE2, CHR 0x80, CHR 0x88], [CHR 0xE2, CHR 0x80, CHR 0x89],
      [CHR 0xE2, CHR 0x80, CHR 0x8A], [CHR 0xE2, CHR 0x80, CHR 0xA8],
      [CHR 0xE2, CHR 0x80, CHR 0xA9], [CHR 0xE2, CHR 0x80, CHR 0xAF],
      [CHR 0xE2, CHR 0x81, CHR 0x9F], [CHR 0xE3, CHR 0x80, CHR 0x80]]"

definition has_prefix :: "string \<Rightarrow> string \<Rightarrow> bool" where
  "has_prefix s p \<longleftrightarrow> take (length p) s = p"

definition has_suffix :: "string \<Rightarrow> string \<Rightarrow> bool" where
  "has_suffix s p \<longleftrightarrow> has_prefix (rev s) (rev p)"

text \<open>The number of bytes of the white-space rune at the front of a string, 0 if none.\<close>

fun space_len :: "string list \<Rightarrow> string \<Rightarrow> nat" where
  "space_len ps [] = 0"
| "space_len ps (c # cs) =
     (if ascii_space c then 1
      else (case filter (has_prefix (c # cs)) ps of [] \<Rightarrow> 0 | p # _ \<Rightarrow> length p))"

text \<open>Strips white-space runes (ASCII, or one of \<open>ps\<close>) from the front.\<close>

function strip_lead :: "string list \<Rightarrow> string \<Rightarrow> string" where
  "strip_lead ps s = (if space_len ps s = 0 then s else strip_lead ps (drop (space_len ps s) s))"
  by pat_completeness auto
termination
proof (relation "measure (\<lambda>(ps, s). length s)")
  fix ps and s :: string
  assume "space_len ps s \<noteq> 0"
  moreover from this have "s \<noteq> []" by (cases s) auto
  ultimately show "((ps, drop (space_len ps s) s), ps, s) \<in> measure (\<lambda>(ps, s). length s)"
    by simp
qed simp

declare strip_lead.simps [simp del]

definition trim_left :: "string \<Rightarrow> string" where
  "trim_left s = strip_lead utf8_spaces s"

definition trim_right :: "string \<Rightarrow> string" where
  "trim_right s = rev (strip_lead (map rev utf8_spaces) (rev s))"

text \<open>\<open>strings.TrimSpace\<close>\<close>

definition trim_space :: "string \<Rightarrow> string" where
  "trim_space s = trim_right (trim_left s)"

lemma strip_lead_Nil [simp, go_simps]: "strip_lead ps [] = []"
  by (simp add: strip_lead.simps)

lemma strip_lead_stop: "space_len ps s = 0 \<Longrightarrow> strip_lead ps s = s"
  by (simp add: strip_lead.simps)

lemma strip_lead_space [go_simps]: "ascii_space c \<Longrightarrow> strip_lead ps (c # cs) = strip_lead ps cs"
  by (subst strip_lead.simps) simp

lemma space_len_strip_lead: "space_len ps (strip_lead ps s) = 0"
proof (induction ps s rule: strip_lead.induct)
  case (1 ps s)
  show ?case
  proof (cases "space_len ps s = 0")
    case True
    then show ?thesis by (simp add: strip_lead_stop)
  next
    case False
    with 1 show ?thesis by (simp add: strip_lead.simps [of ps s])
  qed
qed

lemma strip_lead_idem [simp]: "strip_lead ps (strip_lead ps s) = strip_lead ps s"
  by (rule strip_lead_stop) (rule space_len_strip_lead)

lemma strip_lead_suffix: "\<exists>p. s = p @ strip_lead ps s"
proof (induction ps s rule: strip_lead.induct)
  case (1 ps s)
  show ?case
  proof (cases "space_len ps s = 0")
    case True
    then show ?thesis by (simp add: strip_lead_stop)
  next
    case False
    with 1 obtain p where "drop (space_len ps s) s = p @ strip_lead ps (drop (space_len ps s) s)"
      by blast
    with False have "s = (take (space_len ps s) s @ p) @ strip_lead ps s"
      by (metis append.assoc append_take_drop_id strip_lead.simps)
    then show ?thesis by blast
  qed
qed

text \<open>A string with no byte that can start or end a white-space rune is left alone.\<close>

definition plain_char :: "char \<Rightarrow> bool" where
  "plain_char c \<longleftrightarrow> 0x21 \<le> (of_char c :: nat) \<and> (of_char c :: nat) < 0x80"

lemma plain_char_not_space: "plain_char c \<Longrightarrow> \<not> ascii_space c"
  by (auto simp: plain_char_def ascii_space_def)

lemma utf8_spaces_not_plain: "list_all (\<lambda>p. p \<noteq> [] \<and> \<not> plain_char (hd p)) utf8_spaces"
  by (simp add: utf8_spaces_def plain_char_def)

lemma rev_utf8_spaces_not_plain:
  "list_all (\<lambda>p. p \<noteq> [] \<and> \<not> plain_char (hd p)) (map rev utf8_spaces)"
  by (simp add: utf8_spaces_def plain_char_def)

lemma has_prefix_hd: "has_prefix (c # cs) p \<Longrightarrow> p \<noteq> [] \<Longrightarrow> hd p = c"
  by (cases p) (auto simp: has_prefix_def)

lemma plain_char_space_len:
  assumes c: "plain_char c" and ps: "list_all (\<lambda>p. p \<noteq> [] \<and> \<not> plain_char (hd p)) ps"
  shows "space_len ps (c # cs) = 0"
proof -
  have "\<not> has_prefix (c # cs) p" if "p \<in> set ps" for p
    using that ps c has_prefix_hd [of c cs p] by (auto simp: list_all_iff)
  then have "filter (has_prefix (c # cs)) ps = []"
    by (simp add: filter_empty_conv)
  with plain_char_not_space [OF c] show ?thesis by simp
qed

lemma trim_space_plain:
  assumes "s \<noteq> [] \<Longrightarrow> plain_char (hd s)" and "s \<noteq> [] \<Longrightarrow> plain_char (last s)"
  shows "trim_space s = s"
proof (cases "s = []")
  case True
  then show ?thesis by (simp add: trim_space_def trim_left_def trim_right_def)
next
  case False
  then have "trim_left s = s"
    using assms(1) plain_char_space_len [OF _ utf8_spaces_not_plain, of "hd s" "tl s"]
    by (simp add: trim_left_def strip_lead_stop)
  moreover have "trim_right s = s"
  proof -
    from False obtain c cs where r: "rev s = c # cs" by (cases "rev s") auto
    then have "last s = c" by (metis last_rev list.sel(1) rev_rev_ident)
    with False assms(2) have "plain_char c" by simp
    then have "strip_lead (map rev utf8_spaces) (rev s) = rev s"
      using plain_char_space_len [OF _ rev_utf8_spaces_not_plain, of c cs] r
      by (simp add: strip_lead_stop)
    then show ?thesis by (simp add: trim_right_def)
  qed
  ultimately show ?thesis by (simp add: trim_space_def)
qed

lemma trim_space_all_plain: "\<forall>c \<in> set s. plain_char c \<Longrightarrow> trim_space s = s"
  by (rule trim_space_plain) (simp_all add: hd_in_set)

lemma trim_space_Nil [simp, go_simps]: "trim_space [] = []"
  by (rule trim_space_plain) simp_all

section \<open>Splitting and joining\<close>

text \<open>\<open>strings.Split(s, sep)\<close> for a one-byte separator: always at least one part.\<close>

fun split_on :: "char \<Rightarrow> string \<Rightarrow> string list" where
  "split_on c [] = [[]]"
| "split_on c (x # xs) =
     (if x = c then [] # split_on c xs
      else (case split_on c xs of [] \<Rightarrow> [[x]] | w # ws \<Rightarrow> (x # w) # ws))"

text \<open>\<open>strings.Join(parts, sep)\<close>\<close>

fun join :: "string \<Rightarrow> string list \<Rightarrow> string" where
  "join sep [] = []"
| "join sep [w] = w"
| "join sep (w # v # ws) = w @ sep @ join sep (v # ws)"

lemma split_on_not_Nil [simp]: "split_on c s \<noteq> []"
  by (cases s) (auto split: list.splits)

lemma join_Cons: "ws \<noteq> [] \<Longrightarrow> join sep (w # ws) = w @ sep @ join sep ws"
  by (cases ws) auto

lemma join_split_on: "join [c] (split_on c s) = s"
proof (induction s)
  case Nil
  then show ?case by simp
next
  case (Cons x xs)
  obtain w ws where r: "split_on c xs = w # ws"
    using split_on_not_Nil [of c xs] by (cases "split_on c xs") auto
  with Cons show ?case by (cases ws) (auto simp: join_Cons)
qed

lemma split_on_no_sep: "w \<in> set (split_on c s) \<Longrightarrow> c \<notin> set w"
  by (induction s arbitrary: w) (auto split: if_splits list.splits)

lemma split_on_single: "c \<notin> set s \<Longrightarrow> split_on c s = [s]"
  by (induction s) auto

lemma split_on_append: "c \<notin> set w \<Longrightarrow> split_on c (w @ c # s) = w # split_on c s"
  by (induction w) auto

lemma split_on_join:
  "ws \<noteq> [] \<Longrightarrow> \<forall>w \<in> set ws. c \<notin> set w \<Longrightarrow> split_on c (join [c] ws) = ws"
proof (induction ws)
  case Nil
  then show ?case by simp
next
  case (Cons w ws)
  then show ?case
    by (cases ws) (auto simp: split_on_single split_on_append)
qed

lemma set_split_on_subset: "w \<in> set (split_on c s) \<Longrightarrow> set w \<subseteq> set s"
proof (induction s arbitrary: w)
  case Nil
  then show ?case by simp
next
  case (Cons x xs)
  obtain v vs where r: "split_on c xs = v # vs"
    using split_on_not_Nil [of c xs] by (cases "split_on c xs") auto
  with Cons.IH have "set u \<subseteq> set xs" if "u = v \<or> u \<in> set vs" for u
    using that by auto
  then have "set v \<subseteq> set xs" and "\<And>u. u \<in> set vs \<Longrightarrow> set u \<subseteq> set xs" by blast+
  with Cons.prems r show ?case by (auto split: if_splits)
qed

text \<open>\<open>strings.Cut(s, sep)\<close> for a one-byte separator.\<close>

definition cut :: "char \<Rightarrow> string \<Rightarrow> string \<times> string \<times> bool" where
  "cut c s = (if c \<in> set s then (takeWhile (\<lambda>x. x \<noteq> c) s, tl (dropWhile (\<lambda>x. x \<noteq> c) s), True)
              else (s, [], False))"

lemma cut_append: "c \<notin> set k \<Longrightarrow> cut c (k @ c # v) = (k, v, True)"
proof -
  assume k: "c \<notin> set k"
  then have "takeWhile (\<lambda>x. x \<noteq> c) (k @ c # v) = k" by (induction k) auto
  moreover from k have "dropWhile (\<lambda>x. x \<noteq> c) (k @ c # v) = c # v" by (induction k) auto
  ultimately show ?thesis by (simp add: cut_def)
qed

lemma cut_none: "c \<notin> set s \<Longrightarrow> cut c s = (s, [], False)"
  by (simp add: cut_def)

text \<open>\<open>strings.IndexByte\<close>, with \<open>None\<close> for -1.\<close>

fun index_byte :: "string \<Rightarrow> char \<Rightarrow> nat option" where
  "index_byte [] c = None"
| "index_byte (x # xs) c = (if x = c then Some 0 else map_option Suc (index_byte xs c))"

lemma index_byte_None: "index_byte s c = None \<longleftrightarrow> c \<notin> set s"
  by (induction s) auto

lemma index_byte_append: "c \<notin> set a \<Longrightarrow> index_byte (a @ c # b) c = Some (length a)"
  by (induction a) auto

text \<open>\<open>strings.Fields\<close>: the maximal runs of bytes outside white space.\<close>

function fields_from :: "string \<Rightarrow> string \<Rightarrow> string list" where
  "fields_from cur [] = (if cur = [] then [] else [rev cur])"
| "fields_from cur (c # cs) =
     (if space_len utf8_spaces (c # cs) = 0 then fields_from (c # cur) cs
      else (if cur = [] then [] else [rev cur])
             @ fields_from [] (drop (space_len utf8_spaces (c # cs)) (c # cs)))"
  by pat_completeness auto
termination
proof (relation "measure (\<lambda>(cur, s). length s)", goal_cases)
  case 1
  show ?case by simp
next
  case (2 cur c cs)
  show ?case by simp
next
  case (3 cur c cs)
  then have "0 < space_len utf8_spaces (c # cs)" by simp
  then have "length (drop (space_len utf8_spaces (c # cs)) (c # cs)) < length (c # cs)"
    by (simp only: length_drop) simp
  then show ?case by simp
qed

declare fields_from.simps [simp del]

definition fields :: "string \<Rightarrow> string list" where
  "fields s = fields_from [] s"

lemma fields_from_nonempty: "w \<in> set (fields_from cur s) \<Longrightarrow> w \<noteq> []"
proof (induction cur s rule: fields_from.induct)
  case (1 cur)
  then show ?case by (auto simp: fields_from.simps split: if_splits)
next
  case (2 cur c cs)
  then show ?case
    by (cases "space_len utf8_spaces (c # cs) = 0")
       (auto simp: fields_from.simps(2) [of cur c cs] split: if_splits)
qed

lemma fields_nonempty: "w \<in> set (fields s) \<Longrightarrow> w \<noteq> []"
  by (auto simp: fields_def dest: fields_from_nonempty)

text \<open>\<open>strings.Contains\<close>\<close>

fun contains :: "string \<Rightarrow> string \<Rightarrow> bool" where
  "contains [] sub = (sub = [])"
| "contains (c # cs) sub = (has_prefix (c # cs) sub \<or> contains cs sub)"

lemma has_prefix_iff: "has_prefix s p \<longleftrightarrow> (\<exists>t. s = p @ t)"
  by (metis append_eq_conv_conj append_take_drop_id has_prefix_def)

lemma has_suffix_iff: "has_suffix s p \<longleftrightarrow> (\<exists>t. s = t @ p)"
  by (metis has_prefix_iff has_suffix_def rev_append rev_rev_ident)

lemma contains_iff: "contains s sub \<longleftrightarrow> (\<exists>a b. s = a @ sub @ b)"
proof (induction s)
  case Nil
  then show ?case by auto
next
  case (Cons c cs)
  show ?case
  proof
    assume "contains (c # cs) sub"
    then consider "has_prefix (c # cs) sub" | "contains cs sub" by auto
    then show "\<exists>a b. c # cs = a @ sub @ b"
    proof cases
      case 1
      then obtain t where "c # cs = [] @ sub @ t" by (auto simp: has_prefix_iff)
      then show ?thesis by blast
    next
      case 2
      with Cons obtain a b where "c # cs = (c # a) @ sub @ b" by auto
      then show ?thesis by blast
    qed
  next
    assume "\<exists>a b. c # cs = a @ sub @ b"
    then obtain a b where ab: "c # cs = a @ sub @ b" by blast
    show "contains (c # cs) sub"
    proof (cases a)
      case Nil
      with ab have "has_prefix (c # cs) sub" by (simp add: has_prefix_iff)
      then show ?thesis by simp
    next
      case (Cons d a')
      with ab have "cs = a' @ sub @ b" by simp
      then show ?thesis using Cons.IH by auto
    qed
  qed
qed

lemma contains_char: "contains s [c] \<longleftrightarrow> c \<in> set s"
  by (metis contains_iff in_set_conv_decomp append_Cons append_Nil)

text \<open>\<open>strings.TrimPrefix\<close>, \<open>strings.TrimSuffix\<close>\<close>

definition trim_prefix :: "string \<Rightarrow> string \<Rightarrow> string" where
  "trim_prefix s p = (if has_prefix s p then drop (length p) s else s)"

definition trim_suffix :: "string \<Rightarrow> string \<Rightarrow> string" where
  "trim_suffix s p = (if has_suffix s p then take (length s - length p) s else s)"

text \<open>\<open>strings.Trim(s, cutset)\<close> and \<open>strings.TrimRight(s, cutset)\<close> for ASCII cutsets.\<close>

definition trim_right_set :: "string \<Rightarrow> string \<Rightarrow> string" where
  "trim_right_set s cs = rev (dropWhile (\<lambda>c. c \<in> set cs) (rev s))"

definition trim_set :: "string \<Rightarrow> string \<Rightarrow> string" where
  "trim_set s cs = trim_right_set (dropWhile (\<lambda>c. c \<in> set cs) s) cs"

section \<open>Letters and digits\<close>

definition lower_char :: "char \<Rightarrow> char" where
  "lower_char c = (let n = of_char c :: nat in if 65 \<le> n \<and> n \<le> 90 then char_of (n + 32) else c)"

definition to_lower :: "string \<Rightarrow> string" where
  "to_lower s = map lower_char s"

definition equal_fold :: "string \<Rightarrow> string \<Rightarrow> bool" where
  "equal_fold a b \<longleftrightarrow> to_lower a = to_lower b"

definition is_digit :: "char \<Rightarrow> bool" where
  "is_digit c \<longleftrightarrow> 48 \<le> (of_char c :: nat) \<and> (of_char c :: nat) \<le> 57"

definition digit_val :: "char \<Rightarrow> nat" where
  "digit_val c = of_char c - 48"

definition digit_char :: "nat \<Rightarrow> char" where
  "digit_char d = char_of (48 + d)"

fun digits_val :: "nat \<Rightarrow> string \<Rightarrow> nat" where
  "digits_val acc [] = acc"
| "digits_val acc (c # cs) = digits_val (10 * acc + digit_val c) cs"

text \<open>
  \<open>strconv.Atoi\<close> and \<open>strconv.ParseInt(s, 10, 64)\<close>: an optional sign, one or more
  digits, and a value in the 64-bit range; anything else is an error (\<open>None\<close>).
\<close>

definition atoi :: "string \<Rightarrow> int option" where
  "atoi s =
     (let neg = (s \<noteq> [] \<and> hd s = CHR ''-'');
          ds = (if s \<noteq> [] \<and> (hd s = CHR ''-'' \<or> hd s = CHR ''+'') then tl s else s)
      in if ds = [] \<or> \<not> list_all is_digit ds then None
         else let n = int (digits_val 0 ds)
              in if neg then (if 2 ^ 63 < n then None else Some (- n))
                 else (if 2 ^ 63 \<le> n then None else Some n))"

text \<open>\<open>strconv.Itoa\<close> / \<open>%d\<close>\<close>

fun nat_str :: "nat \<Rightarrow> string" where
  "nat_str n = (if n < 10 then [digit_char n] else nat_str (n div 10) @ [digit_char (n mod 10)])"

declare nat_str.simps [simp del]

definition itoa :: "int \<Rightarrow> string" where
  "itoa i = (if i < 0 then CHR ''-'' # nat_str (nat (- i)) else nat_str (nat i))"

lemma digit_char_code [simp]: "d < 10 \<Longrightarrow> (of_char (digit_char d) :: nat) = 48 + d"
  by (simp add: digit_char_def)

lemma is_digit_digit_char [simp]: "d < 10 \<Longrightarrow> is_digit (digit_char d)"
  by (simp add: is_digit_def)

lemma digit_val_digit_char [simp]: "d < 10 \<Longrightarrow> digit_val (digit_char d) = d"
  by (simp add: digit_val_def)

lemma digits_val_append: "digits_val acc (a @ b) = digits_val (digits_val acc a) b"
  by (induction acc a rule: digits_val.induct) auto

lemma nat_str_digits [simp]: "list_all is_digit (nat_str n)"
proof (induction n rule: nat_str.induct)
  case (1 n)
  then show ?case by (simp add: nat_str.simps [of n])
qed

lemma nat_str_not_Nil [simp]: "nat_str n \<noteq> []"
  by (simp add: nat_str.simps [of n])

lemma digits_val_nat_str [simp]: "digits_val 0 (nat_str n) = n"
proof (induction n rule: nat_str.induct)
  case (1 n)
  then show ?case by (simp add: nat_str.simps [of n] digits_val_append)
qed

lemma nat_str_inj: "nat_str m = nat_str n \<Longrightarrow> m = n"
  by (metis digits_val_nat_str)

lemma nat_str_chars: "c \<in> set (nat_str n) \<Longrightarrow> is_digit c"
  using nat_str_digits [of n] by (auto simp: list_all_iff)

lemma not_digit_chars [simp]:
  "\<not> is_digit (CHR ''-'')" "\<not> is_digit (CHR ''+'')" "\<not> is_digit (CHR ''.'')"
  "\<not> is_digit (CHR '':'')" "\<not> is_digit (CHR ''/'')" "\<not> is_digit (CHR '','')"
  by (simp_all add: is_digit_def)

lemma atoi_itoa:
  assumes "- (2 ^ 63) \<le> i" and "i < 2 ^ 63"
  shows "atoi (itoa i) = Some i"
proof (cases "i < 0")
  case True
  with assms show ?thesis by (simp add: itoa_def atoi_def)
next
  case False
  have "hd (nat_str n) \<noteq> CHR ''-'' \<and> hd (nat_str n) \<noteq> CHR ''+''" for n
    using nat_str_chars [of "hd (nat_str n)" n] by (auto simp: is_digit_def)
  with False assms show ?thesis by (simp add: itoa_def atoi_def)
qed

lemma atoi_range: "atoi s = Some i \<Longrightarrow> - (2 ^ 63) \<le> i \<and> i < 2 ^ 63"
  by (auto simp: atoi_def Let_def split: if_splits)

text \<open>Two lower-case hexadecimal digits of a byte, as \<open>%02x\<close> prints them.\<close>

definition hex_char :: "nat \<Rightarrow> char" where
  "hex_char d = (if d < 10 then char_of (48 + d) else char_of (87 + d))"

definition hex_val :: "char \<Rightarrow> nat option" where
  "hex_val c = (let n = of_char c :: nat in
     if 48 \<le> n \<and> n \<le> 57 then Some (n - 48)
     else if 97 \<le> n \<and> n \<le> 102 then Some (n - 87)
     else if 65 \<le> n \<and> n \<le> 70 then Some (n - 55)
     else None)"

lemma hex_val_hex_char [simp]: "d < 16 \<Longrightarrow> hex_val (hex_char d) = Some d"
  by (auto simp: hex_val_def hex_char_def Let_def)

definition hex_byte :: "8 word \<Rightarrow> string" where
  "hex_byte b = [hex_char (unat b div 16), hex_char (unat b mod 16)]"

section \<open>Evaluation\<close>

text \<open>The equations that evaluate the functions above on a literal string.\<close>

lemmas str_eval = trim_space_def trim_left_def trim_right_def utf8_spaces_def strip_lead.simps
  ascii_space_def has_prefix_def has_suffix_def cut_def is_digit_def digit_val_def hex_val_def
  atoi_def

lemma digit_char_lits [simp, go_simps]:
  "digit_char 0 = CHR ''0''" "digit_char 1 = CHR ''1''" "digit_char (Suc 0) = CHR ''1''"
  "digit_char 2 = CHR ''2''" "digit_char 3 = CHR ''3''" "digit_char 4 = CHR ''4''"
  "digit_char 5 = CHR ''5''" "digit_char 6 = CHR ''6''" "digit_char 7 = CHR ''7''"
  "digit_char 8 = CHR ''8''" "digit_char 9 = CHR ''9''"
  by code_simp+

lemma replicate_numeral: "replicate (numeral k) x = x # replicate (pred_numeral k) x"
  by (simp add: numeral_eq_Suc)

end
