(* ===== verification/NetAddr.thy ===== *)
theory NetAddr
  imports GoStrings
begin

text \<open>
  Go's \<open>net/netip\<close> as the program uses it: addresses with their 4/6 kind and zone,
  successor, comparison, text parsing and printing, CIDR prefixes; and \<open>net.ParseMAC\<close>.
  \<open>NoAddr 0\<close> is the zero \<open>netip.Addr\<close>; \<open>NoAddr v\<close> with \<open>v \<noteq> 0\<close> is what
  \<open>Next\<close> makes of it (it increments the 128-bit value and keeps the missing kind).
\<close>

unbundle bit_operations_syntax

datatype addr =
    NoAddr "128 word"
  | A4 "32 word"
  | A6 "128 word" string

definition is_valid :: "addr \<Rightarrow> bool" where
  "is_valid a = (case a of NoAddr _ \<Rightarrow> False | _ \<Rightarrow> True)"

definition is4 :: "addr \<Rightarrow> bool" where
  "is4 a = (case a of A4 _ \<Rightarrow> True | _ \<Rightarrow> False)"

definition zone :: "addr \<Rightarrow> string" where
  "zone a = (case a of A6 _ z \<Rightarrow> z | _ \<Rightarrow> [])"

lemma is_valid_simps [simp, go_simps]:
  "\<not> is_valid (NoAddr v)" "is_valid (A4 w)" "is_valid (A6 u z)"
  by (simp_all add: is_valid_def)

lemma is4_simps [simp, go_simps]: "\<not> is4 (NoAddr v)" "is4 (A4 w)" "\<not> is4 (A6 u z)"
  by (simp_all add: is4_def)

lemma zone_simps [simp, go_simps]: "zone (NoAddr v) = []" "zone (A4 w) = []" "zone (A6 u z) = z"
  by (simp_all add: zone_def)

text \<open>\<open>Addr.Next\<close>: the zero address after the last one.\<close>

fun next_addr :: "addr \<Rightarrow> addr" where
  "next_addr (NoAddr v) = NoAddr (v + 1)"
| "next_addr (A4 w) = (if w + 1 = 0 then NoAddr 0 else A4 (w + 1))"
| "next_addr (A6 u z) = (if u + 1 = 0 then NoAddr 0 else A6 (u + 1) z)"

text \<open>Byte-wise string order, as Go's \<open><\<close> on strings.\<close>

fun str_less :: "string \<Rightarrow> string \<Rightarrow> bool" where
  "str_less a [] = False"
| "str_less [] (y # ys) = True"
| "str_less (x # xs) (y # ys) =
     ((of_char x :: nat) < of_char y \<or> (x = y \<and> str_less xs ys))"

text \<open>\<open>a.Compare(b) > 0\<close>: by bit length (0, 32, 128), then value, then zone.\<close>

fun addr_gt :: "addr \<Rightarrow> addr \<Rightarrow> bool" where
  "addr_gt (NoAddr u) (NoAddr v) = (u > v)"
| "addr_gt (NoAddr u) _ = False"
| "addr_gt (A4 u) (NoAddr v) = True"
| "addr_gt (A4 u) (A4 v) = (u > v)"
| "addr_gt (A4 u) (A6 v z) = False"
| "addr_gt (A6 u z) (A6 v z') = (u > v \<or> (u = v \<and> str_less z' z))"
| "addr_gt (A6 u z) _ = True"

section \<open>Parsing addresses\<close>

text \<open>
  \<open>parseIPv4Fields\<close>: exactly four decimal octets, no leading zero, no value above 255.
  The state is the octets so far, the value and digit count of the current one, and
  whether the previous byte was a dot.
\<close>

fun ipv4_fields :: "nat list \<Rightarrow> nat \<Rightarrow> nat \<Rightarrow> string \<Rightarrow> nat list option" where
  "ipv4_fields fs val dl [] =
     (if length fs < 3 then None else Some (fs @ [val]))"
| "ipv4_fields fs val dl (c # cs) =
     (if is_digit c then
        (if dl = 1 \<and> val = 0 then None
         else let val' = 10 * val + digit_val c
              in if 255 < val' then None else ipv4_fields fs val' (dl + 1) cs)
      else if c = CHR ''.'' then
        (if dl = 0 \<or> cs = [] then None
         else if length fs = 3 then None
         else ipv4_fields (fs @ [val]) 0 0 cs)
      else None)"

definition word_of_octets :: "nat list \<Rightarrow> 'a::len word" where
  "word_of_octets bs = word_of_nat (foldl (\<lambda>acc b. 256 * acc + b) 0 bs)"

definition parse_ipv4 :: "string \<Rightarrow> addr option" where
  "parse_ipv4 s = map_option (\<lambda>bs. A4 (word_of_octets bs)) (ipv4_fields [] 0 0 s)"

text \<open>
  One hexadecimal group: the digits at the front (at most four, else failure) with their
  value, and the rest.
\<close>

fun hex_group :: "nat \<Rightarrow> nat \<Rightarrow> string \<Rightarrow> (nat \<times> nat \<times> string) option" where
  "hex_group off acc [] = Some (off, acc, [])"
| "hex_group off acc (c # cs) =
     (case hex_val c of
        None \<Rightarrow> Some (off, acc, c # cs)
      | Some d \<Rightarrow> if 3 < off then None else hex_group (off + 1) (16 * acc + d) cs)"

text \<open>
  The loop of \<open>parseIPv6\<close> over the bytes collected so far and the position of the
  ellipsis; one unit of fuel per 16-bit group, of which there are at most eight.
\<close>

fun ipv6_loop :: "nat \<Rightarrow> nat list \<Rightarrow> nat option \<Rightarrow> string \<Rightarrow> (nat list \<times> nat option \<times> string) option" where
  "ipv6_loop 0 ip ell s = Some (ip, ell, s)"
| "ipv6_loop (Suc fuel) ip ell s =
     (if 16 \<le> length ip then Some (ip, ell, s)
      else (case hex_group 0 0 s of
        None \<Rightarrow> None
      | Some (off, acc, rest) \<Rightarrow>
          if off = 0 then None
          else if rest \<noteq> [] \<and> hd rest = CHR ''.'' then
            (if ell = None \<and> length ip \<noteq> 12 then None
             else if 16 < length ip + 4 then None
             else (case ipv4_fields [] 0 0 s of
                     None \<Rightarrow> None
                   | Some bs \<Rightarrow> Some (ip @ bs, ell, [])))
          else let ip' = ip @ [acc div 256, acc mod 256]
               in if rest = [] then Some (ip', ell, [])
               else if hd rest \<noteq> CHR '':'' then None
               else if tl rest = [] then None
               else let s' = tl rest
                    in if hd s' = CHR '':'' then
                         (if ell \<noteq> None then None
                          else if tl s' = [] then Some (ip', Some (length ip'), [])
                          else ipv6_loop fuel ip' (Some (length ip')) (tl s'))
                       else ipv6_loop fuel ip' ell s'))"

definition ipv6_finish :: "nat list \<Rightarrow> nat option \<Rightarrow> nat list option" where
  "ipv6_finish ip ell =
     (if length ip < 16 then
        (case ell of
           None \<Rightarrow> None
         | Some e \<Rightarrow> Some (take e ip @ replicate (16 - length ip) 0 @ drop e ip))
      else (case ell of None \<Rightarrow> Some ip | Some _ \<Rightarrow> None))"

definition parse_ipv6 :: "string \<Rightarrow> addr option" where
  "parse_ipv6 inp =
     (let (s, z, zoned) = cut (CHR ''%'') inp
      in if zoned \<and> z = [] then None
         else let lead = has_prefix s ''::''; s' = (if lead then drop 2 s else s)
              in if lead \<and> s' = [] then Some (A6 0 z)
                 else (case ipv6_loop 8 [] (if lead then Some 0 else None) s' of
                         None \<Rightarrow> None
                       | Some (ip, ell, rest) \<Rightarrow>
                           if rest \<noteq> [] then None
                           else map_option (\<lambda>bs. A6 (word_of_octets bs) z) (ipv6_finish ip ell)))"

text \<open>\<open>netip.ParseAddr\<close>: the first of \<open>.\<close>, \<open>:\<close>, \<open>%\<close> decides the family.\<close>

fun addr_kind :: "string \<Rightarrow> char option" where
  "addr_kind [] = None"
| "addr_kind (c # cs) =
     (if c = CHR ''.'' \<or> c = CHR '':'' \<or> c = CHR ''%'' then Some c else addr_kind cs)"

definition parse_addr :: "string \<Rightarrow> addr option" where
  "parse_addr s =
     (if addr_kind s = Some (CHR ''.'') then parse_ipv4 s
      else if addr_kind s = Some (CHR '':'') then parse_ipv6 s
      else None)"

section \<open>Prefixes\<close>

record cidr =
  cidr_addr :: addr
  cidr_bits :: nat

text \<open>\<open>strings.LastIndexByte(s, '/')\<close> splits off the part after the last slash.\<close>

definition cut_last :: "char \<Rightarrow> string \<Rightarrow> (string \<times> string) option" where
  "cut_last c s =
     (if c \<in> set s
      then Some (rev (tl (dropWhile (\<lambda>x. x \<noteq> c) (rev s))), rev (takeWhile (\<lambda>x. x \<noteq> c) (rev s)))
      else None)"

definition parse_prefix :: "string \<Rightarrow> cidr option" where
  "parse_prefix s =
     (case cut_last (CHR ''/'') s of
        None \<Rightarrow> None
      | Some (ip, b) \<Rightarrow>
          (case parse_addr ip of
             None \<Rightarrow> None
           | Some a \<Rightarrow>
               if zone a \<noteq> [] then None
               else if 1 < length b \<and> \<not> (is_digit (hd b) \<and> hd b \<noteq> CHR ''0'') then None
               else (case atoi b of
                       None \<Rightarrow> None
                     | Some n \<Rightarrow>
                         if n < 0 \<or> (if is4 a then 32 else 128) < n then None
                         else Some \<lparr>cidr_addr = a, cidr_bits = nat n\<rparr>)))"

text \<open>\<open>Prefix.Masked\<close> and \<open>Prefix.Contains\<close>.\<close>

definition keep_top :: "nat \<Rightarrow> nat \<Rightarrow> 'a::len word \<Rightarrow> 'a word" where
  "keep_top width bits w = push_bit (width - bits) (drop_bit (width - bits) w)"

definition masked :: "cidr \<Rightarrow> cidr" where
  "masked p = p\<lparr>cidr_addr :=
     (case cidr_addr p of
        NoAddr v \<Rightarrow> NoAddr 0
      | A4 w \<Rightarrow> A4 (keep_top 32 (cidr_bits p) w)
      | A6 u z \<Rightarrow> A6 (keep_top 128 (cidr_bits p) u) [])\<rparr>"

fun cidr_contains :: "cidr \<Rightarrow> addr \<Rightarrow> bool" where
  "cidr_contains p (NoAddr v) = False"
| "cidr_contains p (A4 w) =
     (case cidr_addr p of
        A4 b \<Rightarrow> drop_bit (32 - cidr_bits p) (w XOR b) = 0
      | _ \<Rightarrow> False)"
| "cidr_contains p (A6 u z) =
     (z = [] \<and>
      (case cidr_addr p of
         A6 b zb \<Rightarrow> drop_bit (128 - cidr_bits p) (u XOR b) = 0
       | _ \<Rightarrow> False))"

text \<open>How many addresses follow \<open>a\<close> before \<open>Next\<close> runs out.\<close>

fun addr_room :: "addr \<Rightarrow> nat" where
  "addr_room (NoAddr v) = 0"
| "addr_room (A4 w) = 2 ^ 32 - unat w"
| "addr_room (A6 u z) = 2 ^ 128 - unat u"

lemma unat_Suc_word:
  fixes w :: "'a::len word"
  assumes "w + 1 \<noteq> 0"
  shows "unat (w + 1) = Suc (unat w)"
  using assms by (metis Suc_eq_plus1 add.commute unatSuc)

lemma addr_room_next:
  assumes "is_valid a"
  shows "addr_room (next_addr a) < addr_room a"
proof (cases a)
  case (NoAddr v)
  with assms show ?thesis by simp
next
  case (A4 w)
  have "unat w < 2 ^ 32" using unat_bound [of w] by simp
  moreover have "unat (w + 1) = Suc (unat w)" if "w + 1 \<noteq> 0"
    using that by (rule unat_Suc_word)
  ultimately show ?thesis using A4 by auto
next
  case (A6 u z)
  have "unat u < 2 ^ 128" using unat_bound [of u] by simp
  moreover have "unat (u + 1) = Suc (unat u)" if "u + 1 \<noteq> 0"
    using that by (rule unat_Suc_word)
  ultimately show ?thesis using A6 by auto
qed

lemma cidr_contains_valid: "cidr_contains p a \<Longrightarrow> is_valid a"
  by (cases a) simp_all

section \<open>Printing addresses\<close>

definition octets4 :: "32 word \<Rightarrow> nat list" where
  "octets4 w = map (\<lambda>i. unat w div 256 ^ (3 - i) mod 256) [0, 1, 2, 3]"

definition ipv4_string :: "32 word \<Rightarrow> string" where
  "ipv4_string w = join ''.'' (map nat_str (octets4 w))"

definition groups6 :: "128 word \<Rightarrow> nat list" where
  "groups6 u = map (\<lambda>i. unat u div 65536 ^ (7 - i) mod 65536) [0, 1, 2, 3, 4, 5, 6, 7]"

text \<open>\<open>appendHex\<close>: hexadecimal without leading zeros.\<close>

fun hex_str :: "nat \<Rightarrow> string" where
  "hex_str n = (if n < 16 then [hex_char n] else hex_str (n div 16) @ [hex_char (n mod 16)])"

declare hex_str.simps [simp del]

definition zero_run :: "nat list \<Rightarrow> nat \<Rightarrow> nat" where
  "zero_run gs i = length (takeWhile (\<lambda>g. g = 0) (drop i gs))"

text \<open>The leftmost longest run of at least two zero groups, as (start, end).\<close>

definition longest_zeros :: "nat list \<Rightarrow> (nat \<times> nat) option" where
  "longest_zeros gs =
     foldl (\<lambda>best i. let l = zero_run gs i in
              if 2 \<le> l \<and> (case best of None \<Rightarrow> True | Some (a, b) \<Rightarrow> b - a < l)
              then Some (i, i + l) else best)
       None [0, 1, 2, 3, 4, 5, 6, 7]"

definition ipv6_string :: "128 word \<Rightarrow> string" where
  "ipv6_string u =
     (let gs = groups6 u in
      case longest_zeros gs of
        None \<Rightarrow> join '':'' (map hex_str gs)
      | Some (a, b) \<Rightarrow> join '':'' (map hex_str (take a gs)) @ ''::''
                       @ join '':'' (map hex_str (drop b gs)))"

text \<open>\<open>Addr.String\<close>; a 4-in-6 address prints its last 32 bits as IPv4.\<close>

definition is_4in6 :: "128 word \<Rightarrow> bool" where
  "is_4in6 u \<longleftrightarrow> unat u div 2 ^ 32 = 65535"

definition zone_suffix :: "string \<Rightarrow> string" where
  "zone_suffix z = (if z = [] then [] else CHR ''%'' # z)"

fun addr_string :: "addr \<Rightarrow> string" where
  "addr_string (NoAddr v) = ''invalid IP''"
| "addr_string (A4 w) = ipv4_string w"
| "addr_string (A6 u z) =
     (if is_4in6 u then ''::ffff:'' @ ipv4_string (word_of_nat (unat u mod 2 ^ 32))
      else ipv6_string u) @ zone_suffix z"

section \<open>Hardware addresses\<close>

text \<open>Two hexadecimal digits, followed by \<open>e\<close> unless they end the string (\<open>xtoi2\<close>).\<close>

definition xtoi2 :: "string \<Rightarrow> char \<Rightarrow> (8 word) option" where
  "xtoi2 s e =
     (if 2 < length s \<and> s ! 2 \<noteq> e then None
      else (case s of
        a # b # _ \<Rightarrow>
          (case (hex_val a, hex_val b) of
             (Some x, Some y) \<Rightarrow> Some (word_of_nat (16 * x + y))
           | _ \<Rightarrow> None)
      | _ \<Rightarrow> None))"

fun mac_octets :: "char \<Rightarrow> nat \<Rightarrow> string \<Rightarrow> (8 word) list option" where
  "mac_octets e 0 s = Some []"
| "mac_octets e (Suc n) s =
     (case xtoi2 s e of
        None \<Rightarrow> None
      | Some b \<Rightarrow> map_option ((#) b) (mac_octets e n (drop 3 s)))"

fun mac_dotted :: "nat \<Rightarrow> string \<Rightarrow> (8 word) list option" where
  "mac_dotted 0 s = Some []"
| "mac_dotted (Suc n) s =
     (case (xtoi2 (take 2 s) (CHR 0x00), xtoi2 (drop 2 s) (CHR ''.'')) of
        (Some a, Some b) \<Rightarrow> map_option (\<lambda>bs. a # b # bs) (mac_dotted n (drop 5 s))
      | _ \<Rightarrow> None)"

text \<open>
  \<open>net.ParseMAC\<close>: 6, 8 or 20 octets, colon- or hyphen-separated pairs or dotted
  quadruples of hexadecimal digits.
\<close>

definition parse_mac :: "string \<Rightarrow> (8 word) list option" where
  "parse_mac s =
     (if length s < 14 then None
      else if s ! 2 = CHR '':'' \<or> s ! 2 = CHR ''-'' then
        (if (length s + 1) mod 3 \<noteq> 0 then None
         else let n = (length s + 1) div 3
              in if n \<noteq> 6 \<and> n \<noteq> 8 \<and> n \<noteq> 20 then None else mac_octets (s ! 2) n s)
      else if s ! 4 = CHR ''.'' then
        (if (length s + 1) mod 5 \<noteq> 0 then None
         else let n = 2 * (length s + 1) div 5
              in if n \<noteq> 6 \<and> n \<noteq> 8 \<and> n \<noteq> 20 then None else mac_dotted (n div 2) s)
      else None)"

text \<open>\<open>HardwareAddr.String\<close>\<close>

definition mac_string :: "8 word list \<Rightarrow> string" where
  "mac_string hw = join '':'' (map hex_byte hw)"

lemma mac_octets_length: "mac_octets e n s = Some hw \<Longrightarrow> length hw = n"
  by (induction e n s arbitrary: hw rule: mac_octets.induct) (auto split: option.splits)

lemma mac_dotted_length: "mac_dotted n s = Some hw \<Longrightarrow> length hw = 2 * n"
  by (induction n s arbitrary: hw rule: mac_dotted.induct) (auto split: option.splits)

lemma parse_mac_length: "parse_mac s = Some hw \<Longrightarrow> length hw \<in> {6, 8, 20}"
  by (auto simp: parse_mac_def Let_def dest!: mac_octets_length mac_dotted_length
           split: if_splits)

lemma xtoi2_hex_byte:
  "rest = [] \<or> hd rest = e \<Longrightarrow> xtoi2 (hex_byte b @ rest) e = Some b"
proof -
  assume r: "rest = [] \<or> hd rest = e"
  have "unat b < 256" using unat_bound [of b] by simp
  then have "unat b div 16 < 16" and "unat b mod 16 < 16" by auto
  with r show ?thesis by (cases rest) (auto simp: xtoi2_def hex_byte_def)
qed

lemma mac_octets_join:
  "hw \<noteq> [] \<Longrightarrow> mac_octets (CHR '':'') (length hw) (mac_string hw) = Some hw"
proof (induction hw)
  case Nil
  then show ?case by simp
next
  case (Cons b hw)
  show ?case
  proof (cases hw)
    case Nil
    then show ?thesis
      using xtoi2_hex_byte [of "[]" "CHR '':''" b] by (simp add: mac_string_def)
  next
    case (Cons c hw')
    then have s: "mac_string (b # hw) = hex_byte b @ CHR '':'' # mac_string hw"
      by (simp add: mac_string_def)
    have "drop 3 (hex_byte b @ CHR '':'' # t) = t" for t by (simp add: hex_byte_def)
    with s Cons.IH Cons show ?thesis by (simp add: xtoi2_hex_byte)
  qed
qed

lemma length_mac_string: "hw \<noteq> [] \<Longrightarrow> length (mac_string hw) = 3 * length hw - 1"
proof (induction hw)
  case Nil
  then show ?case by simp
next
  case (Cons b hw)
  then show ?case by (cases hw) (simp_all add: mac_string_def hex_byte_def)
qed

text \<open>\<open>ParseMAC\<close> reads back what \<open>HardwareAddr.String\<close> prints.\<close>

lemma parse_mac_string:
  assumes "length hw \<in> {6, 8, 20}"
  shows "parse_mac (mac_string hw) = Some hw"
proof -
  from assms have ne: "hw \<noteq> []" by auto
  then have len: "length (mac_string hw) = 3 * length hw - 1"
    by (rule length_mac_string)
  from assms obtain b c hw' where hw: "hw = b # c # hw'"
    by (cases hw; cases "tl hw") auto
  then have two: "mac_string hw ! 2 = CHR '':''"
    by (simp add: mac_string_def hex_byte_def)
  from assms show ?thesis
    using mac_octets_join [OF ne] by (auto simp: parse_mac_def len two)
qed

section \<open>Printing and parsing IPv4\<close>

lemma nat_str_1: "n < 10 \<Longrightarrow> nat_str n = [digit_char n]"
  by (simp add: nat_str.simps [of n])

lemma nat_str_2:
  "10 \<le> n \<Longrightarrow> n < 100 \<Longrightarrow> nat_str n = [digit_char (n div 10), digit_char (n mod 10)]"
  by (simp add: nat_str.simps [of n] nat_str_1)

lemma nat_str_3:
  assumes "100 \<le> n" and "n < 1000"
  shows "nat_str n = [digit_char (n div 100), digit_char (n div 10 mod 10), digit_char (n mod 10)]"
proof -
  have "n div 10 div 10 = n div 100" by (simp add: div_mult2_eq [symmetric])
  with assms show ?thesis by (simp add: nat_str.simps [of n] nat_str_2)
qed

lemma octet_split: "10 * (10 * (n div 100) + n div 10 mod 10) + n mod 10 = (n::nat)"
proof -
  have "n div 100 = n div 10 div 10" by (simp add: div_mult2_eq [symmetric])
  then have "10 * (n div 100) + n div 10 mod 10 = n div 10" by simp
  then show ?thesis by simp
qed

lemma ipv4_fields_octet:
  assumes "n < 256"
  shows "ipv4_fields fs 0 0 (nat_str n @ rest) = ipv4_fields fs n (length (nat_str n)) rest"
proof -
  consider "n < 10" | "10 \<le> n" "n < 100" | "100 \<le> n" by linarith
  then show ?thesis
  proof cases
    case 1
    with assms show ?thesis by (simp add: nat_str_1 Let_def)
  next
    case 2
    define q r where "q = n div 10" and "r = n mod 10"
    with 2 have qr: "q < 10" "q \<noteq> 0" "r < 10" and eq: "n = 10 * q + r" by auto
    have "nat_str n = [digit_char q, digit_char r]" using 2 by (simp add: nat_str_2 q_def r_def)
    moreover have "\<not> 255 < q" "\<not> 255 < 10 * q + r" using qr by auto
    ultimately show ?thesis using qr by (simp add: eq Let_def)
  next
    case 3
    define p q r where "p = n div 100" and "q = n div 10 mod 10" and "r = n mod 10"
    then have eq: "n = 10 * (10 * p + q) + r" using octet_split [of n] by simp
    have "p < 10" "p \<noteq> 0" "q < 10" "r < 10"
      using 3 assms by (auto simp: p_def q_def r_def)
    moreover have "nat_str n = [digit_char p, digit_char q, digit_char r]"
      using 3 assms by (simp add: nat_str_3 p_def q_def r_def)
    moreover have "\<not> 255 < 10 * p + q" "\<not> 255 < p" "\<not> 255 < 10 * (10 * p + q) + r"
      using eq assms by auto
    ultimately show ?thesis by (simp add: eq Let_def)
  qed
qed

lemma ipv4_fields_dot:
  assumes "n < 256" and "length fs < 3" and "rest \<noteq> []"
  shows "ipv4_fields fs 0 0 (nat_str n @ CHR ''.'' # rest) = ipv4_fields (fs @ [n]) 0 0 rest"
  using assms by (simp add: ipv4_fields_octet)

lemma ipv4_fields_end:
  assumes "n < 256" and "length fs = 3"
  shows "ipv4_fields fs 0 0 (nat_str n) = Some (fs @ [n])"
  using assms ipv4_fields_octet [of n fs "[]"] by simp

lemma octets4_less: "b \<in> set (octets4 w) \<Longrightarrow> b < 256"
  by (auto simp: octets4_def)

lemma octets4_value:
  "foldl (\<lambda>acc b. 256 * acc + b) 0 (octets4 w) = unat w"
proof -
  let ?n = "unat w"
  have lt: "?n < 256 * 16777216" using unat_bound [of w] by simp
  have a: "?n div 16777216 mod 256 = ?n div 16777216" using lt by simp
  have b: "256 * (?n div 16777216) + ?n div 65536 mod 256 = ?n div 65536"
    using mult_div_mod_eq [of 256 "?n div 65536"] by (simp add: div_mult2_eq [symmetric])
  have c: "256 * (?n div 65536) + ?n div 256 mod 256 = ?n div 256"
    using mult_div_mod_eq [of 256 "?n div 256"] by (simp add: div_mult2_eq [symmetric])
  have d: "256 * (?n div 256) + ?n mod 256 = ?n" by simp
  show ?thesis by (simp add: octets4_def a b c d)
qed

lemma word_of_octets4: "word_of_octets (octets4 w) = w"
  by (simp add: word_of_octets_def octets4_value)

lemma parse_ipv4_string: "parse_ipv4 (ipv4_string w) = Some (A4 w)"
proof -
  obtain a b c d where o4: "octets4 w = [a, b, c, d]" by (simp add: octets4_def)
  then have "a < 256" "b < 256" "c < 256" "d < 256"
    using octets4_less [of _ w] by auto
  then have "ipv4_fields [] 0 0 (ipv4_string w) = Some (octets4 w)"
    by (simp add: ipv4_string_def o4 ipv4_fields_dot ipv4_fields_end)
  then show ?thesis by (simp add: parse_ipv4_def word_of_octets4)
qed

lemma addr_kind_digits: "list_all is_digit ds \<Longrightarrow> addr_kind (ds @ s) = addr_kind s"
proof (induction ds)
  case Nil
  then show ?case by simp
next
  case (Cons c ds)
  then show ?case by (auto simp: is_digit_def)
qed

lemma ipv4_string_shape: "\<exists>ds s. ipv4_string w = ds @ CHR ''.'' # s \<and> list_all is_digit ds"
proof -
  obtain a b c d where "octets4 w = [a, b, c, d]" by (simp add: octets4_def)
  then have "ipv4_string w = nat_str a @ CHR ''.'' # join ''.'' (map nat_str [b, c, d])"
    by (simp add: ipv4_string_def)
  then show ?thesis using nat_str_digits by blast
qed

text \<open>\<open>ParseAddr\<close> reads back what \<open>Addr.String\<close> prints for an IPv4 address.\<close>

lemma parse_addr_string4: "parse_addr (addr_string (A4 w)) = Some (A4 w)"
proof -
  obtain ds s where "ipv4_string w = ds @ CHR ''.'' # s" and "list_all is_digit ds"
    using ipv4_string_shape by blast
  then have "addr_kind (ipv4_string w) = Some (CHR ''.'')" by (simp add: addr_kind_digits)
  then show ?thesis by (simp add: parse_addr_def parse_ipv4_string)
qed

lemma addr_string4_inj: "addr_string (A4 u) = addr_string (A4 w) \<Longrightarrow> u = w"
  by (metis addr.inject(2) option.inject parse_addr_string4)

lemma ipv4_string_chars: "c \<in> set (ipv4_string w) \<Longrightarrow> is_digit c \<or> c = CHR ''.''"
proof -
  assume c: "c \<in> set (ipv4_string w)"
  obtain p q r t where "octets4 w = [p, q, r, t]" by (simp add: octets4_def)
  with c show ?thesis by (auto simp: ipv4_string_def dest: nat_str_chars)
qed

lemma ipv4_string_trim: "trim_space (ipv4_string w) = ipv4_string w"
proof (rule trim_space_all_plain)
  show "\<forall>c \<in> set (ipv4_string w). plain_char c"
    using ipv4_string_chars by (fastforce simp: is_digit_def plain_char_def)
qed

section \<open>Evaluation\<close>

lemmas ipv6_loop_numeral = ipv6_loop.simps(2) [of "pred_numeral k" for k, folded numeral_eq_Suc]

text \<open>The equations that evaluate the address parsers on a literal string.\<close>

lemmas addr_eval = str_eval parse_addr_def parse_ipv4_def parse_ipv6_def word_of_octets_def
  ipv6_finish_def ipv6_loop_numeral replicate_numeral parse_prefix_def cut_last_def

end
