(* ===== verification/Model.thy ===== *)
theory Model
  imports NetAddr
begin

text \<open>
  The asset inventory's domain types (\<open>internal/model/model.go\<close>), field for field, and
  the collector types of \<open>internal/collector/collector.go\<close>: device classes, credentials,
  targets, results and the registry. A \<open>DeviceType\<close> or \<open>DeviceClass\<close> is a Go string
  with named constants, so values outside the constants (the empty one included) exist
  here as they do in the code.
\<close>

section \<open>Device types\<close>

type_synonym device_type = string

definition TypeUnknown :: device_type where [simp]: "TypeUnknown = ''unknown''"
definition TypeWindows :: device_type where [simp]: "TypeWindows = ''windows''"
definition TypeLinux :: device_type where [simp]: "TypeLinux = ''linux''"
definition TypeMac :: device_type where [simp]: "TypeMac = ''mac''"
definition TypePrinter :: device_type where [simp]: "TypePrinter = ''printer''"
definition TypeSwitch :: device_type where [simp]: "TypeSwitch = ''switch''"
definition TypeRouter :: device_type where [simp]: "TypeRouter = ''router''"
definition TypeFirewall :: device_type where [simp]: "TypeFirewall = ''firewall''"
definition TypeHypervisor :: device_type where [simp]: "TypeHypervisor = ''hypervisor''"
definition TypeVM :: device_type where [simp]: "TypeVM = ''vm''"
definition TypeUPS :: device_type where [simp]: "TypeUPS = ''ups''"

section \<open>Assets\<close>

record osinfo =
  os_family :: string
  os_name :: string
  os_version :: string
  os_build :: string
  os_arch :: string

record hardware =
  hw_vendor :: string
  hw_model :: string
  hw_serial :: string
  hw_cpu :: string
  hw_cores :: int
  hw_ram :: int

record software =
  sw_name :: string
  sw_version :: string
  sw_vendor :: string
  sw_date :: string

record user_account =
  ua_username :: string
  ua_fullname :: string
  ua_lastlogon :: "int option"
  ua_local :: bool

record iface =
  if_name :: string
  if_mac :: string
  if_ip :: addr
  if_speed :: int
  if_vlan :: int

record device =
  d_id :: string
  d_type :: device_type
  d_hostname :: string
  d_ip :: addr
  d_serial :: string
  d_tag :: string
  d_guid :: string
  d_source :: string
  d_first_seen :: int
  d_last_seen :: int
  d_ifaces :: "iface list"
  d_os :: "osinfo option"
  d_hw :: "hardware option"
  d_sw :: "software list"
  d_users :: "user_account list"

text \<open>The zero values a Go composite literal starts from.\<close>

definition no_addr :: addr where [simp]: "no_addr = NoAddr 0"

definition empty_osinfo :: osinfo where
  "empty_osinfo = \<lparr>os_family = [], os_name = [], os_version = [], os_build = [], os_arch = []\<rparr>"

definition empty_hardware :: hardware where
  "empty_hardware = \<lparr>hw_vendor = [], hw_model = [], hw_serial = [], hw_cpu = [],
                     hw_cores = 0, hw_ram = 0\<rparr>"

definition empty_software :: software where
  "empty_software = \<lparr>sw_name = [], sw_version = [], sw_vendor = [], sw_date = []\<rparr>"

definition empty_iface :: iface where
  "empty_iface = \<lparr>if_name = [], if_mac = [], if_ip = no_addr, if_speed = 0, if_vlan = 0\<rparr>"

definition empty_device :: device where
  "empty_device = \<lparr>d_id = [], d_type = [], d_hostname = [], d_ip = no_addr, d_serial = [],
     d_tag = [], d_guid = [], d_source = [], d_first_seen = 0, d_last_seen = 0,
     d_ifaces = [], d_os = None, d_hw = None, d_sw = [], d_users = []\<rparr>"

lemmas zero_value_defs = empty_osinfo_def empty_hardware_def empty_software_def
  empty_iface_def empty_device_def

section \<open>Collectors\<close>

type_synonym device_class = string

definition ClassUnknown :: device_class where [simp]: "ClassUnknown = ''unknown''"
definition ClassWindows :: device_class where [simp]: "ClassWindows = ''windows''"
definition ClassLinux :: device_class where [simp]: "ClassLinux = ''linux''"
definition ClassMac :: device_class where [simp]: "ClassMac = ''mac''"
definition ClassSNMP :: device_class where [simp]: "ClassSNMP = ''snmp''"
definition ClassHypervisor :: device_class where [simp]: "ClassHypervisor = ''hypervisor''"
definition ClassFirewall :: device_class where [simp]: "ClassFirewall = ''firewall''"

record credential =
  cr_id :: string
  cr_kind :: string
  cr_username :: string
  cr_secret :: string
  cr_extra :: "(string \<times> string) list"

definition empty_credential :: credential where
  "empty_credential = \<lparr>cr_id = [], cr_kind = [], cr_username = [], cr_secret = [], cr_extra = []\<rparr>"

text \<open>A read of \<open>cred.Extra[key]\<close>: the empty string where the key is missing.\<close>

definition cr_lookup :: "credential \<Rightarrow> string \<Rightarrow> string" where
  "cr_lookup c k = (case map_of (cr_extra c) k of None \<Rightarrow> [] | Some v \<Rightarrow> v)"

record target =
  tg_addr :: addr
  tg_hostname :: string
  tg_class :: device_class
  tg_creds :: "credential list"

record related =
  rel_device :: device
  rel_kind :: string

record result =
  rs_target :: target
  rs_device :: device
  rs_related :: "related list"

text \<open>
  A collector: its three interface methods. What \<open>Collect\<close> finds on the network is a
  function of the target here; a run of the program is a choice of these functions.
\<close>

record collector =
  co_name :: string
  co_supports :: "device_class \<Rightarrow> bool"
  co_collect :: "target \<Rightarrow> go_error + result"

text \<open>The registry keeps registration order; its lock makes each method atomic.\<close>

type_synonym registry = "collector list"

definition new_registry :: registry where
  "new_registry = []"

definition register :: "collector \<Rightarrow> registry \<Rightarrow> registry" where
  "register c r = r @ [c]"

definition registry_for :: "registry \<Rightarrow> device_class \<Rightarrow> collector list" where
  "registry_for r cls = filter (\<lambda>c. co_supports c cls) r"

definition registry_all :: "registry \<Rightarrow> collector list" where
  "registry_all r = r"

lemma registry_for_register:
  "registry_for (register c r) cls =
     registry_for r cls @ (if co_supports c cls then [c] else [])"
  by (simp add: registry_for_def register_def)

lemma registry_for_supports: "c \<in> set (registry_for r cls) \<Longrightarrow> co_supports c cls"
  by (simp add: registry_for_def)

text \<open>The first credential of one of the given kinds: every collector's \<open>pickCredential\<close>.\<close>

definition pick_kind :: "string list \<Rightarrow> credential list \<Rightarrow> credential option" where
  "pick_kind kinds creds = find (\<lambda>c. cr_kind c \<in> set kinds) creds"

lemma pick_kind_None: "pick_kind ks cs = None \<longleftrightarrow> (\<forall>c \<in> set cs. cr_kind c \<notin> set ks)"
  by (auto simp: pick_kind_def find_None_iff)

lemma pick_kind_Some: "pick_kind ks cs = Some c \<Longrightarrow> c \<in> set cs \<and> cr_kind c \<in> set ks"
  by (auto simp: pick_kind_def find_Some_iff)

end
