(* ===== verification/Fingerprint.thy ===== *)
theory Fingerprint
  imports Model
begin

text \<open>
  \<open>internal/fingerprint/fingerprint.go\<close>: the device class guessed from the open ports and
  the device type a class stands for when no collector says more.
\<close>

definition SNMPPort :: int where [simp]: "SNMPPort = 161"

definition ClassifyByPorts :: "int list \<Rightarrow> device_class" where
  "ClassifyByPorts open_ports =
     (let has = (\<lambda>p. p \<in> set open_ports)
      in if has 5985 \<or> has 5986 \<or> has 3389 \<or> has 135 then ClassWindows
         else if has SNMPPort then ClassSNMP
         else if has 8006 then ClassHypervisor
         else if has 22 then ClassLinux
         else if has 445 \<or> has 139 then ClassWindows
         else if has 9100 \<or> has 631 \<or> has 515 then ClassSNMP
         else ClassUnknown)"

definition ClassToType :: "device_class \<Rightarrow> device_type" where
  "ClassToType c =
     (if c = ClassWindows then TypeWindows
      else if c = ClassLinux then TypeLinux
      else if c = ClassMac then TypeMac
      else if c = ClassSNMP then TypeSwitch
      else if c = ClassHypervisor then TypeHypervisor
      else if c = ClassFirewall then TypeFirewall
      else TypeUnknown)"

text \<open>
  The classification as a table: rules in order of precedence, the first one with an open
  port wins.
\<close>

definition class_rules :: "(int list \<times> device_class) list" where
  "class_rules =
     [([5985, 5986, 3389, 135], ClassWindows), ([161], ClassSNMP), ([8006], ClassHypervisor),
      ([22], ClassLinux), ([445, 139], ClassWindows), ([9100, 631, 515], ClassSNMP)]"

definition first_rule :: "int list \<Rightarrow> device_class" where
  "first_rule ports =
     (case find (\<lambda>(ps, c). \<exists>p \<in> set ps. p \<in> set ports) class_rules of
        None \<Rightarrow> ClassUnknown | Some (ps, c) \<Rightarrow> c)"

lemma ClassifyByPorts_set: "set ps = set qs \<Longrightarrow> ClassifyByPorts ps = ClassifyByPorts qs"
  by (simp add: ClassifyByPorts_def)

lemma ClassToType_nonempty: "ClassToType c \<noteq> []"
  by (simp add: ClassToType_def)

lemma ClassifyByPorts_rules: "ClassifyByPorts ports = first_rule ports"
  by (auto simp: ClassifyByPorts_def first_rule_def class_rules_def)

end
