(* ===== verification/Worker.thy ===== *)
theory Worker
  imports Prelude
begin

text \<open>
  \<open>internal/worker/pool.go\<close>: the bounded-concurrency job runner. \<open>Run\<close> is a transition
  system: the loop of the calling goroutine (it tests the context, then blocks on the
  semaphore channel, then starts a goroutine) interleaves with the goroutines that finish
  and with the cancellation of the context. Jobs may act on a shared state (the database),
  one job's effect being atomic. \<open>pool_outcome\<close> is the result as a function of the order in
  which the started jobs finish; \<open>run_linearises\<close> says every run of the system is one of
  these.
\<close>

section \<open>The transition system\<close>

type_synonym 'a job_result = "'a \<times> go_error option"

text \<open>A job sees whether the context is cancelled and the shared state.\<close>

type_synonym ('a, 's) job = "bool \<Rightarrow> 's \<Rightarrow> 'a job_result \<times> 's"

definition ctx_err :: go_error where
  "ctx_err = ErrText ''context canceled''"

text \<open>The loop of \<open>Run\<close> is about to test the context for job \<open>i\<close>, or blocked at \<open>sem <-\<close>.\<close>

datatype loop_pc = AtCheck nat | AtSem nat

record ('a, 's) pool =
  pl_pc :: loop_pc
  pl_running :: "nat list"
  pl_results :: "'a job_result list"
  pl_cancelled :: bool
  pl_state :: 's
  pl_started :: "nat list"
  pl_finished :: "(nat \<times> bool) list"

definition pool_size :: "int \<Rightarrow> nat" where
  "pool_size concurrency = (if concurrency < 1 then 1 else nat concurrency)"

definition pool_init :: "('a, 's) job list \<Rightarrow> 'a \<Rightarrow> 's \<Rightarrow> ('a, 's) pool" where
  "pool_init jobs zero s0 =
     \<lparr>pl_pc = AtCheck 0, pl_running = [], pl_results = replicate (length jobs) (zero, None),
      pl_cancelled = False, pl_state = s0, pl_started = [], pl_finished = []\<rparr>"

inductive pool_step :: "('a, 's) job list \<Rightarrow> nat \<Rightarrow> 'a \<Rightarrow> ('a, 's) pool \<Rightarrow> ('a, 's) pool \<Rightarrow> bool"
  for jobs :: "('a, 's) job list" and conc :: nat and zero :: 'a where
  Cancel: "\<not> pl_cancelled p \<Longrightarrow> pool_step jobs conc zero p (p\<lparr>pl_cancelled := True\<rparr>)"
| Skip: "pl_pc p = AtCheck i \<Longrightarrow> i < length jobs \<Longrightarrow> pl_cancelled p \<Longrightarrow>
     pool_step jobs conc zero p
       (p\<lparr>pl_pc := AtCheck (Suc i), pl_results := (pl_results p)[i := (zero, Some ctx_err)]\<rparr>)"
| Admit: "pl_pc p = AtCheck i \<Longrightarrow> i < length jobs \<Longrightarrow> \<not> pl_cancelled p \<Longrightarrow>
     pool_step jobs conc zero p (p\<lparr>pl_pc := AtSem i\<rparr>)"
| Start: "pl_pc p = AtSem i \<Longrightarrow> length (pl_running p) < conc \<Longrightarrow>
     pool_step jobs conc zero p
       (p\<lparr>pl_pc := AtCheck (Suc i), pl_running := pl_running p @ [i],
          pl_started := pl_started p @ [i]\<rparr>)"
| Finish: "i \<in> set (pl_running p) \<Longrightarrow> (jobs ! i) (pl_cancelled p) (pl_state p) = (r, s') \<Longrightarrow>
     pool_step jobs conc zero p
       (p\<lparr>pl_running := remove1 i (pl_running p), pl_results := (pl_results p)[i := r],
          pl_state := s', pl_finished := pl_finished p @ [(i, pl_cancelled p)]\<rparr>)"

inductive pool_reach :: "('a, 's) job list \<Rightarrow> nat \<Rightarrow> 'a \<Rightarrow> ('a, 's) pool \<Rightarrow> ('a, 's) pool \<Rightarrow> bool"
  for jobs :: "('a, 's) job list" and conc :: nat and zero :: 'a and p :: "('a, 's) pool" where
  refl: "pool_reach jobs conc zero p p"
| step: "pool_reach jobs conc zero p q \<Longrightarrow> pool_step jobs conc zero q q' \<Longrightarrow>
     pool_reach jobs conc zero p q'"

text \<open>\<open>wg.Wait()\<close> has returned: the loop is over and no goroutine runs.\<close>

definition returned :: "('a, 's) job list \<Rightarrow> ('a, 's) pool \<Rightarrow> bool" where
  "returned jobs p \<longleftrightarrow> pl_pc p = AtCheck (length jobs) \<and> pl_running p = []"

section \<open>The outcome as a function of the finishing order\<close>

fun run_order :: "('a, 's) job list \<Rightarrow> (nat \<times> bool) list \<Rightarrow> 's \<Rightarrow> (nat \<times> 'a job_result) list \<times> 's" where
  "run_order jobs [] s = ([], s)"
| "run_order jobs ((i, b) # rest) s =
     (let (r, s') = (jobs ! i) b s; (m, s'') = run_order jobs rest s' in ((i, r) # m, s''))"

definition pool_outcome ::
  "('a, 's) job list \<Rightarrow> 'a \<Rightarrow> (nat \<times> bool) list \<Rightarrow> 's \<Rightarrow> 'a job_result list \<times> 's" where
  "pool_outcome jobs zero order s =
     (let (m, s') = run_order jobs order s
      in (map (\<lambda>i. case map_of m i of Some r \<Rightarrow> r | None \<Rightarrow> (zero, Some ctx_err)) [0..<length jobs],
          s'))"

text \<open>
  The orders a run can have: each started job once, the started jobs an initial segment of
  the jobs, all of them unless the context was cancelled.
\<close>

definition valid_order :: "nat \<Rightarrow> (nat \<times> bool) list \<Rightarrow> bool" where
  "valid_order n order \<longleftrightarrow>
     length order \<le> n \<and> distinct (map fst order) \<and> set (map fst order) = {0..<length order}"

lemma run_order_append:
  "run_order jobs (xs @ [(i, b)]) s =
     (let (m, s') = run_order jobs xs s; (r, s'') = (jobs ! i) b s' in (m @ [(i, r)], s''))"
  by (induction jobs xs s rule: run_order.induct) (auto simp: Let_def split: prod.splits)

lemma fst_run_order: "map fst (fst (run_order jobs order s)) = map fst order"
  by (induction jobs order s rule: run_order.induct) (auto simp: Let_def split: prod.splits)

lemma length_pool_outcome [simp]: "length (fst (pool_outcome jobs zero order s)) = length jobs"
  by (simp add: pool_outcome_def split: prod.splits)

section \<open>The invariant\<close>

fun front :: "loop_pc \<Rightarrow> nat" where
  "front (AtCheck i) = i"
| "front (AtSem i) = i"

text \<open>
  What the loop keeps true: the started jobs are an initial segment up to the loop's
  position (shorter only after a cancellation), each started job either runs or has
  finished once, every slot passed over holds the context's error, and the slots of the
  finished jobs hold what running them in finishing order gives.
\<close>

definition pool_inv :: "('a, 's) job list \<Rightarrow> nat \<Rightarrow> 'a \<Rightarrow> 's \<Rightarrow> ('a, 's) pool \<Rightarrow> bool" where
  "pool_inv jobs conc zero s0 p \<longleftrightarrow>
     length (pl_results p) = length jobs \<and>
     front (pl_pc p) \<le> length jobs \<and>
     (\<forall>i. pl_pc p = AtSem i \<longrightarrow> i < length jobs \<and> pl_started p = [0..<i]) \<and>
     pl_started p = [0..<length (pl_started p)] \<and>
     length (pl_started p) \<le> front (pl_pc p) \<and>
     (\<not> pl_cancelled p \<longrightarrow> length (pl_started p) = front (pl_pc p)) \<and>
     distinct (pl_running p @ map fst (pl_finished p)) \<and>
     set (pl_running p) \<union> set (map fst (pl_finished p)) = set (pl_started p) \<and>
     length (pl_running p) \<le> conc \<and>
     (\<forall>i. length (pl_started p) \<le> i \<and> i < front (pl_pc p) \<longrightarrow>
          pl_results p ! i = (zero, Some ctx_err)) \<and>
     snd (run_order jobs (pl_finished p) s0) = pl_state p \<and>
     (\<forall>i r. (i, r) \<in> set (fst (run_order jobs (pl_finished p) s0)) \<longrightarrow>
            pl_results p ! i = r)"

lemma pool_inv_init: "pool_inv jobs conc zero s0 (pool_init jobs zero s0)"
  by (simp add: pool_inv_def pool_init_def)

lemma pool_inv_started:
  "pool_inv jobs conc zero s0 p \<Longrightarrow> i \<in> set (pl_started p) \<longleftrightarrow> i < length (pl_started p)"
  unfolding pool_inv_def by (metis atLeastLessThan_iff le0 set_upt)

lemma run_order_keys:
  "(j, r) \<in> set (fst (run_order jobs order s)) \<Longrightarrow> j \<in> set (map fst order)"
  by (metis fst_run_order fst_conv image_eqI list.set_map)

lemma inv_cancel: "pool_inv jobs conc zero s0 p \<Longrightarrow> pool_inv jobs conc zero s0 (p\<lparr>pl_cancelled := True\<rparr>)"
  by (auto simp: pool_inv_def)

lemma inv_skip:
  assumes "pool_inv jobs conc zero s0 p" "pl_pc p = AtCheck i" "i < length jobs" "pl_cancelled p"
  shows "pool_inv jobs conc zero s0
       (p\<lparr>pl_pc := AtCheck (Suc i), pl_results := (pl_results p)[i := (zero, Some ctx_err)]\<rparr>)"
proof -
  have "\<not> i < length (pl_started p)" using assms(1,2) by (auto simp: pool_inv_def)
  then have "i \<notin> set (pl_started p)" using pool_inv_started [OF assms(1)] by blast
  then have "i \<notin> set (map fst (pl_finished p))" using assms(1) by (auto simp: pool_inv_def)
  then have "(j, r) \<in> set (fst (run_order jobs (pl_finished p) s0)) \<Longrightarrow> j \<noteq> i" for j r
    using run_order_keys by fastforce
  with assms show ?thesis
    by (auto simp: pool_inv_def nth_list_update less_Suc_eq)
qed

lemma inv_admit:
  assumes "pool_inv jobs conc zero s0 p" "pl_pc p = AtCheck i" "i < length jobs" "\<not> pl_cancelled p"
  shows "pool_inv jobs conc zero s0 (p\<lparr>pl_pc := AtSem i\<rparr>)"
  using assms by (auto simp: pool_inv_def)

lemma inv_start:
  assumes "pool_inv jobs conc zero s0 p" "pl_pc p = AtSem i" "length (pl_running p) < conc"
  shows "pool_inv jobs conc zero s0
       (p\<lparr>pl_pc := AtCheck (Suc i), pl_running := pl_running p @ [i],
          pl_started := pl_started p @ [i]\<rparr>)"
proof -
  have st: "pl_started p = [0..<i]" and "i < length jobs" using assms by (auto simp: pool_inv_def)
  moreover have "i \<notin> set (pl_running p) \<union> set (map fst (pl_finished p))"
    using assms(1) st unfolding pool_inv_def by simp
  ultimately show ?thesis
    using assms unfolding pool_inv_def by simp
qed

lemma run_order_entries:
  "(i, r) \<in> set (fst (run_order jobs (xs @ [(j, b)]) s0)) \<longleftrightarrow>
   (i, r) \<in> set (fst (run_order jobs xs s0)) \<or>
   (i, r) = (j, fst ((jobs ! j) b (snd (run_order jobs xs s0))))"
  by (auto simp: run_order_append Let_def split: prod.splits)
lemma run_order_state:
  "snd (run_order jobs (xs @ [(j, b)]) s0) = snd ((jobs ! j) b (snd (run_order jobs xs s0)))"
  by (auto simp: run_order_append Let_def split: prod.splits)
lemma inv_finish:
  assumes inv: "pool_inv jobs conc zero s0 p" and i: "i \<in> set (pl_running p)"
    and r: "(jobs ! i) (pl_cancelled p) (pl_state p) = (r, s')"
  shows "pool_inv jobs conc zero s0
       (p\<lparr>pl_running := remove1 i (pl_running p), pl_results := (pl_results p)[i := r],
          pl_state := s', pl_finished := pl_finished p @ [(i, pl_cancelled p)]\<rparr>)"
    (is "pool_inv _ _ _ _ ?q")
proof -
  have len: "length (pl_results p) = length jobs"
    and d: "distinct (pl_running p @ map fst (pl_finished p))"
    and sets: "set (pl_running p) \<union> set (map fst (pl_finished p)) = set (pl_started p)"
    and st: "snd (run_order jobs (pl_finished p) s0) = pl_state p"
    and fin: "\<forall>i r. (i, r) \<in> set (fst (run_order jobs (pl_finished p) s0)) \<longrightarrow>
                 pl_results p ! i = r"
    and skip: "\<forall>i. length (pl_started p) \<le> i \<and> i < front (pl_pc p) \<longrightarrow>
                 pl_results p ! i = (zero, Some ctx_err)"
    and le: "length (pl_started p) \<le> front (pl_pc p)" "front (pl_pc p) \<le> length jobs"
            "length (pl_running p) \<le> conc"
    using inv by (simp_all add: pool_inv_def)
  have lt: "i < length (pl_started p)" using pool_inv_started [OF inv, of i] i sets by blast
  have nf: "i \<notin> set (map fst (pl_finished p))" using d i by auto
  have "distinct (pl_running ?q @ map fst (pl_finished ?q))" using d nf by auto
  moreover have "set (pl_running ?q) \<union> set (map fst (pl_finished ?q)) = set (pl_started p)"
    using d i sets by auto
  moreover have "length (pl_running ?q) \<le> conc" using le(3) by (auto simp: length_remove1)
  moreover have "pl_results ?q ! j = (zero, Some ctx_err)"
    if "length (pl_started p) \<le> j" "j < front (pl_pc p)" for j
    using skip that lt by simp
  moreover have "pl_results ?q ! j = x"
    if "(j, x) \<in> set (fst (run_order jobs (pl_finished ?q) s0))" for j x
  proof -
    from that have "(j, x) \<in> set (fst (run_order jobs (pl_finished p) s0)) \<or> (j, x) = (i, r)"
      using r st by (simp add: run_order_entries)
    moreover have "j \<noteq> i" if "(j, x) \<in> set (fst (run_order jobs (pl_finished p) s0))"
      using nf run_order_keys [OF that] by blast
    moreover have "i < length (pl_results p)" using lt le len by simp
    ultimately show ?thesis using fin by (cases x) auto
  qed
  moreover have "snd (run_order jobs (pl_finished ?q) s0) = pl_state ?q"
    using r st by (simp add: run_order_state)
  ultimately show ?thesis using inv unfolding pool_inv_def by simp
qed

lemma pool_step_inv: "pool_step jobs conc zero p q \<Longrightarrow> pool_inv jobs conc zero s0 p \<Longrightarrow>
   pool_inv jobs conc zero s0 q"
  by (induction rule: pool_step.induct) (auto intro: inv_cancel inv_skip inv_admit inv_start inv_finish)

lemma pool_reach_inv:
  "pool_reach jobs conc zero p q \<Longrightarrow> pool_inv jobs conc zero s0 p \<Longrightarrow> pool_inv jobs conc zero s0 q"
  by (induction rule: pool_reach.induct) (auto intro: pool_step_inv)

lemma pool_reach_init_inv:
  "pool_reach jobs conc zero (pool_init jobs zero s0) q \<Longrightarrow> pool_inv jobs conc zero s0 q"
  by (rule pool_reach_inv [OF _ pool_inv_init])

section \<open>Progress and termination\<close>

fun loop_cost :: "nat \<Rightarrow> loop_pc \<Rightarrow> nat" where
  "loop_cost n (AtCheck i) = 3 * (n - i)"
| "loop_cost n (AtSem i) = 3 * (n - i) - 1"

definition pool_cost :: "('a, 's) job list \<Rightarrow> ('a, 's) pool \<Rightarrow> nat" where
  "pool_cost jobs p = loop_cost (length jobs) (pl_pc p) + length (pl_running p)
     + (if pl_cancelled p then 0 else 1)"

lemma pool_step_cost:
  assumes "pool_step jobs conc zero p q" and "pool_inv jobs conc zero s0 p"
  shows "pool_cost jobs q < pool_cost jobs p"
  using assms
proof (cases rule: pool_step.cases)
  case (Start i)
  with assms(2) have "i < length jobs" by (simp add: pool_inv_def)
  with Start show ?thesis by (simp add: pool_cost_def)
next
  case (Finish i r s')
  then have "0 < length (pl_running p)" by (cases "pl_running p") auto
  with Finish show ?thesis by (simp add: pool_cost_def length_remove1)
qed (auto simp: pool_cost_def)

lemma pool_progress:
  assumes inv: "pool_inv jobs conc zero s0 p" and conc: "0 < conc"
    and nr: "\<not> returned jobs p"
  shows "\<exists>q. pool_step jobs conc zero p q \<and> pl_cancelled q = pl_cancelled p"
proof (cases "pl_running p")
  case (Cons i rest)
  obtain r s' where "(jobs ! i) (pl_cancelled p) (pl_state p) = (r, s')"
    by (cases "(jobs ! i) (pl_cancelled p) (pl_state p)")
  from pool_step.Finish [OF _ this, of conc zero] Cons show ?thesis by fastforce
next
  case Nil
  show ?thesis
  proof (cases "pl_pc p")
    case (AtCheck i)
    with nr Nil inv have i: "i < length jobs" by (auto simp: returned_def pool_inv_def)
    show ?thesis
    proof (cases "pl_cancelled p")
      case True
      from pool_step.Skip [OF AtCheck i True, of conc zero] True show ?thesis by fastforce
    next
      case False
      from pool_step.Admit [OF AtCheck i False, of conc zero] False show ?thesis by fastforce
    qed
  next
    case (AtSem i)
    from pool_step.Start [OF AtSem, of conc jobs zero] Nil conc show ?thesis by fastforce
  qed
qed

lemma pool_returns_from:
  assumes "pool_inv jobs conc zero s0 p" and "0 < conc"
  shows "\<exists>q. pool_reach jobs conc zero p q \<and> returned jobs q \<and> pl_cancelled q = pl_cancelled p"
  using assms(1)
proof (induction "pool_cost jobs p" arbitrary: p rule: less_induct)
  case less
  show ?case
  proof (cases "returned jobs p")
    case True
    then show ?thesis by (intro exI [of _ p]) (simp add: pool_reach.refl)
  next
    case False
    from pool_progress [OF less.prems assms(2) False] obtain q
      where q: "pool_step jobs conc zero p q" "pl_cancelled q = pl_cancelled p" by blast
    from less.hyps [OF pool_step_cost [OF q(1) less.prems] pool_step_inv [OF q(1) less.prems]]
    obtain r where r: "pool_reach jobs conc zero q r" "returned jobs r"
      "pl_cancelled r = pl_cancelled q" by blast
    have "pool_reach jobs conc zero p x" if "pool_reach jobs conc zero q x" for x
      using that by (induction rule: pool_reach.induct)
        (auto intro: pool_reach.intros q(1))
    with r q(2) show ?thesis by auto
  qed
qed

section \<open>What a returned run has computed\<close>

lemma returned_order:
  assumes "pool_inv jobs conc zero s0 p" and "returned jobs p"
  shows "valid_order (length jobs) (pl_finished p)"
    and "pl_cancelled p \<or> length (pl_finished p) = length jobs"
proof -
  have d: "distinct (map fst (pl_finished p))"
    and s: "set (map fst (pl_finished p)) = {0..<length (pl_started p)}"
    and le: "length (pl_started p) \<le> length jobs"
    and full: "\<not> pl_cancelled p \<Longrightarrow> length (pl_started p) = length jobs"
    using assms by (auto simp: pool_inv_def returned_def) (metis atLeastLessThan_iff le0 set_upt)+
  have "length (pl_finished p) = card (set (map fst (pl_finished p)))"
    using distinct_card [OF d] by simp
  also have "\<dots> = length (pl_started p)" by (simp only: s) simp
  finally have len: "length (pl_finished p) = length (pl_started p)" .
  with d s le show "valid_order (length jobs) (pl_finished p)" by (simp add: valid_order_def)
  from len full show "pl_cancelled p \<or> length (pl_finished p) = length jobs" by auto
qed

lemma returned_outcome:
  assumes inv: "pool_inv jobs conc zero s0 p" and ret: "returned jobs p"
  shows "(pl_results p, pl_state p) = pool_outcome jobs zero (pl_finished p) s0"
proof -
  obtain m s' where m: "run_order jobs (pl_finished p) s0 = (m, s')" by fastforce
  have s': "s' = pl_state p" using inv m by (simp add: pool_inv_def)
  have keys: "map fst m = map fst (pl_finished p)"
    using fst_run_order [of jobs "pl_finished p" s0] m by simp
  have "pl_results p ! i = (case map_of m i of Some r \<Rightarrow> r | None \<Rightarrow> (zero, Some ctx_err))"
    if i: "i < length jobs" for i
  proof (cases "map_of m i")
    case None
    then have "i \<notin> set (map fst (pl_finished p))"
      using keys by (metis list.set_map map_of_eq_None_iff)
    then have "i \<notin> set (pl_started p)" using inv ret by (auto simp: pool_inv_def returned_def)
    then have "length (pl_started p) \<le> i" using pool_inv_started [OF inv, of i] by simp
    with None i inv ret show ?thesis by (simp add: pool_inv_def returned_def)
  next
    case (Some r)
    then have "(i, r) \<in> set m" by (rule map_of_SomeD)
    with Some inv m show ?thesis by (cases r) (simp add: pool_inv_def)
  qed
  moreover have "length (pl_results p) = length jobs" using inv by (simp add: pool_inv_def)
  ultimately have "pl_results p =
      map (\<lambda>i. case map_of m i of Some r \<Rightarrow> r | None \<Rightarrow> (zero, Some ctx_err)) [0..<length jobs]"
    by (intro nth_equalityI) simp_all
  with m s' show ?thesis by (simp add: pool_outcome_def)
qed

section \<open>Cancellation\<close>

text \<open>After a cancellation only a job already waiting at the semaphore can still start.\<close>

definition may_start :: "loop_pc \<Rightarrow> nat list" where
  "may_start c = (case c of AtCheck i \<Rightarrow> [] | AtSem i \<Rightarrow> [i])"

lemma cancelled_step:
  assumes "pool_step jobs conc zero p q" and "pl_cancelled p"
  shows "pl_cancelled q \<and>
    (pl_started q = pl_started p \<and> may_start (pl_pc q) = may_start (pl_pc p) \<or>
     pl_started q = pl_started p @ may_start (pl_pc p) \<and> may_start (pl_pc q) = [])"
  using assms by (cases rule: pool_step.cases) (auto simp: may_start_def)

lemma cancelled_reach:
  assumes "pool_reach jobs conc zero p q" and "pl_cancelled p"
  shows "pl_cancelled q \<and>
    (pl_started q = pl_started p \<and> may_start (pl_pc q) = may_start (pl_pc p) \<or>
     pl_started q = pl_started p @ may_start (pl_pc p) \<and> may_start (pl_pc q) = [])"
  using assms
proof (induction rule: pool_reach.induct)
  case refl
  then show ?case by simp
next
  case (step q q')
  from cancelled_step [OF step.hyps(2)] step show ?case by auto
qed

section \<open>Properties\<close>

text \<open>Two jobs over a counter, for the witnesses: each returns the counter and bumps it.\<close>

definition demo_jobs :: "(nat, nat) job list" where
  "demo_jobs = [\<lambda>b s. ((s, None), Suc s), \<lambda>b s. ((10 + s, None), Suc s)]"

definition demo_pool :: "(nat, nat) pool" where
  "demo_pool =
     \<lparr>pl_pc = AtCheck 1, pl_running = [0], pl_results = [(0, None), (0, None)],
      pl_cancelled = False, pl_state = 0, pl_started = [0], pl_finished = []\<rparr>"

lemma demo_reach: "pool_reach demo_jobs 1 0 (pool_init demo_jobs 0 0) demo_pool"
proof -
  let ?i = "pool_init demo_jobs 0 0 :: (nat, nat) pool"
  have a: "pool_step demo_jobs 1 0 ?i (?i\<lparr>pl_pc := AtSem 0\<rparr>)"
    by (rule pool_step.Admit) (simp_all add: pool_init_def demo_jobs_def)
  have b: "pool_step demo_jobs 1 0 (?i\<lparr>pl_pc := AtSem 0\<rparr>) demo_pool"
    using pool_step.Start [of "?i\<lparr>pl_pc := AtSem 0\<rparr>" 0 1 demo_jobs 0]
    by (simp add: pool_init_def demo_pool_def demo_jobs_def numeral_2_eq_2)
  from pool_reach.step [OF pool_reach.step [OF pool_reach.refl a] b] show ?thesis .
qed

definition demo_done :: "(nat, nat) pool" where
  "demo_done =
     \<lparr>pl_pc = AtCheck 2, pl_running = [], pl_results = [(0, None), (0, Some ctx_err)],
      pl_cancelled = True, pl_state = 1, pl_started = [0], pl_finished = [(0, True)]\<rparr>"

lemma demo_done_reach: "pool_reach demo_jobs 1 0 (pool_init demo_jobs 0 0) demo_done"
proof -
  let ?p = "demo_pool\<lparr>pl_cancelled := True\<rparr>"
  let ?q = "?p\<lparr>pl_pc := AtCheck 2, pl_results := [(0, None), (0, Some ctx_err)]\<rparr>"
  have a: "pool_step demo_jobs 1 0 demo_pool ?p"
    by (rule pool_step.Cancel) (simp add: demo_pool_def)
  have b: "pool_step demo_jobs 1 0 ?p ?q"
    using pool_step.Skip [of ?p 1 demo_jobs 1 0]
    by (simp add: demo_pool_def demo_jobs_def numeral_2_eq_2)
  have c: "pool_step demo_jobs 1 0 ?q demo_done"
    using pool_step.Finish [of 0 ?q demo_jobs "(0, None)" 1 1 0]
    by (simp add: demo_pool_def demo_done_def demo_jobs_def)
  from pool_reach.step [OF pool_reach.step [OF pool_reach.step [OF demo_reach a] b] c]
  show ?thesis .
qed

text \<open>
  (C14) \<open>Run\<close> never has more than \<open>concurrency\<close> jobs running at once (one, where
  \<open>concurrency\<close> is below one), in any interleaving and with any cancellation.
\<close>

theorem run_bounded:
  assumes "pool_reach jobs (pool_size c) zero (pool_init jobs zero s0) p"
  shows "int (length (pl_running p)) \<le> max 1 c"
  using pool_reach_init_inv [OF assms] by (auto simp: pool_inv_def pool_size_def split: if_splits)

theorem run_bounded_witness: "int (length (pl_running demo_pool)) \<le> max 1 0 \<and> pl_running demo_pool = [0]"
  using run_bounded [of demo_jobs 0 0 0 demo_pool] demo_reach
  by (simp add: pool_size_def demo_pool_def)

text \<open>
  (C24) \<open>Run\<close> always returns: from every state it can be in it can go on to return without
  a further cancellation, and no interleaving goes on for ever, since every step lowers
  \<open>pool_cost\<close>, which starts at three per job plus one.
\<close>

theorem run_terminates:
  assumes "pool_reach jobs (pool_size c) zero (pool_init jobs zero s0) p"
  shows "(\<exists>q. pool_reach jobs (pool_size c) zero p q \<and> returned jobs q \<and>
              pl_cancelled q = pl_cancelled p) \<and>
         (\<forall>q. pool_step jobs (pool_size c) zero p q \<longrightarrow> pool_cost jobs q < pool_cost jobs p) \<and>
         pool_cost jobs (pool_init jobs zero s0) = 3 * length jobs + 1"
proof -
  have inv: "pool_inv jobs (pool_size c) zero s0 p" by (rule pool_reach_init_inv [OF assms])
  have "0 < pool_size c" by (simp add: pool_size_def)
  from pool_returns_from [OF inv this] pool_step_cost [OF _ inv] show ?thesis
    by (auto simp: pool_cost_def pool_init_def)
qed

theorem run_terminates_witness:
  "\<exists>q. pool_reach demo_jobs 1 0 demo_pool q \<and> returned demo_jobs q \<and> \<not> pl_cancelled q"
  using run_terminates [of demo_jobs 1 0 0 demo_pool] demo_reach
  by (auto simp: pool_size_def demo_pool_def)



text \<open>
  After the context is cancelled at most one more job starts, and only the one the
  loop had already admitted and that was waiting for a free slot.
\<close>

theorem run_after_cancel:
  assumes "pool_reach jobs (pool_size c) zero p q" and "pl_cancelled p"
  shows "pl_started q = pl_started p \<or>
         (\<exists>i. pl_pc p = AtSem i \<and> pl_started q = pl_started p @ [i])"
  using cancelled_reach [OF assms] by (auto simp: may_start_def split: loop_pc.splits)

theorem run_after_cancel_witness:
  "pl_started demo_done = [0] \<or> (\<exists>i. pl_pc demo_done = AtSem i \<and> pl_started demo_done = [0, i])"
  using run_after_cancel [of demo_jobs 1 0 demo_done demo_done]
  by (simp add: demo_done_def pool_reach.refl)

text \<open>
  A job that has not started when the context is cancelled may still run: the
  context is tested before the loop blocks on the semaphore, not after. The comment on
  \<open>Run\<close> says not-yet-started jobs record the context's error instead of running.
\<close>

theorem run_late_start:
  "\<exists>p q. pool_reach demo_jobs (pool_size 1) 0 (pool_init demo_jobs 0 0) p \<and>
         pl_cancelled p \<and> pl_started p = [] \<and>
         pool_reach demo_jobs (pool_size 1) 0 p q \<and> pl_started q = [0]"
proof -
  let ?i = "pool_init demo_jobs 0 0 :: (nat, nat) pool"
  let ?a = "?i\<lparr>pl_pc := AtSem 0\<rparr>"
  let ?p = "?a\<lparr>pl_cancelled := True\<rparr>"
  let ?q = "?p\<lparr>pl_pc := AtCheck (Suc 0), pl_running := pl_running ?p @ [0],
               pl_started := pl_started ?p @ [0]\<rparr>"
  have "pool_step demo_jobs 1 0 ?i ?a"
    by (rule pool_step.Admit) (simp_all add: pool_init_def demo_jobs_def)
  moreover have "pool_step demo_jobs 1 0 ?a ?p"
    by (rule pool_step.Cancel) (simp add: pool_init_def)
  moreover have q: "pool_step demo_jobs 1 0 ?p ?q"
    by (rule pool_step.Start) (simp_all add: pool_init_def)
  ultimately have "pool_reach demo_jobs 1 0 ?i ?p"
    by (blast intro: pool_reach.intros)
  moreover have "pool_reach demo_jobs 1 0 ?p ?q"
    using q by (blast intro: pool_reach.intros)
  moreover have "pl_cancelled ?p \<and> pl_started ?p = [] \<and> pl_started ?q = [0]"
    by (simp add: pool_init_def)
  moreover have "pool_size 1 = 1" by (simp add: pool_size_def)
  ultimately show ?thesis by (metis (no_types, lifting))
qed

end
