(* ===== verification/ScanSpec.thy ===== *)
theory ScanSpec
  imports Fingerprint Worker
begin

text \<open>
  \<open>internal/discovery/discovery.go\<close>: expansion of scan specs into addresses, the TCP
  connect sweep on top of the worker pool, and the token-bucket rate limiter. The network
  (which ports accept a connection, when the context is seen cancelled) is a parameter.
  Errors keep the spec they complain about; the text of \<open>netip\<close>'s own error, which the
  code wraps, is left out.
\<close>

section \<open>Hosts and options\<close>

definition DefaultTCPPorts :: "int list" where
  "DefaultTCPPorts = [22, 80, 135, 139, 443, 445, 515, 631, 3389, 5985, 5986, 8006, 9100, 49000]"

record host =
  h_addr :: addr
  h_ports :: "int list"

fun has_port :: "int list \<Rightarrow> int \<Rightarrow> bool" where
  "has_port [] port = False"
| "has_port (p # ps) port = (if p = port then True else has_port ps port)"

definition HasPort :: "host \<Rightarrow> int \<Rightarrow> bool" where
  "HasPort h port = has_port (h_ports h) port"

lemma has_port_iff [simp]: "has_port ps p \<longleftrightarrow> p \<in> set ps"
  by (induction ps) auto

record disc_options =
  do_ports :: "int list"
  do_timeout :: int
  do_concurrency :: int
  do_rate :: int
  do_jitter :: int

definition second :: int where "second = 1000000000"

definition withDefaults :: "disc_options \<Rightarrow> disc_options" where
  "withDefaults o1 =
     (let o2 = (if do_ports o1 = [] then o1\<lparr>do_ports := DefaultTCPPorts\<rparr> else o1);
          o3 = (if do_timeout o2 \<le> 0 then o2\<lparr>do_timeout := 2 * second\<rparr> else o2)
      in if do_concurrency o3 \<le> 0 then o3\<lparr>do_concurrency := 256\<rparr> else o3)"

section \<open>Expanding scan specs\<close>

definition spec_error :: "string \<Rightarrow> string \<Rightarrow> go_error" where
  "spec_error what spec = ErrText (what @ '' '' @ spec)"

text \<open>\<open>for a := prefix.Addr(); prefix.Contains(a); a = a.Next() { add(a) }\<close>\<close>

function cidr_loop :: "cidr \<Rightarrow> addr \<Rightarrow> addr list \<Rightarrow> addr list" where
  "cidr_loop p a out =
     (if cidr_contains p a then cidr_loop p (next_addr a) (add_unseen a out) else out)"
  by pat_completeness auto
termination
  by (relation "measure (\<lambda>(p, a, out). addr_room a)")
     (auto intro: addr_room_next cidr_contains_valid)

declare cidr_loop.simps [simp del]

text \<open>
  \<open>for a := lo; ; a = a.Next() { add(a); if a == hi { break } }\<close> has no bound of its own:
  \<open>None\<close> is a loop that never meets \<open>hi\<close>.
\<close>

partial_function (option) range_loop :: "addr \<Rightarrow> addr \<Rightarrow> addr list \<Rightarrow> addr list option" where
  "range_loop a hi out =
     (if a = hi then Some (add_unseen a out)
      else range_loop (next_addr a) hi (add_unseen a out))"

definition parse_range :: "string \<Rightarrow> go_error + (addr \<times> addr)" where
  "parse_range spec =
     (let (a, b, _) = cut (CHR ''-'') spec
      in case parse_addr (trim_space a) of
           None \<Rightarrow> Inl (spec_error ''invalid range start in'' spec)
         | Some lo \<Rightarrow>
             (case parse_addr (trim_space b) of
                None \<Rightarrow> Inl (spec_error ''invalid range end in'' spec)
              | Some hi \<Rightarrow>
                  if is4 lo \<noteq> is4 hi \<or> addr_gt lo hi
                  then Inl (spec_error ''invalid range'' spec)
                  else Inr (lo, hi)))"

text \<open>The body of the loop of \<open>Expand\<close> for one spec; \<open>None\<close> where it does not return.\<close>

definition expand_spec :: "string \<Rightarrow> addr list \<Rightarrow> (go_error + addr list) option" where
  "expand_spec spec0 out =
     (let spec = trim_space spec0
      in if spec = [] then Some (Inr out)
         else if contains spec ''/'' then
           (case parse_prefix spec of
              None \<Rightarrow> Some (Inl (spec_error ''invalid CIDR'' spec))
            | Some p \<Rightarrow> Some (Inr (cidr_loop (masked p) (cidr_addr (masked p)) out)))
         else if contains spec ''-'' then
           (case parse_range spec of
              Inl e \<Rightarrow> Some (Inl e)
            | Inr (lo, hi) \<Rightarrow> map_option Inr (range_loop lo hi out))
         else
           (case parse_addr spec of
              None \<Rightarrow> Some (Inl (spec_error ''invalid address'' spec))
            | Some a \<Rightarrow> Some (Inr (add_unseen a out))))"

fun expand_from :: "string list \<Rightarrow> addr list \<Rightarrow> (go_error + addr list) option" where
  "expand_from [] out = Some (Inr out)"
| "expand_from (spec # specs) out =
     (case expand_spec spec out of
        None \<Rightarrow> None
      | Some (Inl e) \<Rightarrow> Some (Inl e)
      | Some (Inr out') \<Rightarrow> expand_from specs out')"

definition Expand :: "string list \<Rightarrow> (go_error + addr list) option" where
  "Expand specs = expand_from specs []"

subsection \<open>Addresses as numbers\<close>

text \<open>
  The address of family 4 or 6 (without a zone, or with one) with a given numeric value;
  past the end of the family, what \<open>Next\<close> gives there.
\<close>

definition addr4_at :: "nat \<Rightarrow> addr" where
  "addr4_at v = (if v < 2 ^ 32 then A4 (word_of_nat v) else NoAddr 0)"

definition addr6_at :: "string \<Rightarrow> nat \<Rightarrow> addr" where
  "addr6_at z v = (if v < 2 ^ 128 then A6 (word_of_nat v) z else NoAddr 0)"

lemma word_of_nat_Suc_eq_0:
  "v < 2 ^ LENGTH('a) \<Longrightarrow> (word_of_nat v + 1 :: 'a::len word) = 0 \<longleftrightarrow> Suc v = 2 ^ LENGTH('a)"
proof -
  assume v: "v < 2 ^ LENGTH('a)"
  have "(word_of_nat v + 1 :: 'a word) = word_of_nat (Suc v)" by simp
  also have "\<dots> = 0 \<longleftrightarrow> 2 ^ LENGTH('a) dvd Suc v"
    by (simp only: word_of_nat_eq_0_iff)
  also have "\<dots> \<longleftrightarrow> Suc v = 2 ^ LENGTH('a)"
    using v by (auto dest: dvd_imp_le)
  finally show ?thesis .
qed

lemma word_of_nat_plus_1: "(word_of_nat v + 1 :: 'a::len word) = word_of_nat (Suc v)"
  by simp

lemma next_addr4_at:
  assumes "v < 2 ^ 32"
  shows "next_addr (addr4_at v) = addr4_at (Suc v)"
proof -
  have "(word_of_nat (Suc v) :: 32 word) = 0 \<longleftrightarrow> \<not> Suc v < 2 ^ 32"
    using word_of_nat_Suc_eq_0 [of v, where 'a = 32] assms
    by (simp only: word_of_nat_plus_1) auto
  with assms show ?thesis
    by (simp only: addr4_at_def if_True next_addr.simps word_of_nat_plus_1 if_not_P) auto
qed

lemma next_addr6_at:
  assumes "v < 2 ^ 128"
  shows "next_addr (addr6_at z v) = addr6_at z (Suc v)"
proof -
  have "(word_of_nat (Suc v) :: 128 word) = 0 \<longleftrightarrow> \<not> Suc v < 2 ^ 128"
    using word_of_nat_Suc_eq_0 [of v, where 'a = 128] assms
    by (simp only: word_of_nat_plus_1) auto
  with assms show ?thesis
    by (simp only: addr6_at_def if_True next_addr.simps word_of_nat_plus_1) auto
qed

lemma A4_at: "A4 w = addr4_at (unat w)"
  using unat_bound [of w] by (simp add: addr4_at_def)

lemma A6_at: "A6 u z = addr6_at z (unat u)"
  using unat_bound [of u] by (simp add: addr6_at_def)

lemma unat_word_of_nat: "v < 2 ^ LENGTH('a) \<Longrightarrow> unat (word_of_nat v :: 'a::len word) = v"
  by (simp add: unat_of_nat)

lemma drop_bit_xor_0:
  fixes w b :: "'a::len word"
  shows "drop_bit m (w XOR b) = 0 \<longleftrightarrow> unat w div 2 ^ m = unat b div 2 ^ m"
proof -
  have "drop_bit m (w XOR b) = 0 \<longleftrightarrow> drop_bit m w XOR drop_bit m b = 0"
    by (simp add: drop_bit_xor)
  also have "\<dots> \<longleftrightarrow> drop_bit m w = drop_bit m b"
    by (simp add: bit_eq_iff bit_simps)
  also have "\<dots> \<longleftrightarrow> unat (drop_bit m w) = unat (drop_bit m b)"
    by (simp add: word_eq_iff_unsigned)
  also have "\<dots> \<longleftrightarrow> unat w div 2 ^ m = unat b div 2 ^ m"
    by (simp only: unat_drop_bit_eq drop_bit_eq_div [where 'a = nat])
  finally show ?thesis .
qed

subsection \<open>What the two loops add\<close>

lemma cidr_loop_seq:
  assumes "\<And>k. k < n \<Longrightarrow> cidr_contains p (f k)"
    and "\<And>k. k < n \<Longrightarrow> next_addr (f k) = f (Suc k)"
    and "\<not> cidr_contains p (f n)"
  shows "cidr_loop p (f 0) out = fold add_unseen (map f [0..<n]) out"
  using assms
proof (induction n arbitrary: f out)
  case 0
  then show ?case by (simp add: cidr_loop.simps)
next
  case (Suc n)
  have tail: "cidr_loop p (f (Suc 0)) (add_unseen (f 0) out) =
      fold add_unseen (map (\<lambda>k. f (Suc k)) [0..<n]) (add_unseen (f 0) out)"
    using Suc.prems by (intro Suc.IH [of "\<lambda>k. f (Suc k)"]) auto
  have "map f [0..<Suc n] = f 0 # map (\<lambda>k. f (Suc k)) [0..<n]"
    by (simp add: upt_conv_Cons map_Suc_upt [symmetric] del: upt_Suc)
  with tail Suc.prems show ?case
    by (simp add: cidr_loop.simps [of p "f 0"] del: upt_Suc)
qed

lemma range_loop_seq:
  assumes "\<And>k. k < n \<Longrightarrow> f k \<noteq> f n"
    and "\<And>k. k < n \<Longrightarrow> next_addr (f k) = f (Suc k)"
  shows "range_loop (f 0) (f n) out = Some (fold add_unseen (map f [0..<Suc n]) out)"
  using assms
proof (induction n arbitrary: f out)
  case 0
  then show ?case by (simp add: range_loop.simps)
next
  case (Suc n)
  have tail: "range_loop (f (Suc 0)) (f (Suc n)) (add_unseen (f 0) out) =
      Some (fold add_unseen (map (\<lambda>k. f (Suc k)) [0..<Suc n]) (add_unseen (f 0) out))"
    using Suc.prems by (intro Suc.IH [of "\<lambda>k. f (Suc k)"]) auto
  have "map f [0..<Suc (Suc n)] = f 0 # map (\<lambda>k. f (Suc k)) [0..<Suc n]"
    by (simp add: upt_conv_Cons map_Suc_upt [symmetric] del: upt_Suc)
  with tail Suc.prems show ?case
    by (simp add: range_loop.simps [of "f 0"] del: upt_Suc)
qed

lemma map_shift: "map (\<lambda>k. g (b + k)) [0..<n] = map g [b..<b + n]"
  by (induction n) auto

text \<open>The addresses of a block, in order.\<close>

definition block4 :: "nat \<Rightarrow> nat \<Rightarrow> addr list" where
  "block4 lo n = map (\<lambda>v. A4 (word_of_nat v)) [lo..<lo + n]"

definition block6 :: "string \<Rightarrow> nat \<Rightarrow> nat \<Rightarrow> addr list" where
  "block6 z lo n = map (\<lambda>v. A6 (word_of_nat v) z) [lo..<lo + n]"

lemma block4_at: "lo + n \<le> 2 ^ 32 \<Longrightarrow> block4 lo n = map (\<lambda>k. addr4_at (lo + k)) [0..<n]"
  by (simp add: block4_def map_shift [symmetric] addr4_at_def)

lemma block6_at: "lo + n \<le> 2 ^ 128 \<Longrightarrow> block6 z lo n = map (\<lambda>k. addr6_at z (lo + k)) [0..<n]"
  by (simp add: block6_def map_shift [symmetric] addr6_at_def)

lemma cidr_contains_at4:
  "v < 2 ^ 32 \<Longrightarrow> cidr_contains \<lparr>cidr_addr = A4 b, cidr_bits = n\<rparr> (addr4_at v) \<longleftrightarrow>
     v div 2 ^ (32 - n) = unat b div 2 ^ (32 - n)"
  using unat_word_of_nat [of v, where 'a = 32] by (simp add: addr4_at_def drop_bit_xor_0 del: drop_bit_xor)

lemma cidr_contains_at6:
  "v < 2 ^ 128 \<Longrightarrow> cidr_contains \<lparr>cidr_addr = A6 b z, cidr_bits = n\<rparr> (addr6_at [] v) \<longleftrightarrow>
     v div 2 ^ (128 - n) = unat b div 2 ^ (128 - n)"
  using unat_word_of_nat [of v, where 'a = 128] by (simp add: addr6_at_def drop_bit_xor_0 del: drop_bit_xor)

lemma unat_keep_top:
  fixes w :: "'a::len word"
  shows "unat (keep_top k n w) = unat w div 2 ^ (k - n) * 2 ^ (k - n)"
proof -
  have "unat (push_bit m (drop_bit m w)) = unat w div 2 ^ m * 2 ^ m" for m
  proof -
    have "unat w div 2 ^ m * 2 ^ m \<le> unat w" by simp
    then have "unat w div 2 ^ m * 2 ^ m < 2 ^ LENGTH('a)" using unat_bound [of w] by linarith
    then show ?thesis
      by (simp only: unsigned_push_bit_eq unat_drop_bit_eq push_bit_eq_mult [where 'a = nat]
            drop_bit_eq_div [where 'a = nat] take_bit_nat_eq_self)
  qed
  then show ?thesis by (simp add: keep_top_def)
qed

text \<open>The part of the loop over a CIDR: exactly its block, in order.\<close>

definition cidr_block :: "cidr \<Rightarrow> addr list" where
  "cidr_block p =
     (case cidr_addr p of
        NoAddr v \<Rightarrow> []
      | A4 w \<Rightarrow> (let m = 2 ^ (32 - cidr_bits p) in block4 (unat w div m * m) m)
      | A6 u z \<Rightarrow> (let m = 2 ^ (128 - cidr_bits p) in block6 [] (unat u div m * m) m))"

lemma block_fits: "v < 2 ^ k \<Longrightarrow> v div 2 ^ (k - n) * 2 ^ (k - n) + 2 ^ (k - n) \<le> (2::nat) ^ k"
proof -
  assume v: "v < 2 ^ k"
  let ?m = "2 ^ (k - n) :: nat"
  have km: "(2::nat) ^ k = 2 ^ (k - (k - n)) * ?m" by (simp add: power_add [symmetric])
  then have "v div ?m < 2 ^ (k - (k - n))" using v by (simp add: less_mult_imp_div_less)
  then have "(v div ?m + 1) * ?m \<le> 2 ^ (k - (k - n)) * ?m" by (intro mult_le_mono1) simp
  with km show ?thesis by (simp add: algebra_simps)
qed

lemma div_block:
  fixes b m :: nat
  assumes "0 < m"
  shows "k < m \<Longrightarrow> (b * m + k) div m = b" and "(b * m + m) div m = Suc b"
  using assms by simp_all

lemma cidr_loop_block4:
  assumes A4: "cidr_addr p = A4 w"
  shows "cidr_loop (masked p) (cidr_addr (masked p)) out = fold add_unseen (cidr_block p) out"
proof -
  define m :: nat where "m = 2 ^ (32 - cidr_bits p)"
  define b where "b = unat w div m"
  have m: "0 < m" by (simp add: m_def)
  have fits: "b * m + m \<le> 2 ^ 32"
    using block_fits [of "unat w" 32 "cidr_bits p"] unat_bound [of w] by (simp add: b_def m_def)
  let ?f = "\<lambda>k. addr4_at (b * m + k)"
  have un: "unat (keep_top 32 (cidr_bits p) w) = b * m"
    by (simp add: unat_keep_top b_def m_def)
  have mp: "masked p = \<lparr>cidr_addr = A4 (keep_top 32 (cidr_bits p) w), cidr_bits = cidr_bits p\<rparr>"
    using A4 by (simp add: masked_def)
  have at: "cidr_addr (masked p) = ?f 0" using A4_at un by (simp add: mp)
  have in_iff: "cidr_contains (masked p) (?f k) \<longleftrightarrow> (b * m + k) div m = b"
    if "b * m + k < 2 ^ 32" for k
    using that m un by (simp add: mp cidr_contains_at4 m_def [symmetric])
  have "cidr_loop (masked p) (?f 0) out = fold add_unseen (map ?f [0..<m]) out"
  proof (rule cidr_loop_seq)
    fix k assume "k < m"
    then show "cidr_contains (masked p) (?f k)" and "next_addr (?f k) = ?f (Suc k)"
      using in_iff [of k] fits div_block(1) [OF m, of k b] next_addr4_at [of "b * m + k"] by simp_all
  next
    show "\<not> cidr_contains (masked p) (?f m)"
      using in_iff [of m] div_block(2) [OF m, of b] 
      by (cases "b * m + m < 2 ^ 32") (auto simp: addr4_at_def)
  qed
  also have "map ?f [0..<m] = cidr_block p"
    using fits by (simp add: cidr_block_def A4 block4_at b_def m_def [symmetric] Let_def)
  finally show ?thesis by (simp only: at)
qed

lemma cidr_loop_block6:
  assumes A6: "cidr_addr p = A6 w z"
  shows "cidr_loop (masked p) (cidr_addr (masked p)) out = fold add_unseen (cidr_block p) out"
proof -
  define m :: nat where "m = 2 ^ (128 - cidr_bits p)"
  define b where "b = unat w div m"
  have m: "0 < m" by (simp add: m_def)
  have fits: "b * m + m \<le> 2 ^ 128"
    using block_fits [of "unat w" 128 "cidr_bits p"] unat_bound [of w] by (simp add: b_def m_def)
  let ?f = "\<lambda>k. addr6_at [] (b * m + k)"
  have un: "unat (keep_top 128 (cidr_bits p) w) = b * m"
    by (simp add: unat_keep_top b_def m_def)
  have mp: "masked p = \<lparr>cidr_addr = A6 (keep_top 128 (cidr_bits p) w) [], cidr_bits = cidr_bits p\<rparr>"
    using A6 by (simp add: masked_def)
  have at: "cidr_addr (masked p) = ?f 0" using A6_at un by (simp add: mp)
  have in_iff: "cidr_contains (masked p) (?f k) \<longleftrightarrow> (b * m + k) div m = b"
    if "b * m + k < 2 ^ 128" for k
    using that m un by (simp add: mp cidr_contains_at6 m_def [symmetric])
  have "cidr_loop (masked p) (?f 0) out = fold add_unseen (map ?f [0..<m]) out"
  proof (rule cidr_loop_seq)
    fix k assume "k < m"
    then show "cidr_contains (masked p) (?f k)" and "next_addr (?f k) = ?f (Suc k)"
      using in_iff [of k] fits div_block(1) [OF m, of k b] next_addr6_at [of "b * m + k"] by simp_all
  next
    show "\<not> cidr_contains (masked p) (?f m)"
      using in_iff [of m] div_block(2) [OF m, of b] 
      by (cases "b * m + m < 2 ^ 128") (auto simp: addr6_at_def)
  qed
  also have "map ?f [0..<m] = cidr_block p"
    using fits by (simp add: cidr_block_def A6 block6_at b_def m_def [symmetric] Let_def)
  finally show ?thesis by (simp only: at)
qed

lemma cidr_loop_block:
  "is_valid (cidr_addr p) \<Longrightarrow>
     cidr_loop (masked p) (cidr_addr (masked p)) out = fold add_unseen (cidr_block p) out"
  by (cases "cidr_addr p") (simp_all add: cidr_loop_block4 cidr_loop_block6)

lemma div_eq_block:
  fixes v b m :: nat
  assumes "0 < m"
  shows "v div m = b \<longleftrightarrow> b * m \<le> v \<and> v < b * m + m"
  using assms by (metis add.commute div_nat_eqI dividend_less_times_div mult.commute
      mult_Suc_right times_div_less_eq_dividend)

lemma mem_block4: "A4 w \<in> set (block4 lo n) \<longleftrightarrow> lo \<le> unat w \<and> unat w < lo + n"
  if "lo + n \<le> 2 ^ 32"
proof
  assume "A4 w \<in> set (block4 lo n)"
  then obtain v where v: "lo \<le> v" "v < lo + n" "w = word_of_nat v" by (auto simp: block4_def)
  with that have "unat w = v" using unat_word_of_nat [of v, where 'a = 32] by simp
  with v show "lo \<le> unat w \<and> unat w < lo + n" by simp
next
  assume "lo \<le> unat w \<and> unat w < lo + n"
  then have "unat w \<in> set [lo..<lo + n]" by simp
  then show "A4 w \<in> set (block4 lo n)"
    unfolding block4_def by (auto intro!: image_eqI [of _ _ "unat w"])
qed

lemma mem_block6: "A6 w z' \<in> set (block6 z lo n) \<longleftrightarrow> z' = z \<and> lo \<le> unat w \<and> unat w < lo + n"
  if "lo + n \<le> 2 ^ 128"
proof
  assume "A6 w z' \<in> set (block6 z lo n)"
  then obtain v where v: "lo \<le> v" "v < lo + n" "w = word_of_nat v" "z' = z"
    by (auto simp: block6_def)
  with that have "unat w = v" using unat_word_of_nat [of v, where 'a = 128] by simp
  with v show "z' = z \<and> lo \<le> unat w \<and> unat w < lo + n" by simp
next
  assume a: "z' = z \<and> lo \<le> unat w \<and> unat w < lo + n"
  then have "unat w \<in> set [lo..<lo + n]" by simp
  with a show "A6 w z' \<in> set (block6 z lo n)"
    unfolding block6_def by (auto intro!: image_eqI [of _ _ "unat w"])
qed

lemma block_families: "NoAddr v \<notin> set (block4 lo n)" "NoAddr v \<notin> set (block6 z lo n)"
  "A6 u z' \<notin> set (block4 lo n)" "A4 w \<notin> set (block6 z lo n)"
  by (auto simp: block4_def block6_def)

lemma cidr_contains_4:
  "cidr_addr p = A4 b \<Longrightarrow> cidr_contains p (A4 w) \<longleftrightarrow>
     unat w div 2 ^ (32 - cidr_bits p) = unat b div 2 ^ (32 - cidr_bits p)"
  by (simp add: drop_bit_xor_0 del: drop_bit_xor)

lemma cidr_contains_6:
  "cidr_addr p = A6 b z \<Longrightarrow> cidr_contains p (A6 w z') \<longleftrightarrow>
     z' = [] \<and> unat w div 2 ^ (128 - cidr_bits p) = unat b div 2 ^ (128 - cidr_bits p)"
  by (simp add: drop_bit_xor_0 del: drop_bit_xor)

lemma set_cidr_block: "is_valid (cidr_addr p) \<Longrightarrow> set (cidr_block p) = {a. cidr_contains p a}"
proof -
  assume v: "is_valid (cidr_addr p)"
  have "a \<in> set (cidr_block p) \<longleftrightarrow> cidr_contains p a" for a
  proof (cases "cidr_addr p")
    case (NoAddr x)
    with v show ?thesis by simp
  next
    case (A4 b)
    with block_fits [of "unat b" 32 "cidr_bits p"] unat_bound [of b] show ?thesis
      by (cases a) (simp_all add: cidr_block_def Let_def block_families mem_block4
          cidr_contains_4 div_eq_block del: cidr_contains.simps(2))
  next
    case (A6 b z)
    with block_fits [of "unat b" 128 "cidr_bits p"] unat_bound [of b] show ?thesis
      by (cases a) (simp_all add: cidr_block_def Let_def block_families mem_block6
          cidr_contains_6 div_eq_block del: cidr_contains.simps(3))
  qed
  then show ?thesis by blast
qed

text \<open>Ranges: same family and zone, and between the ends.\<close>

fun between :: "addr \<Rightarrow> addr \<Rightarrow> addr \<Rightarrow> bool" where
  "between (A4 lo) (A4 hi) (A4 w) = (lo \<le> w \<and> w \<le> hi)"
| "between (A6 lo z) (A6 hi z') (A6 w z'') = (z'' = z \<and> z' = z \<and> lo \<le> w \<and> w \<le> hi)"
| "between _ _ _ = False"

definition same_family :: "addr \<Rightarrow> addr \<Rightarrow> bool" where
  "same_family a b \<longleftrightarrow> is_valid a \<and> is_valid b \<and> is4 a = is4 b \<and> zone a = zone b"

text \<open>
  An address whose successors never reach \<open>hi\<close>: of another family or zone. The
  successor keeps it so, the zero address past the end included.
\<close>

definition astray :: "addr \<Rightarrow> addr \<Rightarrow> bool" where
  "astray a hi \<longleftrightarrow> is_valid hi \<and> (is_valid a \<longrightarrow> is4 a \<noteq> is4 hi \<or> zone a \<noteq> zone hi)"

lemma astray_next: "astray a hi \<Longrightarrow> astray (next_addr a) hi"
  by (cases a) (auto simp: astray_def)

lemma astray_neq: "astray a hi \<Longrightarrow> a \<noteq> hi"
  by (auto simp: astray_def)

lemma range_loop_astray: "astray a hi \<Longrightarrow> range_loop a hi out = None"
proof -
  have "\<not> astray a hi" if "range_loop a hi out = Some r" for r
  proof (rule range_loop.raw_induct [where P = "\<lambda>a hi out r. \<not> astray a hi", OF _ that])
    fix f a hi out r
    assume IH: "\<And>a hi out r. f a hi out = Some r \<Longrightarrow> \<not> astray a hi"
      and eq: "(if a = hi then Some (add_unseen a out)
                else f (next_addr a) hi (add_unseen a out)) = Some r"
    show "\<not> astray a hi"
    proof (cases "a = hi")
      case True
      then show ?thesis using astray_neq by blast
    next
      case False
      with eq have "f (next_addr a) hi (add_unseen a out) = Some r" by simp
      then show ?thesis using IH astray_next by blast
    qed
  qed
  then show "astray a hi \<Longrightarrow> range_loop a hi out = None" by (cases "range_loop a hi out") auto
qed

definition range_block :: "addr \<Rightarrow> addr \<Rightarrow> addr list" where
  "range_block lo hi =
     (case (lo, hi) of
        (A4 u, A4 v) \<Rightarrow> block4 (unat u) (Suc (unat v) - unat u)
      | (A6 u z, A6 v z') \<Rightarrow> block6 z (unat u) (Suc (unat v) - unat u)
      | _ \<Rightarrow> [])"

lemma word_of_nat_inj:
  assumes "u < 2 ^ LENGTH('a)" and "v < 2 ^ LENGTH('a)"
    and "(word_of_nat u :: 'a::len word) = word_of_nat v"
  shows "u = v"
  by (metis assms unat_word_of_nat)

lemma addr4_at_inj:
  assumes "u < 2 ^ 32" and "v < 2 ^ 32" and "addr4_at u = addr4_at v"
  shows "u = v"
  using assms by (intro word_of_nat_inj [where 'a = 32]) (simp_all add: addr4_at_def)

lemma addr6_at_inj:
  assumes "u < 2 ^ 128" and "v < 2 ^ 128" and "addr6_at z u = addr6_at z v"
  shows "u = v"
  using assms by (intro word_of_nat_inj [where 'a = 128]) (simp_all add: addr6_at_def)

lemma range_loop_block4:
  assumes A4: "lo = A4 u" and hi: "hi = A4 v" and le: "unat u \<le> unat v"
  shows "range_loop lo hi out = Some (fold add_unseen (range_block lo hi) out)"
proof -
  have v: "unat v < 2 ^ 32" using unat_bound [of v] by simp
  let ?f = "\<lambda>k. addr4_at (unat u + k)" and ?n = "unat v - unat u"
  have "range_loop (?f 0) (?f ?n) out = Some (fold add_unseen (map ?f [0..<Suc ?n]) out)"
  proof (rule range_loop_seq)
    fix k assume "k < ?n"
    then have lt: "unat u + k < unat v" by simp
    show "?f k \<noteq> ?f ?n"
    proof
      assume "?f k = ?f ?n"
      then have "addr4_at (unat u + k) = addr4_at (unat v)" using le by simp
      with addr4_at_inj lt v have "unat u + k = unat v" by (meson less_trans)
      with lt show False by simp
    qed
    show "next_addr (?f k) = ?f (Suc k)"
      using next_addr4_at less_trans [OF lt v] by simp
  qed
  moreover have "map ?f [0..<Suc ?n] = range_block lo hi"
    using v le by (simp add: range_block_def A4 hi block4_at Suc_diff_le del: upt_Suc)
  moreover have "?f 0 = lo" and "?f ?n = hi"
    using le A4_at [of u] A4_at [of v] by (simp_all add: A4 hi)
  ultimately show ?thesis by (simp only:)
qed

lemma range_loop_block6:
  assumes A6: "lo = A6 u z" and hi: "hi = A6 v z" and le: "unat u \<le> unat v"
  shows "range_loop lo hi out = Some (fold add_unseen (range_block lo hi) out)"
proof -
  have v: "unat v < 2 ^ 128" using unat_bound [of v] by simp
  let ?f = "\<lambda>k. addr6_at z (unat u + k)" and ?n = "unat v - unat u"
  have "range_loop (?f 0) (?f ?n) out = Some (fold add_unseen (map ?f [0..<Suc ?n]) out)"
  proof (rule range_loop_seq)
    fix k assume "k < ?n"
    then have lt: "unat u + k < unat v" by simp
    show "?f k \<noteq> ?f ?n"
    proof
      assume "?f k = ?f ?n"
      then have "addr6_at z (unat u + k) = addr6_at z (unat v)" using le by simp
      with addr6_at_inj lt v have "unat u + k = unat v" by (meson less_trans)
      with lt show False by simp
    qed
    show "next_addr (?f k) = ?f (Suc k)"
      using next_addr6_at less_trans [OF lt v] by simp
  qed
  moreover have "map ?f [0..<Suc ?n] = range_block lo hi"
    using v le by (simp add: range_block_def A6 hi block6_at Suc_diff_le del: upt_Suc)
  moreover have "?f 0 = lo" and "?f ?n = hi"
    using le A6_at [of u z] A6_at [of v z] by (simp_all add: A6 hi)
  ultimately show ?thesis by (simp only:)
qed

text \<open>The two families a well-formed range can be of.\<close>

lemma range_cases:
  assumes "same_family lo hi" and "\<not> addr_gt lo hi"
  obtains u v where "lo = A4 u" "hi = A4 v" "unat u \<le> unat v"
        | u v z where "lo = A6 u z" "hi = A6 v z" "unat u \<le> unat v"
  using assms by (cases lo; cases hi) (auto simp: same_family_def word_le_nat_alt not_less)

lemma range_loop_block:
  assumes "same_family lo hi" and "\<not> addr_gt lo hi"
  shows "range_loop lo hi out = Some (fold add_unseen (range_block lo hi) out)"
  using range_cases [OF assms] range_loop_block4 range_loop_block6 by metis

lemma set_range_block:
  assumes "same_family lo hi" and "\<not> addr_gt lo hi"
  shows "set (range_block lo hi) = {a. between lo hi a}"
proof -
  have "a \<in> set (range_block lo hi) \<longleftrightarrow> between lo hi a" for a
    using assms
  proof (cases rule: range_cases)
    case (1 u v)
    then show ?thesis using unat_bound [of v]
      by (cases a) (auto simp: range_block_def block_families mem_block4 word_le_nat_alt)
  next
    case (2 u v z)
    then show ?thesis using unat_bound [of v]
      by (cases a) (auto simp: range_block_def block_families mem_block6 word_le_nat_alt)
  qed
  then show ?thesis by blast
qed

subsection \<open>Expand against its specification\<close>

text \<open>
  What one spec stands for, without the loops: an error, a list of addresses, or
  (\<open>None\<close>) a range whose ends are of the same family but carry different zones, which the
  code accepts and whose loop never ends.
\<close>

definition spec_block :: "string \<Rightarrow> (go_error + addr list) option" where
  "spec_block spec0 =
     (let spec = trim_space spec0
      in if spec = [] then Some (Inr [])
         else if contains spec ''/'' then
           (case parse_prefix spec of
              None \<Rightarrow> Some (Inl (spec_error ''invalid CIDR'' spec))
            | Some p \<Rightarrow> Some (Inr (cidr_block p)))
         else if contains spec ''-'' then
           (case parse_range spec of
              Inl e \<Rightarrow> Some (Inl e)
            | Inr (lo, hi) \<Rightarrow>
                if zone lo = zone hi then Some (Inr (range_block lo hi)) else None)
         else
           (case parse_addr spec of
              None \<Rightarrow> Some (Inl (spec_error ''invalid address'' spec))
            | Some a \<Rightarrow> Some (Inr [a])))"

fun denote :: "string list \<Rightarrow> (go_error + addr list) option" where
  "denote [] = Some (Inr [])"
| "denote (spec # specs) =
     (case spec_block spec of
        None \<Rightarrow> None
      | Some (Inl e) \<Rightarrow> Some (Inl e)
      | Some (Inr b) \<Rightarrow> map_option (map_sum (\<lambda>e. e) (\<lambda>bs. b @ bs)) (denote specs))"

lemma parse_addr_valid: "parse_addr s = Some a \<Longrightarrow> is_valid a"
  by (auto simp: parse_addr_def parse_ipv4_def parse_ipv6_def Let_def split_beta
           split: if_splits option.splits)

lemma parse_prefix_valid: "parse_prefix s = Some p \<Longrightarrow> is_valid (cidr_addr p)"
proof -
  assume "parse_prefix s = Some p"
  then obtain ip where "parse_addr ip = Some (cidr_addr p)"
    by (auto simp: parse_prefix_def Let_def split: if_splits option.splits)
  then show ?thesis by (rule parse_addr_valid)
qed

lemma parse_range_valid:
  assumes "parse_range s = Inr (lo, hi)"
  shows "is_valid lo" and "is_valid hi" and "is4 lo = is4 hi" and "\<not> addr_gt lo hi"
  using assms
  by (auto simp: parse_range_def Let_def split_beta dest: parse_addr_valid
           split: if_splits option.splits)

lemma expand_spec_block:
  "expand_spec spec out =
     map_option (map_sum (\<lambda>e. e) (\<lambda>b. fold add_unseen b out)) (spec_block spec)"
proof -
  have range: "range_loop lo hi out =
      (if zone lo = zone hi then Some (fold add_unseen (range_block lo hi) out) else None)"
    if "parse_range s = Inr (lo, hi)" for s lo hi
    using parse_range_valid [OF that]
    by (auto intro: range_loop_block range_loop_astray simp: same_family_def astray_def)
  show ?thesis
    by (auto simp: expand_spec_def spec_block_def Let_def cidr_loop_block parse_prefix_valid range
             split: option.splits sum.splits)
qed

lemma expand_from_denote:
  "expand_from specs out =
     map_option (map_sum (\<lambda>e. e) (\<lambda>b. fold add_unseen b out)) (denote specs)"
proof (induction specs arbitrary: out)
  case Nil
  then show ?case by simp
next
  case (Cons spec specs)
  have "map_option (map_sum (\<lambda>e. e) (\<lambda>b. fold add_unseen b (fold add_unseen bs out))) r =
     map_option (map_sum (\<lambda>e. e) (\<lambda>b. fold add_unseen b out)) (map_option (map_sum (\<lambda>e. e) ((@) bs)) r)"
    for bs and r :: "(go_error + addr list) option"
    by (cases r; cases "the r") auto
  with Cons show ?case
    by (auto simp: expand_spec_block split: option.splits sum.splits)
qed

text \<open>Which addresses a spec asks for.\<close>

definition in_spec :: "string \<Rightarrow> addr \<Rightarrow> bool" where
  "in_spec spec0 a =
     (let spec = trim_space spec0
      in spec \<noteq> [] \<and>
         (if contains spec ''/'' then
            (case parse_prefix spec of None \<Rightarrow> False | Some p \<Rightarrow> cidr_contains p a)
          else if contains spec ''-'' then
            (case parse_range spec of Inl e \<Rightarrow> False | Inr (lo, hi) \<Rightarrow> between lo hi a)
          else parse_addr spec = Some a))"

lemma spec_block_set: "spec_block spec = Some (Inr b) \<Longrightarrow> set b = {a. in_spec spec a}"
proof -
  assume b: "spec_block spec = Some (Inr b)"
  have range: "set (range_block lo hi) = {a. between lo hi a}"
    if "parse_range s = Inr (lo, hi)" and "zone lo = zone hi" for s lo hi
    using parse_range_valid [OF that(1)] that(2) by (simp add: set_range_block same_family_def)
  show ?thesis
    using b by (auto simp: spec_block_def in_spec_def Let_def set_cidr_block parse_prefix_valid range
                     split: if_splits option.splits sum.splits)
qed

lemma denote_set:
  "denote specs = Some (Inr b) \<Longrightarrow> set b = {a. \<exists>spec \<in> set specs. in_spec spec a}"
proof (induction specs arbitrary: b)
  case Nil
  then show ?case by simp
next
  case (Cons spec specs)
  then obtain b1 r where b1: "spec_block spec = Some (Inr b1)" and r: "denote specs = Some r"
    and b: "map_sum (\<lambda>e. e) ((@) b1) r = Inr b" by (auto split: option.splits sum.splits)
  from b obtain b2 where "r = Inr b2" and "b = b1 @ b2" by (cases r) auto
  with Cons.IH [of b2] spec_block_set [OF b1] r show ?case by auto
qed

lemma map_sum_InrD: "map_sum f g r = Inr y \<Longrightarrow> \<exists>x. r = Inr x \<and> y = g x"
  by (cases r) auto

section \<open>Properties\<close>

text \<open>
  (C5) The two address loops of \<open>Expand\<close> are exactly a deduplicated concatenation: for
  every list of specs the code returns the addresses the specs denote, each at its first
  occurrence, or the error of the first bad spec; and it fails to return exactly where the
  specification is undefined (a range between two different zones).
\<close>

theorem Expand_refines:
  "Expand specs = map_option (map_sum (\<lambda>e. e) (\<lambda>b. fold add_unseen b [])) (denote specs)"
  by (simp add: Expand_def expand_from_denote)

text \<open>
  (C13) A successful expansion is exact: it lists an address once, and it lists precisely
  the addresses that lie in one of the specs (equal to it, inside its CIDR, or between its
  range's ends).
\<close>

theorem Expand_exact:
  assumes "Expand specs = Some (Inr out)"
  shows "distinct out \<and> set out = {a. \<exists>spec \<in> set specs. in_spec spec a}"
proof -
  from assms obtain b where b: "denote specs = Some (Inr b)" and "out = fold add_unseen b []"
    by (auto simp: Expand_def expand_from_denote dest: map_sum_InrD)
  then show ?thesis using denote_set [OF b] by simp
qed

lemmas spec_eval = addr_eval spec_block_def parse_range_def cidr_block_def range_block_def
  block4_def block6_def

definition demo_specs :: "string list" where
  "demo_specs = ['' 10.0.0.1-10.0.0.3 '', ''10.0.0.2/30'', [], ''::1'']"

lemma demo_specs_expand:
  "Expand demo_specs = Some (Inr [A4 0x0A000001, A4 0x0A000002, A4 0x0A000003, A4 0x0A000000, A6 1 []])"
proof -
  have "spec_block '' 10.0.0.1-10.0.0.3 '' =
      Some (Inr [A4 0x0A000001, A4 0x0A000002, A4 0x0A000003])"
    by (simp add: spec_eval)
  moreover have "spec_block ''10.0.0.2/30'' =
      Some (Inr [A4 0x0A000000, A4 0x0A000001, A4 0x0A000002, A4 0x0A000003])"
    by (simp add: spec_eval)
  moreover have "spec_block [] = Some (Inr [])" and "spec_block ''::1'' = Some (Inr [A6 1 []])"
    by (simp_all add: spec_eval)
  ultimately have "denote demo_specs = Some (Inr ([A4 0x0A000001, A4 0x0A000002, A4 0x0A000003] @
     [A4 0x0A000000, A4 0x0A000001, A4 0x0A000002, A4 0x0A000003] @ [] @ [A6 1 []]))"
    by (simp add: demo_specs_def)
  then show ?thesis by (simp add: Expand_def expand_from_denote add_unseen_def)
qed

lemma Expand_exact_witness:
  "distinct [A4 0x0A000001, A4 0x0A000002, A4 0x0A000003, A4 0x0A000000, A6 1 []] \<and>
   set [A4 0x0A000001, A4 0x0A000002, A4 0x0A000003, A4 0x0A000000, A6 1 []] =
     {a. \<exists>spec \<in> set demo_specs. in_spec spec a}"
  by (rule Expand_exact [OF demo_specs_expand])

text \<open>
  The ranges the code never finishes: those whose ends carry different zones. Everything
  else, valid or not, returns.
\<close>

definition crosses_zones :: "string \<Rightarrow> bool" where
  "crosses_zones spec0 =
     (let spec = trim_space spec0
      in \<not> contains spec ''/'' \<and> contains spec ''-'' \<and>
         (case parse_range spec of Inl e \<Rightarrow> False | Inr (lo, hi) \<Rightarrow> zone lo \<noteq> zone hi))"

lemma spec_block_None: "spec_block spec = None \<longleftrightarrow> crosses_zones spec"
  by (auto simp: spec_block_def crosses_zones_def Let_def contains_iff
           split: option.splits sum.splits)

text \<open>
  \<open>Expand\<close> returns on every input without a zone-crossing range, for all CIDRs and
  ranges up to the end of their address family.
\<close>

theorem Expand_terminates:
  assumes "\<forall>spec \<in> set specs. \<not> crosses_zones spec"
  shows "\<exists>r. Expand specs = Some r"
proof -
  have "denote specs \<noteq> None"
    using assms by (induction specs) (auto simp: spec_block_None split: option.splits sum.splits)
  then show ?thesis by (auto simp: Expand_def expand_from_denote)
qed

lemma Expand_terminates_witness:
  "\<exists>r. Expand [''255.255.255.250-255.255.255.255'', ''0.0.0.0/0'', ''bogus''] = Some r"
  by (rule Expand_terminates) (simp add: spec_eval crosses_zones_def)

text \<open>
  A range whose first spec crosses zones is accepted by \<open>parseRange\<close> (the families
  agree and the order is right) and then loops for ever: the successor of an address keeps
  its zone, so the loop never meets the end.
\<close>

theorem Expand_zone_range_diverges:
  assumes "crosses_zones spec"
  shows "Expand (spec # specs) = None"
  using assms by (simp add: Expand_def expand_from_denote spec_block_None [symmetric])

lemma Expand_zone_range_diverges_witness: "Expand [''fe80::1%a-fe80::2''] = None"
  by (rule Expand_zone_range_diverges) (simp add: spec_eval crosses_zones_def)

text \<open>IPv6 ranges are expanded like IPv4 ones.\<close>

theorem Expand_ipv6_range:
  "Expand [''fe80::1-fe80::3''] =
     Some (Inr (map (\<lambda>w. A6 w []) [0xFE800000000000000000000000000001,
       0xFE800000000000000000000000000002, 0xFE800000000000000000000000000003]))"
proof -
  have "denote [''fe80::1-fe80::3''] =
     Some (Inr (map (\<lambda>w. A6 w []) [0xFE800000000000000000000000000001,
       0xFE800000000000000000000000000002, 0xFE800000000000000000000000000003]))"
    by (simp add: spec_eval)
  then show ?thesis by (simp add: Expand_def expand_from_denote add_unseen_def)
qed

end
