(* ===== verification/Discovery.thy ===== *)
theory Discovery
  imports ScanSpec
begin

text \<open>
  \<open>internal/discovery/discovery.go\<close>, second half: the TCP connect sweep on top of the
  worker pool, and the token-bucket rate limiter. The network is a parameter: \<open>dial a p\<close>
  says whether a connection to the port is accepted, \<open>done i k\<close> whether the \<open>i\<close>-th job
  finds the context cancelled before its \<open>k\<close>-th port.
\<close>

section \<open>Probing\<close>

fun probe_ports :: "(int \<Rightarrow> bool) \<Rightarrow> (nat \<Rightarrow> bool) \<Rightarrow> nat \<Rightarrow> int list \<Rightarrow> int list \<Rightarrow> int list" where
  "probe_ports dial done k [] open_ports = open_ports"
| "probe_ports dial done k (port # ports) open_ports =
     (if done k then open_ports
      else probe_ports dial done (Suc k) ports
             (if dial port then open_ports @ [port] else open_ports))"

definition probe :: "(addr \<Rightarrow> int \<Rightarrow> bool) \<Rightarrow> (nat \<Rightarrow> bool) \<Rightarrow> addr \<Rightarrow> disc_options \<Rightarrow> host" where
  "probe dial done a opts =
     \<lparr>h_addr = a, h_ports = probe_ports (dial a) done 0 (do_ports opts) []\<rparr>"

definition zero_host :: host where
  "zero_host = \<lparr>h_addr = NoAddr 0, h_ports = []\<rparr>"

text \<open>
  \<open>Discover\<close>: \<open>lim.wait\<close> and the jitter only delay a job, so what a job computes is its
  probe. \<open>order\<close> is the order in which the pool's jobs finish.
\<close>

definition discover_jobs ::
  "(addr \<Rightarrow> int \<Rightarrow> bool) \<Rightarrow> (nat \<Rightarrow> nat \<Rightarrow> bool) \<Rightarrow> addr list \<Rightarrow> disc_options \<Rightarrow> (host, unit) job list" where
  "discover_jobs dial done addrs opts =
     map (\<lambda>(i, a) _ s. ((probe dial (done i) a opts, None), s)) (enumerate 0 addrs)"

fun live_hosts :: "host job_result list \<Rightarrow> host list \<Rightarrow> host list" where
  "live_hosts [] live = live"
| "live_hosts ((h, _) # rs) live =
     live_hosts rs (if 0 < length (h_ports h) then live @ [h] else live)"

definition Discover ::
  "(addr \<Rightarrow> int \<Rightarrow> bool) \<Rightarrow> (nat \<Rightarrow> nat \<Rightarrow> bool) \<Rightarrow> (nat \<times> bool) list \<Rightarrow> addr list \<Rightarrow> disc_options \<Rightarrow> host list" where
  "Discover dial done order addrs opts0 =
     (let opts = withDefaults opts0;
          results = fst (pool_outcome (discover_jobs dial done addrs opts) zero_host order ())
      in live_hosts results [])"

lemma probe_ports_live:
  "\<forall>k. \<not> done k \<Longrightarrow> probe_ports dial done k ports out = out @ filter dial ports"
  by (induction ports arbitrary: k out) auto

lemma probe_ports_sound:
  "\<exists>qs. probe_ports dial done k ports out = out @ filter dial qs \<and> (\<exists>rest. ports = qs @ rest)"
proof (induction ports arbitrary: k out)
  case Nil
  then show ?case by simp
next
  case (Cons port ports)
  show ?case
  proof (cases "done k")
    case True
    then show ?thesis by (intro exI [of _ "[]"]) simp
  next
    case False
    from Cons.IH [of "Suc k" "if dial port then out @ [port] else out"] obtain qs rest
      where "probe_ports dial done (Suc k) ports (if dial port then out @ [port] else out) =
          (if dial port then out @ [port] else out) @ filter dial qs" and "ports = qs @ rest"
      by blast
    with False show ?thesis by (intro exI [of _ "port # qs"]) auto
  qed
qed

lemma live_hosts_filter:
  "live_hosts rs live = live @ filter (\<lambda>h. h_ports h \<noteq> []) (map fst rs)"
  by (induction rs live rule: live_hosts.induct) auto

lemma withDefaults_positive:
  "do_ports (withDefaults o1) \<noteq> [] \<and> 0 < do_timeout (withDefaults o1) \<and>
   0 < do_concurrency (withDefaults o1)"
  by (simp add: withDefaults_def Let_def DefaultTCPPorts_def second_def)

section \<open>Jobs without shared state\<close>

lemma valid_order_code:
  "valid_order n order \<longleftrightarrow> length order \<le> n \<and> distinct (map fst order) \<and>
     list_all (\<lambda>i. i < length order) (map fst order)"
proof -
  have "set (map fst order) = {0..<length order}"
    if d: "distinct (map fst order)" and l: "list_all (\<lambda>i. i < length order) (map fst order)"
  proof (rule card_subset_eq)
    show "set (map fst order) \<subseteq> {0..<length order}" using l by (auto simp: list_all_iff)
    show "card (set (map fst order)) = card {0..<length order}"
      using distinct_card [OF d] by simp
  qed simp
  moreover have "list_all (\<lambda>i. i < length order) (map fst order)"
    if "set (map fst order) = {0..<length order}"
    unfolding list_all_iff that by simp
  ultimately show ?thesis unfolding valid_order_def by blast
qed

lemma run_order_pure:
  assumes "\<forall>(i, b) \<in> set order. \<forall>s. (jobs ! i) b s = (r i b, s)"
  shows "run_order jobs order s = (map (\<lambda>(i, b). (i, r i b)) order, s)"
  using assms by (induction jobs order s rule: run_order.induct) auto

lemma map_of_pure: "map_of (map (\<lambda>(i, b). (i, r i b)) order) i = map_option (r i) (map_of order i)"
  by (induction order) auto

lemma pool_outcome_pure:
  assumes jobs: "\<And>i b s. i < length jobs \<Longrightarrow> (jobs ! i) b s = (r i b, s)"
    and order: "valid_order (length jobs) order"
  shows "fst (pool_outcome jobs zero order s) =
    map (\<lambda>i. case map_of order i of Some b \<Rightarrow> r i b | None \<Rightarrow> (zero, Some ctx_err))
      [0..<length jobs]"
proof -
  have "i < length jobs" if "(i, b) \<in> set order" for i b
  proof -
    from that have "i \<in> set (map fst order)" by force
    with order show ?thesis by (auto simp: valid_order_def)
  qed
  with jobs have "run_order jobs order s = (map (\<lambda>(i, b). (i, r i b)) order, s)"
    by (intro run_order_pure) auto
  then show ?thesis
    by (auto simp: pool_outcome_def map_of_pure split: option.splits)
qed

lemma discover_jobs_nth:
  "i < length addrs \<Longrightarrow>
   (discover_jobs dial done addrs opts ! i) b s = ((probe dial (done i) (addrs ! i) opts, None), s)"
  by (simp add: discover_jobs_def nth_enumerate_eq)

lemma length_discover_jobs [simp]: "length (discover_jobs dial done addrs opts) = length addrs"
  by (simp add: discover_jobs_def)

lemma Discover_results:
  assumes "valid_order (length addrs) order"
  shows "Discover dial done order addrs opts =
    filter (\<lambda>h. h_ports h \<noteq> [])
      (map (\<lambda>i. if i \<in> set (map fst order)
                then probe dial (done i) (addrs ! i) (withDefaults opts) else zero_host)
         [0..<length addrs])"
proof -
  let ?jobs = "discover_jobs dial done addrs (withDefaults opts)"
  have out: "fst (pool_outcome ?jobs zero_host order ()) =
      map (\<lambda>i. case map_of order i of
                 Some b \<Rightarrow> (probe dial (done i) (addrs ! i) (withDefaults opts), None)
               | None \<Rightarrow> (zero_host, Some ctx_err)) [0..<length addrs]"
    using pool_outcome_pure [of ?jobs
        "\<lambda>i b. (probe dial (done i) (addrs ! i) (withDefaults opts), None)" order] assms
    by (simp add: discover_jobs_nth)
  have "fst (case map_of order i of
           Some b \<Rightarrow> (probe dial (done i) (addrs ! i) (withDefaults opts), None)
         | None \<Rightarrow> (zero_host, Some ctx_err)) =
      (if i \<in> set (map fst order)
       then probe dial (done i) (addrs ! i) (withDefaults opts) else zero_host)" for i
    using map_of_eq_None_iff [of order i] by (cases "map_of order i") (auto dest: map_of_SomeD)
  then show ?thesis
    by (simp only: Discover_def Let_def out live_hosts_filter append_Nil map_map o_def)
qed

text \<open>
  (C10) A sweep that is not cancelled reports exactly the hosts with an accepting port, in
  the order of the addresses, each with exactly its accepting ports in the order of the
  options, whatever the order in which the workers finish.
\<close>

theorem Discover_exact:
  assumes "valid_order (length addrs) order" and "length order = length addrs"
    and "\<forall>i k. \<not> done i k"
  shows "Discover dial done order addrs opts =
    map (\<lambda>a. \<lparr>h_addr = a, h_ports = filter (dial a) (do_ports (withDefaults opts))\<rparr>)
      (filter (\<lambda>a. \<exists>p \<in> set (do_ports (withDefaults opts)). dial a p) addrs)"
proof -
  have all: "set (map fst order) = {0..<length addrs}"
    using assms(1,2) by (simp add: valid_order_def)
  have p: "probe dial (done i) a o1 = \<lparr>h_addr = a, h_ports = filter (dial a) (do_ports o1)\<rparr>" for i a o1
    using assms(3) by (simp add: probe_def probe_ports_live)
  have "map (\<lambda>i. if i \<in> set (map fst order)
                 then probe dial (done i) (addrs ! i) (withDefaults opts) else zero_host)
          [0..<length addrs] =
    map (\<lambda>a. \<lparr>h_addr = a, h_ports = filter (dial a) (do_ports (withDefaults opts))\<rparr>) addrs"
    by (rule nth_equalityI) (simp_all add: p all del: list.set_map set_map)
  then show ?thesis
    using assms(1) by (simp add: Discover_results filter_map o_def filter_empty_conv del: list.set_map set_map)
qed

text \<open>
  Cancellation only loses information: every host a cancelled sweep still reports was
  asked for, and each of its ports is one of the options' ports and accepts connections.
\<close>

theorem Discover_sound:
  assumes "valid_order (length addrs) order"
    and "h \<in> set (Discover dial done order addrs opts)"
  shows "h_addr h \<in> set addrs \<and> h_ports h \<noteq> [] \<and>
    (\<forall>p \<in> set (h_ports h). p \<in> set (do_ports (withDefaults opts)) \<and> dial (h_addr h) p)"
proof -
  from assms obtain i where "i < length addrs" and ne: "h_ports h \<noteq> []"
    and h: "h = probe dial (done i) (addrs ! i) (withDefaults opts)"
    by (auto simp: Discover_results zero_host_def split: if_splits)
  moreover obtain qs rest where "h_ports h = filter (dial (addrs ! i)) qs"
    and "do_ports (withDefaults opts) = qs @ rest"
    using probe_ports_sound [of "dial (addrs ! i)" "done i" 0 "do_ports (withDefaults opts)" "[]"]
    by (auto simp: h probe_def)
  ultimately show ?thesis by (auto simp: probe_def)
qed

definition demo_opts :: disc_options where
  "demo_opts = \<lparr>do_ports = [22, 443], do_timeout = 0, do_concurrency = 4, do_rate = 0, do_jitter = 0\<rparr>"

definition demo_dial :: "addr \<Rightarrow> int \<Rightarrow> bool" where
  "demo_dial a p \<longleftrightarrow> (a = A4 1 \<and> p = 22) \<or> (a = A4 3)"

lemma Discover_exact_witness:
  "Discover demo_dial (\<lambda>i k. False) [(2, False), (0, False), (1, True)] [A4 1, A4 2, A4 3] demo_opts =
     [\<lparr>h_addr = A4 1, h_ports = [22]\<rparr>, \<lparr>h_addr = A4 3, h_ports = [22, 443]\<rparr>]"
  using Discover_exact [of "[A4 1, A4 2, A4 3]" "[(2, False), (0, False), (1, True)]"
      "\<lambda>i k. False" demo_dial demo_opts]
  by (simp add: valid_order_code demo_dial_def demo_opts_def withDefaults_def Let_def second_def)

lemma Discover_sound_witness:
  "A4 3 \<in> set [A4 1, A4 2, A4 3] \<and> 22 \<in> set (do_ports (withDefaults demo_opts)) \<and>
   demo_dial (A4 3) 22"
proof -
  have v: "valid_order (length [A4 1, A4 2, A4 3]) [(0, True), (1, True), (2, True)]"
    by (simp add: valid_order_code)
  have "\<lparr>h_addr = A4 3, h_ports = [22]\<rparr> \<in>
      set (Discover demo_dial (\<lambda>i k. i = 0 \<or> k = 1) [(0, True), (1, True), (2, True)]
             [A4 1, A4 2, A4 3] demo_opts)"
    unfolding Discover_results [OF v]
    by (simp add: upt_conv_Cons probe_def demo_dial_def demo_opts_def withDefaults_def Let_def second_def)
  from Discover_sound [OF v this] show ?thesis
    by (simp add: demo_opts_def withDefaults_def Let_def second_def)
qed

section \<open>The rate limiter\<close>

text \<open>
  \<open>newLimiter\<close>: no limiter, a ticker interval of zero nanoseconds (\<open>time.NewTicker\<close>
  panics), or an empty bucket with room for \<open>perSec\<close> tokens and a tick interval.
\<close>

datatype limiter = Unlimited | TickerPanic | Bucket nat int

definition newLimiter :: "int \<Rightarrow> limiter" where
  "newLimiter perSec =
     (if perSec \<le> 0 then Unlimited
      else if second div perSec \<le> 0 then TickerPanic
      else Bucket (nat perSec) (second div perSec))"

record bucket =
  bk_tokens :: nat
  bk_ticks :: nat
  bk_granted :: nat
  bk_stopped :: bool

definition bucket_init :: bucket where
  "bucket_init = \<lparr>bk_tokens = 0, bk_ticks = 0, bk_granted = 0, bk_stopped = False\<rparr>"

text \<open>
  A tick puts a token into the bucket unless it is full; a \<open>wait\<close> takes one (a wait that
  the context ends takes none and changes nothing); \<open>close\<close> ends the ticking goroutine,
  what is left in the bucket can still be taken.
\<close>

inductive bucket_step :: "nat \<Rightarrow> bucket \<Rightarrow> bucket \<Rightarrow> bool" for cap :: nat where
  Tick: "\<not> bk_stopped b \<Longrightarrow>
     bucket_step cap b (b\<lparr>bk_ticks := Suc (bk_ticks b),
        bk_tokens := (if bk_tokens b < cap then Suc (bk_tokens b) else bk_tokens b)\<rparr>)"
| Wait: "0 < bk_tokens b \<Longrightarrow>
     bucket_step cap b (b\<lparr>bk_tokens := bk_tokens b - 1, bk_granted := Suc (bk_granted b)\<rparr>)"
| Close: "bucket_step cap b (b\<lparr>bk_stopped := True\<rparr>)"

inductive_cases bucket_stepE: "bucket_step cap b b'"

inductive bucket_run :: "nat \<Rightarrow> bucket \<Rightarrow> bucket \<Rightarrow> bool" for cap :: nat and b :: bucket where
  refl: "bucket_run cap b b"
| step: "bucket_run cap b c \<Longrightarrow> bucket_step cap c d \<Longrightarrow> bucket_run cap b d"

lemma bucket_run_cap: "bucket_run cap b c \<Longrightarrow> bk_tokens b \<le> cap \<Longrightarrow> bk_tokens c \<le> cap"
  by (induction rule: bucket_run.induct) (auto elim!: bucket_stepE)

lemma bucket_run_balance:
  "bucket_run cap b c \<Longrightarrow>
     bk_granted c + bk_tokens c + bk_ticks b \<le> bk_granted b + bk_tokens b + bk_ticks c"
  by (induction rule: bucket_run.induct) (auto elim!: bucket_stepE)

text \<open>
  The limiter in any window of a sweep: the hosts let through between two moments are
  at most the ticks of the ticker in between plus a full bucket, and from the start of the
  sweep (an empty bucket) at most the ticks.
\<close>

theorem limiter_window:
  assumes "bucket_run cap bucket_init b" and "bucket_run cap b c"
  shows "bk_granted c - bk_granted b \<le> cap + (bk_ticks c - bk_ticks b) \<and>
    bk_granted b \<le> bk_ticks b"
proof -
  have "bk_tokens b \<le> cap" using bucket_run_cap [OF assms(1)] by (simp add: bucket_init_def)
  with bucket_run_balance [OF assms(2)] bucket_run_balance [OF assms(1)] show ?thesis
    by (simp add: bucket_init_def)
qed

text \<open>A bucket of capacity 2 that fills while no worker asks, then a burst with a tick inside.\<close>

definition full2 :: bucket where
  "full2 = \<lparr>bk_tokens = 2, bk_ticks = 2, bk_granted = 0, bk_stopped = False\<rparr>"

definition burst2 :: bucket where
  "burst2 = \<lparr>bk_tokens = 0, bk_ticks = 4, bk_granted = 4, bk_stopped = False\<rparr>"

lemma bucket_tick: "bucket_run cap b c \<Longrightarrow> \<not> bk_stopped c \<Longrightarrow> bk_tokens c < cap \<Longrightarrow>
    bucket_run cap b (c\<lparr>bk_ticks := Suc (bk_ticks c), bk_tokens := Suc (bk_tokens c)\<rparr>)"
  using bucket_run.step [OF _ bucket_step.Tick] by fastforce

lemma bucket_wait: "bucket_run cap b c \<Longrightarrow> 0 < bk_tokens c \<Longrightarrow>
    bucket_run cap b (c\<lparr>bk_tokens := bk_tokens c - 1, bk_granted := Suc (bk_granted c)\<rparr>)"
  by (rule bucket_run.step [OF _ bucket_step.Wait])

lemma full2_run: "bucket_run 2 bucket_init full2"
  using bucket_tick [OF bucket_tick [OF bucket_run.refl [of 2 bucket_init]]]
  by (simp add: bucket_init_def full2_def numeral_2_eq_2)

lemma burst2_run: "bucket_run 2 full2 burst2"
  using bucket_wait [OF bucket_tick [OF bucket_wait [OF bucket_tick [OF bucket_wait
    [OF bucket_wait [OF bucket_run.refl [of 2 full2]]]]]]]
  by (simp add: full2_def burst2_def eval_nat_numeral)

lemma limiter_window_witness:
  "bk_granted burst2 - bk_granted full2 \<le> 2 + (bk_ticks burst2 - bk_ticks full2) \<and>
   bk_granted full2 \<le> bk_ticks full2"
  by (rule limiter_window [OF full2_run burst2_run])

text \<open>
  The configured rate is not a cap per second: with \<open>perSec\<close> 2 the ticker ticks every
  half second, and a run of the limiter lets 4 hosts through within two ticks, one second.
\<close>

theorem limiter_double_rate:
  "newLimiter 2 = Bucket 2 500000000 \<and> bucket_run 2 bucket_init full2 \<and>
   bucket_run 2 full2 burst2 \<and> bk_ticks burst2 - bk_ticks full2 = 2 \<and>
   bk_granted burst2 - bk_granted full2 = 4"
  using full2_run burst2_run by (simp add: newLimiter_def second_def full2_def burst2_def)

text \<open>
  Every rate up to a billion hosts per second gives a working ticker or none; above
  it the interval rounds to zero, on which \<open>time.NewTicker\<close> panics.
\<close>

theorem newLimiter_total:
  "newLimiter perSec = TickerPanic \<longleftrightarrow> 1000000000 < perSec"
proof -
  have "second div perSec \<le> 0 \<longleftrightarrow> second < perSec" if "0 < perSec"
    using that pos_imp_zdiv_pos_iff [of perSec second] by (auto simp: second_def)
  then show ?thesis by (auto simp: newLimiter_def second_def)
qed

end
