(* ===== verification/Db.thy ===== *)
theory Db
  imports Model "HOL-Library.Multiset"
begin

text \<open>
  The database under \<open>internal/store\<close>: the tables of \<open>migrations/*.sql\<close> as row lists, and
  the statement monad the store's methods are written in. PostgreSQL itself is a parameter,
  the record \<open>world\<close>: whether the \<open>t\<close>-th statement fails for a reason of its own (the
  connection, an encoding), the clocks, the generated UUIDs, the order in which a query
  meets the rows (which decides every \<open>LIMIT 1\<close> and every tie of an \<open>ORDER BY\<close>), case
  folding, collation keys, \<open>ILIKE\<close>, the texts of its errors, and the input syntax of \<open>inet\<close>, \<open>macaddr\<close> and
  \<open>uuid\<close> (\<open>None\<close> is a syntax error, \<open>Some\<close> the text the value prints as). Keys, foreign
  keys and integer widths are checked by the statements, as the schema declares them.
\<close>

section \<open>The service\<close>

record world =
  w_fails :: "nat \<Rightarrow> pg_error option"
  w_lost :: "nat \<Rightarrow> bool"
  w_now :: "nat \<Rightarrow> int"
  w_clock :: "nat \<Rightarrow> int"
  w_uuid :: "nat \<Rightarrow> 128 word"
  w_shuffle :: "nat \<Rightarrow> nat \<Rightarrow> nat list"
  w_lower :: "string \<Rightarrow> string"
  w_sortkey :: "string \<Rightarrow> nat list"
  w_ilike :: "string \<Rightarrow> string \<Rightarrow> bool"
  w_inet :: "string \<Rightarrow> string option"
  w_mac :: "string \<Rightarrow> string option"
  w_uuidof :: "string \<Rightarrow> string option"
  w_errtext :: "pg_error \<Rightarrow> string"

text \<open>A generated UUID as text: 32 hexadecimal digits in groups of 8, 4, 4, 4 and 12.\<close>

definition uuid_text :: "128 word \<Rightarrow> string" where
  "uuid_text u =
     (let h = map (\<lambda>k. hex_char (unat u div 16 ^ (31 - k) mod 16)) [0..<32]
      in take 8 h @ ''-'' @ take 4 (drop 8 h) @ ''-'' @ take 4 (drop 12 h) @ ''-'' @
         take 4 (drop 16 h) @ ''-'' @ drop 20 h)"

definition new_uuid :: "world \<Rightarrow> nat \<Rightarrow> string" where
  "new_uuid w t = uuid_text (w_uuid w t)"

lemma new_uuid_nonempty [simp]: "new_uuid w t \<noteq> []"
  by (simp add: new_uuid_def uuid_text_def Let_def)

section \<open>Rows and tables\<close>

text \<open>
  Instants are in microseconds, the resolution of \<open>TIMESTAMPTZ\<close>. A \<open>JSONB\<close> column holds
  the object the program wrote, which is what it reads back.
\<close>

type_synonym date = "nat \<times> nat \<times> nat"

record device_row =
  dr_id :: string
  dr_type :: string
  dr_hostname :: "string option"
  dr_ip :: "string option"
  dr_serial :: "string option"
  dr_tag :: "string option"
  dr_guid :: "string option"
  dr_source :: "string option"
  dr_first :: int
  dr_last :: int
  dr_updated :: int

record iface_row =
  ir_device :: string
  ir_name :: "string option"
  ir_mac :: "string option"
  ir_ip :: "string option"
  ir_speed :: "int option"
  ir_vlan :: "int option"

record os_row =
  or_device :: string
  or_family :: "string option"
  or_name :: "string option"
  or_version :: "string option"
  or_build :: "string option"
  or_arch :: "string option"

record hw_row =
  hr_device :: string
  hr_vendor :: "string option"
  hr_model :: "string option"
  hr_serial :: "string option"
  hr_cpu :: "string option"
  hr_cores :: "int option"
  hr_ram :: "int option"

record sw_row =
  sr_device :: string
  sr_name :: string
  sr_version :: "string option"
  sr_vendor :: "string option"
  sr_date :: "date option"

record user_row =
  ur_device :: string
  ur_username :: string
  ur_fullname :: "string option"
  ur_lastlogon :: "int option"
  ur_local :: bool

record rel_row =
  rr_parent :: string
  rr_child :: string
  rr_kind :: string

record change_row =
  cg_device :: string
  cg_run :: "string option"
  cg_field :: string
  cg_old :: string
  cg_new :: string
  cg_ts :: int

record cred_row =
  cd_id :: string
  cd_name :: string
  cd_kind :: string
  cd_username :: "string option"
  cd_sealed :: "string option"
  cd_extra :: "(string \<times> string) list"

record target_row =
  tr_id :: string
  tr_name :: string
  tr_cidrs :: "string list"
  tr_enabled :: bool

record sched_row =
  sc_id :: string
  sc_target :: string
  sc_interval :: int
  sc_enabled :: bool
  sc_next :: "int option"

record run_row =
  rn_id :: string
  rn_target :: "string option"
  rn_started :: int
  rn_finished :: "int option"
  rn_status :: string
  rn_found :: int
  rn_error :: "string option"
  rn_discovered :: int
  rn_targets :: "string list"

record event_row =
  ev_run :: string
  ev_ts :: int
  ev_addr :: string
  ev_class :: "string option"
  ev_collector :: "string option"
  ev_status :: string
  ev_changes :: int
  ev_error :: "string option"

record appuser_row =
  au_id :: string
  au_username :: string
  au_hash :: string
  au_role :: string
  au_created :: int
  au_last :: "int option"

record audit_row =
  al_id :: string
  al_ts :: int
  al_actor :: "string option"
  al_action :: string
  al_target :: "string option"
  al_ip :: "string option"
  al_detail :: "(string \<times> json) list"

record db =
  db_tick :: nat
  db_devices :: "device_row list"
  db_ifaces :: "iface_row list"
  db_os :: "os_row list"
  db_hw :: "hw_row list"
  db_sw :: "sw_row list"
  db_users :: "user_row list"
  db_rels :: "rel_row list"
  db_changes :: "change_row list"
  db_creds :: "cred_row list"
  db_targets :: "target_row list"
  db_scheds :: "sched_row list"
  db_runs :: "run_row list"
  db_events :: "event_row list"
  db_appusers :: "appuser_row list"
  db_audit :: "audit_row list"

definition empty_db :: db where
  "empty_db = \<lparr>db_tick = 0, db_devices = [], db_ifaces = [], db_os = [], db_hw = [], db_sw = [],
     db_users = [], db_rels = [], db_changes = [], db_creds = [], db_targets = [],
     db_scheds = [], db_runs = [], db_events = [], db_appusers = [], db_audit = []\<rparr>"

section \<open>Statements\<close>

type_synonym 'a sql = "world \<Rightarrow> db \<Rightarrow> (go_error + 'a) \<times> db"

definition return_sql :: "'a \<Rightarrow> 'a sql" where
  "return_sql x = (\<lambda>w db. (Inr x, db))"

definition fail_sql :: "go_error \<Rightarrow> 'a sql" where
  "fail_sql e = (\<lambda>w db. (Inl e, db))"

text \<open>\<open>if err != nil { return err }\<close>\<close>

definition bind_sql :: "'a sql \<Rightarrow> ('a \<Rightarrow> 'b sql) \<Rightarrow> 'b sql" where
  "bind_sql m f = (\<lambda>w db. case m w db of
     (Inl e, db') \<Rightarrow> (Inl e, db')
   | (Inr x, db') \<Rightarrow> f x w db')"

text \<open>One round trip to the service. A statement that fails leaves the tables alone.\<close>

definition stmt :: "(world \<Rightarrow> nat \<Rightarrow> db \<Rightarrow> go_error + 'a \<times> db) \<Rightarrow> 'a sql" where
  "stmt f = (\<lambda>w db.
     let t = db_tick db; db1 = db\<lparr>db_tick := Suc t\<rparr>
     in case w_fails w t of
          Some e \<Rightarrow> (Inl (ErrPg e), db1)
        | None \<Rightarrow> (case f w t db1 of
                     Inl e \<Rightarrow> (Inl e, db1)
                   | Inr (x, db2) \<Rightarrow> (Inr x, db2)))"

definition query :: "(world \<Rightarrow> nat \<Rightarrow> db \<Rightarrow> go_error + 'a) \<Rightarrow> 'a sql" where
  "query f = stmt (\<lambda>w t db. case f w t db of Inl e \<Rightarrow> Inl e | Inr x \<Rightarrow> Inr (x, db))"

text \<open>A loop of statements; the first error ends it.\<close>

fun iter_sql :: "('a \<Rightarrow> unit sql) \<Rightarrow> 'a list \<Rightarrow> unit sql" where
  "iter_sql f [] = return_sql ()"
| "iter_sql f (x # xs) = bind_sql (f x) (\<lambda>_. iter_sql f xs)"

definition roll_back :: "db \<Rightarrow> db \<Rightarrow> db" where
  "roll_back before after = before\<lparr>db_tick := db_tick after\<rparr>"

text \<open>
  A transaction: \<open>Begin\<close>, the body (which learns the value \<open>now()\<close> has throughout),
  \<open>Commit\<close>. An error of the body rolls back; an error of the commit rolls back too,
  unless (\<open>w_lost\<close>) the server had committed and only its answer was lost.
\<close>

definition tx :: "(int \<Rightarrow> 'a sql) \<Rightarrow> 'a sql" where
  "tx body = bind_sql (query (\<lambda>w t db. Inr (w_now w t))) (\<lambda>begun w db1.
     (case body begun w db1 of
        (Inl e, db2) \<Rightarrow> (Inl e, roll_back db1 db2)
      | (Inr x, db2) \<Rightarrow>
          (let t = db_tick db2; db3 = db2\<lparr>db_tick := Suc t\<rparr>
           in case w_fails w t of
                Some e \<Rightarrow> (Inl (ErrPg e), if w_lost w t then db3 else roll_back db1 db3)
              | None \<Rightarrow> (Inr x, db3))))"

text \<open>The rows in the order the query meets them: some permutation of the table.\<close>

definition scan_rows :: "world \<Rightarrow> nat \<Rightarrow> 'a list \<Rightarrow> 'a list" where
  "scan_rows w t xs =
     (let p = w_shuffle w t (length xs)
      in if sort p = [0..<length xs] then map ((!) xs) p else xs)"

text \<open>\<open>QueryRow(\<dots>).Scan\<close>: the first row, or \<open>pgx.ErrNoRows\<close>.\<close>

fun first_row :: "'a list \<Rightarrow> go_error + 'a" where
  "first_row [] = Inl ErrNoRows"
| "first_row (r # rs) = Inr r"

definition update_where :: "('a \<Rightarrow> bool) \<Rightarrow> ('a \<Rightarrow> 'a) \<Rightarrow> 'a list \<Rightarrow> 'a list" where
  "update_where P f rows = map (\<lambda>r. if P r then f r else r) rows"

definition bad_input :: "string \<Rightarrow> go_error" where
  "bad_input what = ErrPg (BadInput what)"

text \<open>A nullable parameter sent through an input function: \<open>NULL\<close> stays \<open>NULL\<close>.\<close>

fun cast_opt :: "string \<Rightarrow> (string \<Rightarrow> string option) \<Rightarrow> string option \<Rightarrow> go_error + string option" where
  "cast_opt what f None = Inr None"
| "cast_opt what f (Some s) = (case f s of None \<Rightarrow> Inl (bad_input what) | Some v \<Rightarrow> Inr (Some v))"

definition int4_ok :: "int option \<Rightarrow> bool" where
  "int4_ok v = (case v of None \<Rightarrow> True | Some i \<Rightarrow> - (2 ^ 31) \<le> i \<and> i < 2 ^ 31)"

definition int8_ok :: "int option \<Rightarrow> bool" where
  "int8_ok v = (case v of None \<Rightarrow> True | Some i \<Rightarrow> - (2 ^ 63) \<le> i \<and> i < 2 ^ 63)"

text \<open>\<open>COALESCE(x, '')\<close> and \<open>COALESCE(x, y)\<close>\<close>

definition text_or_empty :: "string option \<Rightarrow> string" where
  "text_or_empty v = (case v of None \<Rightarrow> [] | Some s \<Rightarrow> s)"

definition coalesce :: "'a option \<Rightarrow> 'a option \<Rightarrow> 'a option" where
  "coalesce a b = (case a of None \<Rightarrow> b | Some x \<Rightarrow> Some x)"

lemma coalesce_simps [simp]: "coalesce None b = b" "coalesce (Some x) b = Some x"
  by (simp_all add: coalesce_def)

lemma text_or_empty_simps [simp]: "text_or_empty None = []" "text_or_empty (Some s) = s"
  by (simp_all add: text_or_empty_def)

lemma int_ok_simps [simp]: "int4_ok None" "int8_ok None"
  by (simp_all add: int4_ok_def int8_ok_def)

lemma mset_scan_rows [simp]: "mset (scan_rows w t xs) = mset xs"
proof -
  have "mset (map ((!) xs) p) = mset xs" if "sort p = [0..<length xs]" for p
  proof -
    from that have "mset p = mset [0..<length xs]" by (metis mset_sort)
    then have "mset (map ((!) xs) p) = mset (map ((!) xs) [0..<length xs])" by (simp add: mset_map)
    then show ?thesis by (simp only: map_nth)
  qed
  then show ?thesis by (simp add: scan_rows_def Let_def)
qed

lemma set_scan_rows [simp]: "set (scan_rows w t xs) = set xs"
  by (metis mset_scan_rows set_mset_mset)

lemma length_scan_rows [simp]: "length (scan_rows w t xs) = length xs"
  by (metis mset_scan_rows size_mset)

lemma scan_rows_Nil [simp]: "scan_rows w t [] = []"
  by (metis length_0_conv length_scan_rows)

lemma scan_rows_single [simp]: "scan_rows w t [x] = [x]"
proof -
  have "mset (scan_rows w t [x]) = {#x#}" by simp
  then show ?thesis by (metis mset_single_iff)
qed

lemma first_row_Inr: "first_row rs = Inr r \<Longrightarrow> r \<in> set rs"
  by (cases rs) auto

lemma first_row_Inl: "first_row rs = Inl e \<longleftrightarrow> rs = [] \<and> e = ErrNoRows"
  by (cases rs) auto

section \<open>Running statements\<close>

text \<open>A world in which no statement fails for reasons of its own.\<close>

definition quiet :: "world \<Rightarrow> bool" where
  "quiet w \<longleftrightarrow> (\<forall>t. w_fails w t = None)"

definition tick :: "db \<Rightarrow> db" where
  "tick db = db\<lparr>db_tick := Suc (db_tick db)\<rparr>"

lemma bind_sql_run [store_simps]:
  "m w db = (Inl e, db') \<Longrightarrow> bind_sql m f w db = (Inl e, db')"
  "m w db = (Inr x, db') \<Longrightarrow> bind_sql m f w db = f x w db'"
  by (simp_all add: bind_sql_def)

lemma bind_sql_InrE:
  assumes "bind_sql m f w db = (Inr y, db'')"
  obtains x db' where "m w db = (Inr x, db')" and "f x w db' = (Inr y, db'')"
  using assms by (auto simp: bind_sql_def split: prod.splits sum.splits)

lemma return_sql_run [simp, store_simps]: "return_sql x w db = (Inr x, db)"
  by (simp add: return_sql_def)

lemma fail_sql_run [simp, store_simps]: "fail_sql e w db = (Inl e, db)"
  by (simp add: fail_sql_def)

lemma stmt_quiet [store_simps]:
  "quiet w \<Longrightarrow> stmt f w db =
     (case f w (db_tick db) (tick db) of
        Inl e \<Rightarrow> (Inl e, tick db) | Inr (x, db2) \<Rightarrow> (Inr x, db2))"
  by (auto simp: stmt_def quiet_def tick_def Let_def split: sum.splits)

lemma query_quiet [store_simps]:
  "quiet w \<Longrightarrow> query f w db = (f w (db_tick db) (tick db), tick db)"
  by (auto simp: query_def stmt_quiet split: sum.splits)

lemma stmt_InrE:
  assumes "stmt f w db = (Inr x, db')"
  obtains "w_fails w (db_tick db) = None" and "f w (db_tick db) (tick db) = Inr (x, db')"
  using assms by (auto simp: stmt_def tick_def Let_def split: option.splits sum.splits)

lemma query_InrE:
  assumes "query f w db = (Inr x, db')"
  obtains "db' = tick db" and "f w (db_tick db) (tick db) = Inr x"
  using assms by (auto simp: query_def elim!: stmt_InrE split: sum.splits)

lemma query_db: "snd (query f w db) = tick db"
  by (auto simp: query_def stmt_def tick_def Let_def split: option.splits sum.splits)

text \<open>What \<open>tick\<close> leaves alone: every table.\<close>

lemma tick_tables [simp]:
  "db_tick (tick db) = Suc (db_tick db)" "db_devices (tick db) = db_devices db"
  "db_ifaces (tick db) = db_ifaces db" "db_os (tick db) = db_os db" "db_hw (tick db) = db_hw db"
  "db_sw (tick db) = db_sw db" "db_users (tick db) = db_users db" "db_rels (tick db) = db_rels db"
  "db_changes (tick db) = db_changes db" "db_creds (tick db) = db_creds db"
  "db_targets (tick db) = db_targets db" "db_scheds (tick db) = db_scheds db"
  "db_runs (tick db) = db_runs db" "db_events (tick db) = db_events db"
  "db_appusers (tick db) = db_appusers db" "db_audit (tick db) = db_audit db"
  by (simp_all add: tick_def)

text \<open>Two databases with the same contents.\<close>

definition same_tables :: "db \<Rightarrow> db \<Rightarrow> bool" where
  "same_tables a b \<longleftrightarrow> a\<lparr>db_tick := 0\<rparr> = b\<lparr>db_tick := 0\<rparr>"

lemma same_tables_refl [simp, intro]: "same_tables a a"
  by (simp add: same_tables_def)

lemma same_tables_trans: "same_tables a b \<Longrightarrow> same_tables b c \<Longrightarrow> same_tables a c"
  by (simp add: same_tables_def)

lemma same_tables_tick [simp]: "same_tables a (tick b) = same_tables a b" "same_tables (tick a) b = same_tables a b"
  by (simp_all add: same_tables_def tick_def)

lemma same_tables_roll_back [simp]: "same_tables a (roll_back b c) = same_tables a b"
  by (simp add: same_tables_def roll_back_def)

text \<open>
  Transactions are atomic: an error leaves the tables as they were, except for a commit
  whose answer was lost, which leaves them as the whole body made them.
\<close>

lemma tx_error:
  assumes "tx body w db = (Inl e, db')"
  shows "same_tables db db' \<or>
    (\<exists>begun x db2. body begun w (tick db) = (Inr x, db2) \<and> db' = tick db2 \<and>
       w_fails w (db_tick db2) = Some (case e of ErrPg p \<Rightarrow> p) \<and> w_lost w (db_tick db2))"
proof (cases "query (\<lambda>w t db. Inr (w_now w t)) w db")
  case (Pair r db1)
  have db1: "db1 = tick db" using query_db [of "\<lambda>w t db. Inr (w_now w t)" w db] Pair by simp
  show ?thesis
  proof (cases r)
    case (Inl e')
    with assms Pair db1 show ?thesis by (auto simp: tx_def bind_sql_def)
  next
    case (Inr begun)
    with assms Pair db1 show ?thesis
      by (auto simp: tx_def bind_sql_def Let_def tick_def [symmetric]
               split: prod.splits sum.splits option.splits if_splits)
  qed
qed

lemma tx_InrE:
  assumes "tx body w db = (Inr x, db')"
  obtains begun db2 where "body begun w (tick db) = (Inr x, db2)" and "db' = tick db2"
    and "begun = w_now w (db_tick db)"
  using assms
  by (auto simp: tx_def tick_def [symmetric] Let_def elim!: bind_sql_InrE query_InrE
           split: prod.splits sum.splits option.splits if_splits)

lemma tx_quiet [store_simps]:
  "quiet w \<Longrightarrow> tx body w db =
     (case body (w_now w (db_tick db)) w (tick db) of
        (Inl e, db2) \<Rightarrow> (Inl e, roll_back (tick db) db2)
      | (Inr x, db2) \<Rightarrow> (Inr x, tick db2))"
  by (auto simp: tx_def bind_sql_def query_quiet Let_def tick_def [symmetric] quiet_def
           split: prod.splits sum.splits)

section \<open>Invariants\<close>

text \<open>
  A property of the database's contents that a method keeps whatever happens: whichever of
  its statements fails, and whether the whole of it runs or only a part.
\<close>

definition preserves :: "(db \<Rightarrow> bool) \<Rightarrow> 'a sql \<Rightarrow> bool" where
  "preserves P m \<longleftrightarrow> (\<forall>w db. P db \<longrightarrow> P (snd (m w db)))"

lemma preservesD: "preserves P m \<Longrightarrow> P db \<Longrightarrow> P (snd (m w db))"
  by (simp add: preserves_def)

lemma preserves_bind [inv_intros]:
  assumes "preserves P m" and "\<And>x. preserves P (f x)"
  shows "preserves P (bind_sql m f)"
  unfolding preserves_def
proof (intro allI impI)
  fix w db
  assume "P db"
  with assms(1) have m: "P (snd (m w db))" by (simp add: preserves_def)
  show "P (snd (bind_sql m f w db))"
  proof (cases "m w db")
    case (Pair r db')
    with m assms(2) show ?thesis by (cases r) (auto simp: bind_sql_def preserves_def)
  qed
qed

lemma preserves_return [inv_intros]: "preserves P (return_sql x)" "preserves P (fail_sql e)"
  by (simp_all add: preserves_def)

lemma preserves_if [inv_intros]:
  "(b \<Longrightarrow> preserves P m) \<Longrightarrow> (\<not> b \<Longrightarrow> preserves P m') \<Longrightarrow> preserves P (if b then m else m')"
  by simp

lemma preserves_option [inv_intros]:
  "(v = None \<Longrightarrow> preserves P m) \<Longrightarrow> (\<And>x. v = Some x \<Longrightarrow> preserves P (f x)) \<Longrightarrow>
   preserves P (case v of None \<Rightarrow> m | Some x \<Rightarrow> f x)"
  by (cases v) auto

lemma preserves_prod [inv_intros]:
  "(\<And>x y. v = (x, y) \<Longrightarrow> preserves P (f x y)) \<Longrightarrow> preserves P (case v of (x, y) \<Rightarrow> f x y)"
  by (cases v) auto

lemma preserves_iter [inv_intros]: "(\<And>x. preserves P (f x)) \<Longrightarrow> preserves P (iter_sql f xs)"
  by (induction xs) (auto intro: preserves_bind preserves_return)

text \<open>
  What an invariant must be for the statement rules: blind to the statement counter. Its
  rules for a single statement and for a transaction then hold.
\<close>

locale db_invariant =
  fixes inv :: "db \<Rightarrow> bool"
  assumes ticks: "inv (db\<lparr>db_tick := n\<rparr>) = inv db"
begin

lemma tick_inv: "inv (tick db) = inv db"
  by (simp add: tick_def ticks)

lemma roll_back_inv: "inv (roll_back a b) = inv a"
  by (simp add: roll_back_def ticks)

lemma stmt_preserves:
  assumes "\<And>w t db x db'. inv db \<Longrightarrow> f w t db = Inr (x, db') \<Longrightarrow> inv db'"
  shows "preserves inv (stmt f)"
  unfolding preserves_def
proof (intro allI impI)
  fix w db
  assume "inv db"
  then have "inv (db\<lparr>db_tick := Suc (db_tick db)\<rparr>)" by (simp add: ticks)
  with assms show "inv (snd (stmt f w db))"
    by (auto simp: stmt_def Let_def split: option.splits sum.splits)
qed

lemma query_preserves: "preserves inv (query f)"
  unfolding query_def by (rule stmt_preserves) (auto split: sum.splits)

lemma tx_preserves:
  assumes "\<And>begun. preserves inv (body begun)"
  shows "preserves inv (tx body)"
  unfolding preserves_def
proof (intro allI impI)
  fix w db
  assume inv: "inv db"
  show "inv (snd (tx body w db))"
  proof (cases "tx body w db")
    case (Pair r db')
    show ?thesis
    proof (cases r)
      case (Inl e)
      from tx_error [of body w db e db'] Pair Inl consider "same_tables db db'"
        | begun x db2 where "body begun w (tick db) = (Inr x, db2)" "db' = tick db2" by blast
      then show ?thesis
      proof cases
        case 1
        then have "inv db' = inv db" using ticks unfolding same_tables_def by metis
        with inv Pair show ?thesis by simp
      next
        case 2
        with preservesD [OF assms, of "tick db" begun w] inv Pair show ?thesis by (simp add: tick_inv)
      qed
    next
      case (Inr x)
      with Pair obtain begun db2 where "body begun w (tick db) = (Inr x, db2)" "db' = tick db2"
        by (auto elim: tx_InrE)
      with preservesD [OF assms, of "tick db" begun w] inv Pair show ?thesis by (simp add: tick_inv)
    qed
  qed
qed

lemmas statement_rules = stmt_preserves query_preserves tx_preserves

end

end
