(* ===== verification/Schema.thy ===== *)
theory Schema
  imports Db
begin

text \<open>
  The constraints of \<open>internal/store/migrations/*.sql\<close> as an invariant of the database:
  primary keys, the partial unique indexes on \<open>serial\<close> and \<open>ad_guid\<close>, the unique keys of
  \<open>relationship\<close> and \<open>app_user\<close>, one OS and one hardware row per device, and every
  foreign key; and the cascades of a deleted parent row.
\<close>

section \<open>The invariant\<close>

definition device_ids :: "db \<Rightarrow> string set" where
  "device_ids db = dr_id ` set (db_devices db)"

text \<open>Rows that agree on a key that is not \<open>NULL\<close> are the same device.\<close>

definition unique_key :: "(device_row \<Rightarrow> string option) \<Rightarrow> device_row list \<Rightarrow> bool" where
  "unique_key k rows \<longleftrightarrow>
     (\<forall>r \<in> set rows. \<forall>r' \<in> set rows. k r \<noteq> None \<longrightarrow> k r = k r' \<longrightarrow> dr_id r = dr_id r')"

definition devices_ok :: "db \<Rightarrow> bool" where
  "devices_ok db \<longleftrightarrow>
     distinct (map dr_id (db_devices db)) \<and> [] \<notin> device_ids db \<and>
     unique_key dr_serial (db_devices db) \<and> unique_key dr_guid (db_devices db)"

definition children_ok :: "db \<Rightarrow> bool" where
  "children_ok db \<longleftrightarrow>
     ir_device ` set (db_ifaces db) \<subseteq> device_ids db \<and>
     sr_device ` set (db_sw db) \<subseteq> device_ids db \<and>
     ur_device ` set (db_users db) \<subseteq> device_ids db"

definition facts_ok :: "db \<Rightarrow> bool" where
  "facts_ok db \<longleftrightarrow>
     distinct (map or_device (db_os db)) \<and> or_device ` set (db_os db) \<subseteq> device_ids db \<and>
     distinct (map hr_device (db_hw db)) \<and> hr_device ` set (db_hw db) \<subseteq> device_ids db"

definition rels_ok :: "db \<Rightarrow> bool" where
  "rels_ok db \<longleftrightarrow>
     distinct (db_rels db) \<and>
     rr_parent ` set (db_rels db) \<subseteq> device_ids db \<and> rr_child ` set (db_rels db) \<subseteq> device_ids db \<and>
     (\<forall>r \<in> set (db_rels db). rr_parent r \<noteq> rr_child r)"

definition changes_ok :: "db \<Rightarrow> bool" where
  "changes_ok db \<longleftrightarrow>
     cg_device ` set (db_changes db) \<subseteq> device_ids db \<and>
     (\<forall>c \<in> set (db_changes db). \<forall>r. cg_run c = Some r \<longrightarrow> r \<in> rn_id ` set (db_runs db))"

definition scans_ok :: "db \<Rightarrow> bool" where
  "scans_ok db \<longleftrightarrow>
     distinct (map tr_id (db_targets db)) \<and>
     distinct (map sc_id (db_scheds db)) \<and>
     sc_target ` set (db_scheds db) \<subseteq> tr_id ` set (db_targets db) \<and>
     distinct (map rn_id (db_runs db)) \<and> [] \<notin> rn_id ` set (db_runs db) \<and>
     (\<forall>r \<in> set (db_runs db). \<forall>t. rn_target r = Some t \<longrightarrow> t \<in> tr_id ` set (db_targets db)) \<and>
     ev_run ` set (db_events db) \<subseteq> rn_id ` set (db_runs db)"

definition admin_ok :: "db \<Rightarrow> bool" where
  "admin_ok db \<longleftrightarrow>
     distinct (map cd_id (db_creds db)) \<and> distinct (map au_id (db_appusers db)) \<and>
     distinct (map au_username (db_appusers db)) \<and> distinct (map al_id (db_audit db))"

definition db_inv :: "db \<Rightarrow> bool" where
  "db_inv db \<longleftrightarrow> devices_ok db \<and> children_ok db \<and> facts_ok db \<and> rels_ok db \<and> changes_ok db \<and>
     scans_ok db \<and> admin_ok db"

lemmas part_defs = devices_ok_def children_ok_def facts_ok_def rels_ok_def changes_ok_def
  scans_ok_def admin_ok_def device_ids_def

lemma db_inv_empty: "db_inv empty_db"
  by (simp add: db_inv_def part_defs empty_db_def unique_key_def)

lemma ok_tick [simp]:
  "devices_ok (db\<lparr>db_tick := n\<rparr>) = devices_ok db" "children_ok (db\<lparr>db_tick := n\<rparr>) = children_ok db"
  "facts_ok (db\<lparr>db_tick := n\<rparr>) = facts_ok db" "rels_ok (db\<lparr>db_tick := n\<rparr>) = rels_ok db"
  "changes_ok (db\<lparr>db_tick := n\<rparr>) = changes_ok db" "scans_ok (db\<lparr>db_tick := n\<rparr>) = scans_ok db"
  "admin_ok (db\<lparr>db_tick := n\<rparr>) = admin_ok db"
  by (simp_all add: part_defs)

text \<open>Which tables each part does not read.\<close>

lemma devices_ok_frame [simp]:
  "devices_ok (db\<lparr>db_ifaces := x_ifaces\<rparr>) = devices_ok db"
  "devices_ok (db\<lparr>db_os := x_os\<rparr>) = devices_ok db"
  "devices_ok (db\<lparr>db_hw := x_hw\<rparr>) = devices_ok db"
  "devices_ok (db\<lparr>db_sw := x_sw\<rparr>) = devices_ok db"
  "devices_ok (db\<lparr>db_users := x_users\<rparr>) = devices_ok db"
  "devices_ok (db\<lparr>db_rels := x_rels\<rparr>) = devices_ok db"
  "devices_ok (db\<lparr>db_changes := x_changes\<rparr>) = devices_ok db"
  "devices_ok (db\<lparr>db_creds := x_creds\<rparr>) = devices_ok db"
  "devices_ok (db\<lparr>db_targets := x_targets\<rparr>) = devices_ok db"
  "devices_ok (db\<lparr>db_scheds := x_scheds\<rparr>) = devices_ok db"
  "devices_ok (db\<lparr>db_runs := x_runs\<rparr>) = devices_ok db"
  "devices_ok (db\<lparr>db_events := x_events\<rparr>) = devices_ok db"
  "devices_ok (db\<lparr>db_appusers := x_appusers\<rparr>) = devices_ok db"
  "devices_ok (db\<lparr>db_audit := x_audit\<rparr>) = devices_ok db"
  by (simp_all add: part_defs)

lemma children_ok_frame [simp]:
  "children_ok (db\<lparr>db_os := x_os\<rparr>) = children_ok db"
  "children_ok (db\<lparr>db_hw := x_hw\<rparr>) = children_ok db"
  "children_ok (db\<lparr>db_rels := x_rels\<rparr>) = children_ok db"
  "children_ok (db\<lparr>db_changes := x_changes\<rparr>) = children_ok db"
  "children_ok (db\<lparr>db_creds := x_creds\<rparr>) = children_ok db"
  "children_ok (db\<lparr>db_targets := x_targets\<rparr>) = children_ok db"
  "children_ok (db\<lparr>db_scheds := x_scheds\<rparr>) = children_ok db"
  "children_ok (db\<lparr>db_runs := x_runs\<rparr>) = children_ok db"
  "children_ok (db\<lparr>db_events := x_events\<rparr>) = children_ok db"
  "children_ok (db\<lparr>db_appusers := x_appusers\<rparr>) = children_ok db"
  "children_ok (db\<lparr>db_audit := x_audit\<rparr>) = children_ok db"
  by (simp_all add: part_defs)

lemma facts_ok_frame [simp]:
  "facts_ok (db\<lparr>db_ifaces := x_ifaces\<rparr>) = facts_ok db"
  "facts_ok (db\<lparr>db_sw := x_sw\<rparr>) = facts_ok db"
  "facts_ok (db\<lparr>db_users := x_users\<rparr>) = facts_ok db"
  "facts_ok (db\<lparr>db_rels := x_rels\<rparr>) = facts_ok db"
  "facts_ok (db\<lparr>db_changes := x_changes\<rparr>) = facts_ok db"
  "facts_ok (db\<lparr>db_creds := x_creds\<rparr>) = facts_ok db"
  "facts_ok (db\<lparr>db_targets := x_targets\<rparr>) = facts_ok db"
  "facts_ok (db\<lparr>db_scheds := x_scheds\<rparr>) = facts_ok db"
  "facts_ok (db\<lparr>db_runs := x_runs\<rparr>) = facts_ok db"
  "facts_ok (db\<lparr>db_events := x_events\<rparr>) = facts_ok db"
  "facts_ok (db\<lparr>db_appusers := x_appusers\<rparr>) = facts_ok db"
  "facts_ok (db\<lparr>db_audit := x_audit\<rparr>) = facts_ok db"
  by (simp_all add: part_defs)

lemma rels_ok_frame [simp]:
  "rels_ok (db\<lparr>db_ifaces := x_ifaces\<rparr>) = rels_ok db"
  "rels_ok (db\<lparr>db_os := x_os\<rparr>) = rels_ok db"
  "rels_ok (db\<lparr>db_hw := x_hw\<rparr>) = rels_ok db"
  "rels_ok (db\<lparr>db_sw := x_sw\<rparr>) = rels_ok db"
  "rels_ok (db\<lparr>db_users := x_users\<rparr>) = rels_ok db"
  "rels_ok (db\<lparr>db_changes := x_changes\<rparr>) = rels_ok db"
  "rels_ok (db\<lparr>db_creds := x_creds\<rparr>) = rels_ok db"
  "rels_ok (db\<lparr>db_targets := x_targets\<rparr>) = rels_ok db"
  "rels_ok (db\<lparr>db_scheds := x_scheds\<rparr>) = rels_ok db"
  "rels_ok (db\<lparr>db_runs := x_runs\<rparr>) = rels_ok db"
  "rels_ok (db\<lparr>db_events := x_events\<rparr>) = rels_ok db"
  "rels_ok (db\<lparr>db_appusers := x_appusers\<rparr>) = rels_ok db"
  "rels_ok (db\<lparr>db_audit := x_audit\<rparr>) = rels_ok db"
  by (simp_all add: part_defs)

lemma changes_ok_frame [simp]:
  "changes_ok (db\<lparr>db_ifaces := x_ifaces\<rparr>) = changes_ok db"
  "changes_ok (db\<lparr>db_os := x_os\<rparr>) = changes_ok db"
  "changes_ok (db\<lparr>db_hw := x_hw\<rparr>) = changes_ok db"
  "changes_ok (db\<lparr>db_sw := x_sw\<rparr>) = changes_ok db"
  "changes_ok (db\<lparr>db_users := x_users\<rparr>) = changes_ok db"
  "changes_ok (db\<lparr>db_rels := x_rels\<rparr>) = changes_ok db"
  "changes_ok (db\<lparr>db_creds := x_creds\<rparr>) = changes_ok db"
  "changes_ok (db\<lparr>db_targets := x_targets\<rparr>) = changes_ok db"
  "changes_ok (db\<lparr>db_scheds := x_scheds\<rparr>) = changes_ok db"
  "changes_ok (db\<lparr>db_events := x_events\<rparr>) = changes_ok db"
  "changes_ok (db\<lparr>db_appusers := x_appusers\<rparr>) = changes_ok db"
  "changes_ok (db\<lparr>db_audit := x_audit\<rparr>) = changes_ok db"
  by (simp_all add: part_defs)

lemma scans_ok_frame [simp]:
  "scans_ok (db\<lparr>db_devices := x_devices\<rparr>) = scans_ok db"
  "scans_ok (db\<lparr>db_ifaces := x_ifaces\<rparr>) = scans_ok db"
  "scans_ok (db\<lparr>db_os := x_os\<rparr>) = scans_ok db"
  "scans_ok (db\<lparr>db_hw := x_hw\<rparr>) = scans_ok db"
  "scans_ok (db\<lparr>db_sw := x_sw\<rparr>) = scans_ok db"
  "scans_ok (db\<lparr>db_users := x_users\<rparr>) = scans_ok db"
  "scans_ok (db\<lparr>db_rels := x_rels\<rparr>) = scans_ok db"
  "scans_ok (db\<lparr>db_changes := x_changes\<rparr>) = scans_ok db"
  "scans_ok (db\<lparr>db_creds := x_creds\<rparr>) = scans_ok db"
  "scans_ok (db\<lparr>db_appusers := x_appusers\<rparr>) = scans_ok db"
  "scans_ok (db\<lparr>db_audit := x_audit\<rparr>) = scans_ok db"
  by (simp_all add: part_defs)

lemma admin_ok_frame [simp]:
  "admin_ok (db\<lparr>db_devices := x_devices\<rparr>) = admin_ok db"
  "admin_ok (db\<lparr>db_ifaces := x_ifaces\<rparr>) = admin_ok db"
  "admin_ok (db\<lparr>db_os := x_os\<rparr>) = admin_ok db"
  "admin_ok (db\<lparr>db_hw := x_hw\<rparr>) = admin_ok db"
  "admin_ok (db\<lparr>db_sw := x_sw\<rparr>) = admin_ok db"
  "admin_ok (db\<lparr>db_users := x_users\<rparr>) = admin_ok db"
  "admin_ok (db\<lparr>db_rels := x_rels\<rparr>) = admin_ok db"
  "admin_ok (db\<lparr>db_changes := x_changes\<rparr>) = admin_ok db"
  "admin_ok (db\<lparr>db_targets := x_targets\<rparr>) = admin_ok db"
  "admin_ok (db\<lparr>db_scheds := x_scheds\<rparr>) = admin_ok db"
  "admin_ok (db\<lparr>db_runs := x_runs\<rparr>) = admin_ok db"
  "admin_ok (db\<lparr>db_events := x_events\<rparr>) = admin_ok db"
  by (simp_all add: part_defs)

lemma device_ids_frame [simp]:
  "device_ids (db\<lparr>db_tick := n\<rparr>) = device_ids db"
  "device_ids (db\<lparr>db_ifaces := x_ifaces\<rparr>) = device_ids db"
  "device_ids (db\<lparr>db_os := x_os\<rparr>) = device_ids db"
  "device_ids (db\<lparr>db_hw := x_hw\<rparr>) = device_ids db"
  "device_ids (db\<lparr>db_sw := x_sw\<rparr>) = device_ids db"
  "device_ids (db\<lparr>db_users := x_users\<rparr>) = device_ids db"
  "device_ids (db\<lparr>db_rels := x_rels\<rparr>) = device_ids db"
  "device_ids (db\<lparr>db_changes := x_changes\<rparr>) = device_ids db"
  "device_ids (db\<lparr>db_creds := x_creds\<rparr>) = device_ids db"
  "device_ids (db\<lparr>db_targets := x_targets\<rparr>) = device_ids db"
  "device_ids (db\<lparr>db_scheds := x_scheds\<rparr>) = device_ids db"
  "device_ids (db\<lparr>db_runs := x_runs\<rparr>) = device_ids db"
  "device_ids (db\<lparr>db_events := x_events\<rparr>) = device_ids db"
  "device_ids (db\<lparr>db_appusers := x_appusers\<rparr>) = device_ids db"
  "device_ids (db\<lparr>db_audit := x_audit\<rparr>) = device_ids db"
  by (simp_all add: part_defs)

interpretation schema: db_invariant db_inv
  by unfold_locales (simp add: db_inv_def)

lemmas schema_rules [inv_intros] = schema.query_preserves schema.tx_preserves

lemma db_inv_devicesD: "db_inv db \<Longrightarrow> devices_ok db"
  by (simp add: db_inv_def)

text \<open>A unique key picks at most one row.\<close>

lemma devices_ok_id_unique:
  "devices_ok db \<Longrightarrow> r \<in> set (db_devices db) \<Longrightarrow> r' \<in> set (db_devices db) \<Longrightarrow> dr_id r = dr_id r' \<Longrightarrow>
   r = r'"
  by (auto simp: devices_ok_def distinct_map dest: inj_onD)

lemma devices_ok_serial_unique:
  assumes "devices_ok db" and "r \<in> set (db_devices db)" and "r' \<in> set (db_devices db)"
    and "dr_serial r = Some s" and "dr_serial r' = Some s"
  shows "r = r'"
proof (rule devices_ok_id_unique [OF assms(1-3)])
  have "unique_key dr_serial (db_devices db)" using assms(1) by (simp add: devices_ok_def)
  then show "dr_id r = dr_id r'" unfolding unique_key_def using assms(2-5) by fastforce
qed

lemma devices_ok_guid_unique:
  assumes "devices_ok db" and "r \<in> set (db_devices db)" and "r' \<in> set (db_devices db)"
    and "dr_guid r = Some s" and "dr_guid r' = Some s"
  shows "r = r'"
proof (rule devices_ok_id_unique [OF assms(1-3)])
  have "unique_key dr_guid (db_devices db)" using assms(1) by (simp add: devices_ok_def)
  then show "dr_id r = dr_id r'" unfolding unique_key_def using assms(2-5) by fastforce
qed

section \<open>Updates\<close>

lemma map_update_where: "(\<And>r. g (f r) = g r) \<Longrightarrow> map g (update_where P f rows) = map g rows"
  by (simp add: update_where_def)

lemma set_update_where:
  "set (update_where P f rows) = {r \<in> set rows. \<not> P r} \<union> f ` {r \<in> set rows. P r}"
  by (auto simp: update_where_def)

lemma image_update_where: "(\<And>r. g (f r) = g r) \<Longrightarrow> g ` set (update_where P f rows) = g ` set rows"
  by (metis list.set_map map_update_where)

lemma filter_distinct_map: "distinct (map f xs) \<Longrightarrow> distinct (map f (filter P xs))"
  by (simp add: distinct_map_filter)

lemma filter_unique:
  assumes "distinct xs" and "x \<in> set xs" and "P x" and "\<And>y. y \<in> set xs \<Longrightarrow> P y \<Longrightarrow> y = x"
  shows "filter P xs = [x]"
proof -
  have s: "set (filter P xs) = {x}" using assms(2,3) by (auto dest: assms(4))
  have d: "distinct (filter P xs)" using assms(1) by simp
  have "length (filter P xs) = 1" using distinct_card [OF d] s by simp
  then obtain y where "filter P xs = [y]" by (auto simp: length_Suc_conv)
  with s show ?thesis by simp
qed

text \<open>\<open>ON DELETE CASCADE\<close> and \<open>ON DELETE SET NULL\<close> from a scan target.\<close>

definition delete_target_cascade :: "string \<Rightarrow> db \<Rightarrow> db" where
  "delete_target_cascade tid db =
     db\<lparr>db_targets := filter (\<lambda>t. tr_id t \<noteq> tid) (db_targets db),
        db_scheds := filter (\<lambda>s. sc_target s \<noteq> tid) (db_scheds db),
        db_runs := update_where (\<lambda>r. rn_target r = Some tid) (\<lambda>r. r\<lparr>rn_target := None\<rparr>) (db_runs db)\<rparr>"

section \<open>A service for the examples\<close>

text \<open>
  A service that never fails: addresses print as they parse, a MAC is six octets, UUIDs count
  up, rows come in table order.
\<close>

definition demo_world :: world where
  "demo_world =
     \<lparr>w_fails = (\<lambda>_. None), w_lost = (\<lambda>_. False), w_now = int, w_clock = int,
      w_uuid = word_of_nat, w_shuffle = (\<lambda>_ n. [0..<n]), w_lower = to_lower,
      w_sortkey = map of_char, w_ilike = (\<lambda>a b. a = b), w_inet = Some,
      w_mac = (\<lambda>s. case parse_mac s of
                 None \<Rightarrow> None
               | Some hw \<Rightarrow> if length hw = 6 then Some (mac_string hw) else None),
      w_uuidof = Some, w_errtext = (\<lambda>_. ''database error'')\<rparr>"

lemma demo_world_simps [simp]:
  "w_fails demo_world = (\<lambda>_. None)" "w_now demo_world = int" "w_clock demo_world = int"
  "w_uuid demo_world = word_of_nat" "w_lower demo_world = to_lower" "w_inet demo_world = Some"
  "w_uuidof demo_world = Some" "w_sortkey demo_world = map of_char"
  "w_shuffle demo_world = (\<lambda>_ n. [0..<n])"
  by (simp_all add: demo_world_def)

lemma demo_world_quiet [simp]: "quiet demo_world"
  by (simp add: quiet_def)

lemma demo_scan_rows [simp]: "scan_rows demo_world t xs = xs"
  by (simp add: scan_rows_def map_nth Let_def sorted_sort_id)

end
