(* ===== verification/DeviceStore.thy ===== *)
theory DeviceStore
  imports Schema
begin

text \<open>
  \<open>internal/store/devices.go\<close> and \<open>internal/store/null.go\<close>: identity resolution, the
  transactional upsert of a device with its children and change events, relationships.
\<close>

section \<open>NULL helpers\<close>

definition nullStr :: "string \<Rightarrow> string option" where
  "nullStr s = (if s = [] then None else Some s)"

definition nullInt :: "int \<Rightarrow> int option" where
  "nullInt i = (if i = 0 then None else Some i)"

definition nullInt64 :: "int \<Rightarrow> int option" where
  "nullInt64 i = (if i = 0 then None else Some i)"

definition nullIP :: "addr \<Rightarrow> string option" where
  "nullIP a = (if \<not> is_valid a then None else Some (addr_string a))"

definition ipStr :: "addr \<Rightarrow> string" where
  "ipStr a = (if \<not> is_valid a then [] else addr_string a)"

text \<open>\<open>time.Parse\<close> for the layouts of \<open>nullDate\<close>: four-digit years, two-digit months and days.\<close>

datatype layout_item = LYear | LMonth | LDay | LChar char

definition take_digits :: "nat \<Rightarrow> string \<Rightarrow> (nat \<times> string) option" where
  "take_digits n s =
     (if n \<le> length s \<and> list_all is_digit (take n s)
      then Some (digits_val 0 (take n s), drop n s) else None)"

fun parse_layout :: "layout_item list \<Rightarrow> date \<Rightarrow> string \<Rightarrow> date option" where
  "parse_layout [] d s = (if s = [] then Some d else None)"
| "parse_layout (LYear # ls) (y, m, d) s =
     (case take_digits 4 s of None \<Rightarrow> None | Some (v, r) \<Rightarrow> parse_layout ls (v, m, d) r)"
| "parse_layout (LMonth # ls) (y, m, d) s =
     (case take_digits 2 s of
        None \<Rightarrow> None
      | Some (v, r) \<Rightarrow> if v = 0 \<or> 12 < v then None else parse_layout ls (y, v, d) r)"
| "parse_layout (LDay # ls) (y, m, d) s =
     (case take_digits 2 s of None \<Rightarrow> None | Some (v, r) \<Rightarrow> parse_layout ls (y, m, v) r)"
| "parse_layout (LChar c # ls) d s =
     (case s of [] \<Rightarrow> None | x # r \<Rightarrow> if x = c then parse_layout ls d r else None)"

definition leap_year :: "nat \<Rightarrow> bool" where
  "leap_year y \<longleftrightarrow> 4 dvd y \<and> (\<not> 100 dvd y \<or> 400 dvd y)"

definition days_in :: "nat \<Rightarrow> nat \<Rightarrow> nat" where
  "days_in y m =
     (if m = 2 then (if leap_year y then 29 else 28)
      else if m \<in> {4, 6, 9, 11} then 30 else 31)"

definition time_parse :: "layout_item list \<Rightarrow> string \<Rightarrow> date option" where
  "time_parse ls s =
     (case parse_layout ls (0, 1, 1) s of
        None \<Rightarrow> None
      | Some (y, m, d) \<Rightarrow> if d < 1 \<or> days_in y m < d then None else Some (y, m, d))"

definition date_layouts :: "layout_item list list" where
  "date_layouts =
     [[LYear, LChar CHR ''-'', LMonth, LChar CHR ''-'', LDay],
      [LYear, LMonth, LDay],
      [LMonth, LChar CHR ''/'', LDay, LChar CHR ''/'', LYear],
      [LYear, LChar CHR ''/'', LMonth, LChar CHR ''/'', LDay]]"

fun first_layout :: "layout_item list list \<Rightarrow> string \<Rightarrow> date option" where
  "first_layout [] s = None"
| "first_layout (l # ls) s =
     (case time_parse l s of None \<Rightarrow> first_layout ls s | Some d \<Rightarrow> Some d)"

definition nullDate :: "string \<Rightarrow> date option" where
  "nullDate s = (if s = [] then None else first_layout date_layouts s)"

section \<open>MAC addresses as identity keys\<close>

definition isLocallyAdministered :: "string \<Rightarrow> bool" where
  "isLocallyAdministered mac =
     (case parse_mac mac of
        None \<Rightarrow> True
      | Some hw \<Rightarrow> if hw = [] then True else hd hw AND 0x02 \<noteq> 0)"

fun macs_from :: "iface list \<Rightarrow> string list \<Rightarrow> string list" where
  "macs_from [] macs = macs"
| "macs_from (ifc # ifcs) macs =
     macs_from ifcs
       (if if_mac ifc \<noteq> [] \<and> \<not> isLocallyAdministered (if_mac ifc) then macs @ [if_mac ifc] else macs)"

definition macsOf :: "device \<Rightarrow> string list" where
  "macsOf d = macs_from (d_ifaces d) []"

lemma macsOf_eq:
  "macsOf d = filter (\<lambda>m. m \<noteq> [] \<and> \<not> isLocallyAdministered m) (map if_mac (d_ifaces d))"
proof -
  have "macs_from ifcs macs = macs @ filter (\<lambda>m. m \<noteq> [] \<and> \<not> isLocallyAdministered m) (map if_mac ifcs)"
    for ifcs macs
    by (induction ifcs macs rule: macs_from.induct) auto
  then show ?thesis by (simp add: macsOf_def)
qed

section \<open>Identity resolution\<close>

record existing =
  ex_type :: string
  ex_hostname :: string
  ex_ip :: string
  ex_serial :: string
  ex_osname :: string
  ex_osversion :: string

definition no_existing :: existing where
  "no_existing = \<lparr>ex_type = [], ex_hostname = [], ex_ip = [], ex_serial = [],
                  ex_osname = [], ex_osversion = []\<rparr>"

record change_event =
  ce_field :: string
  ce_old :: string
  ce_new :: string

definition id_where :: "world \<Rightarrow> nat \<Rightarrow> (device_row \<Rightarrow> bool) \<Rightarrow> db \<Rightarrow> go_error + string" where
  "id_where w t P db =
     (case first_row (scan_rows w t (filter P (db_devices db))) of
        Inl e \<Rightarrow> Inl e | Inr r \<Rightarrow> Inr (dr_id r))"

definition id_by_serial :: "string \<Rightarrow> string sql" where
  "id_by_serial s = query (\<lambda>w t db. id_where w t (\<lambda>r. dr_serial r = Some s) db)"

definition id_by_guid :: "string \<Rightarrow> string sql" where
  "id_by_guid g = query (\<lambda>w t db. id_where w t (\<lambda>r. dr_guid r = Some g) db)"

text \<open>\<open>$1::macaddr[]\<close>: one text that is not a MAC for PostgreSQL fails the statement.\<close>

fun cast_all :: "string \<Rightarrow> (string \<Rightarrow> string option) \<Rightarrow> string list \<Rightarrow> go_error + string list" where
  "cast_all what f [] = Inr []"
| "cast_all what f (s # ss) =
     (case f s of
        None \<Rightarrow> Inl (bad_input what)
      | Some v \<Rightarrow> (case cast_all what f ss of Inl e \<Rightarrow> Inl e | Inr vs \<Rightarrow> Inr (v # vs)))"

definition id_by_macs :: "string list \<Rightarrow> string sql" where
  "id_by_macs macs = query (\<lambda>w t db.
     case cast_all ''macaddr'' (w_mac w) macs of
       Inl e \<Rightarrow> Inl e
     | Inr ms \<Rightarrow>
         (case first_row (scan_rows w t
                 (filter (\<lambda>r. \<exists>m \<in> set ms. ir_mac r = Some m) (db_ifaces db))) of
            Inl e \<Rightarrow> Inl e | Inr r \<Rightarrow> Inr (ir_device r)))"

definition id_by_hostname :: "string \<Rightarrow> string sql" where
  "id_by_hostname h = query (\<lambda>w t db.
     id_where w t (\<lambda>r. map_option (w_lower w) (dr_hostname r) = Some (w_lower w h)) db)"

definition id_by_ip :: "string \<Rightarrow> string sql" where
  "id_by_ip ip = query (\<lambda>w t db.
     case w_inet w ip of
       None \<Rightarrow> Inl (bad_input ''inet'')
     | Some v \<Rightarrow> id_where w t (\<lambda>r. dr_ip r = Some v) db)"

text \<open>\<open>errors.Is(err, pgx.ErrNoRows)\<close> turned into a value.\<close>

definition no_rows_to :: "'a \<Rightarrow> 'a sql \<Rightarrow> 'a sql" where
  "no_rows_to x m = (\<lambda>w db. case m w db of
     (Inl e, db') \<Rightarrow> if errors_is e ErrNoRows then (Inr x, db') else (Inl e, db')
   | (Inr y, db') \<Rightarrow> (Inr y, db'))"

text \<open>The attempts in order; the first that finds a row ends the loop.\<close>

fun run_attempts :: "(bool \<times> string sql) list \<Rightarrow> string sql" where
  "run_attempts [] = return_sql []"
| "run_attempts ((when, q) # rest) =
     (if \<not> when then run_attempts rest
      else bind_sql (no_rows_to [] q) (\<lambda>did.
             if did \<noteq> [] then return_sql did else run_attempts rest))"

definition attempts :: "device \<Rightarrow> (bool \<times> string sql) list" where
  "attempts d =
     (let macs = macsOf d
      in [(d_serial d \<noteq> [], id_by_serial (d_serial d)),
          (d_guid d \<noteq> [], id_by_guid (d_guid d)),
          (0 < length macs, id_by_macs macs),
          (d_hostname d \<noteq> [], id_by_hostname (d_hostname d)),
          (is_valid (d_ip d), id_by_ip (ipStr (d_ip d)))])"

definition load_existing :: "string \<Rightarrow> existing sql" where
  "load_existing did = query (\<lambda>w t db.
     case first_row (scan_rows w t (filter (\<lambda>r. dr_id r = did) (db_devices db))) of
       Inl e \<Rightarrow> Inl e
     | Inr r \<Rightarrow> Inr (no_existing\<lparr>ex_type := dr_type r, ex_hostname := text_or_empty (dr_hostname r),
                    ex_ip := text_or_empty (dr_ip r), ex_serial := text_or_empty (dr_serial r)\<rparr>))"

definition load_os :: "string \<Rightarrow> (string \<times> string) sql" where
  "load_os did = query (\<lambda>w t db.
     case first_row (scan_rows w t (filter (\<lambda>r. or_device r = did) (db_os db))) of
       Inl e \<Rightarrow> Inl e
     | Inr r \<Rightarrow> Inr (text_or_empty (or_name r), text_or_empty (or_version r)))"

definition resolveDevice :: "device \<Rightarrow> (string \<times> existing) sql" where
  "resolveDevice d =
     bind_sql (run_attempts (attempts d)) (\<lambda>did.
       if did = [] then return_sql ([], no_existing)
       else bind_sql (load_existing did) (\<lambda>ex.
            bind_sql (no_rows_to ([], []) (load_os did)) (\<lambda>(osn, osv).
              return_sql (did, ex\<lparr>ex_osname := osn, ex_osversion := osv\<rparr>))))"

section \<open>Change events\<close>

definition add_change :: "string \<Rightarrow> string \<Rightarrow> string \<Rightarrow> change_event list \<Rightarrow> change_event list" where
  "add_change field old new ch =
     (if new \<noteq> [] \<and> new \<noteq> old
      then ch @ [\<lparr>ce_field = field, ce_old = old, ce_new = new\<rparr>] else ch)"

definition diffDevice :: "existing \<Rightarrow> device \<Rightarrow> change_event list" where
  "diffDevice ex d =
     (let ch = add_change ''hostname'' (ex_hostname ex) (d_hostname d) [];
          ch = (if is_valid (d_ip d)
                then add_change ''primary_ip'' (ex_ip ex) (addr_string (d_ip d)) ch else ch);
          ch = add_change ''serial'' (ex_serial ex) (d_serial d) ch;
          ch = (if d_type d \<noteq> [] \<and> d_type d \<noteq> TypeUnknown
                then add_change ''device_type'' (ex_type ex) (d_type d) ch else ch)
      in (case d_os d of
            None \<Rightarrow> ch
          | Some os \<Rightarrow> add_change ''os_version'' (ex_osversion ex) (os_version os)
                         (add_change ''os_name'' (ex_osname ex) (os_name os) ch)))"

section \<open>Writing\<close>

definition unique_error :: "string \<Rightarrow> go_error" where
  "unique_error c = ErrPg (UniqueViolation c)"

definition fk_error :: "string \<Rightarrow> go_error" where
  "fk_error c = ErrPg (ForeignKeyViolation c)"

text \<open>Whether a value of a nullable unique column is taken by another row.\<close>

definition taken :: "(device_row \<Rightarrow> string option) \<Rightarrow> string option \<Rightarrow> string \<Rightarrow> device_row list \<Rightarrow> bool" where
  "taken k v did rows \<longleftrightarrow> v \<noteq> None \<and> (\<exists>r \<in> set rows. dr_id r \<noteq> did \<and> k r = v)"

definition insert_device :: "device \<Rightarrow> int \<Rightarrow> string sql" where
  "insert_device d now = stmt (\<lambda>w t db.
     case cast_opt ''inet'' (w_inet w) (nullIP (d_ip d)) of
       Inl e \<Rightarrow> Inl e
     | Inr ip \<Rightarrow>
         (let did = new_uuid w t;
              row = \<lparr>dr_id = did, dr_type = d_type d, dr_hostname = nullStr (d_hostname d),
                     dr_ip = ip, dr_serial = nullStr (d_serial d), dr_tag = nullStr (d_tag d),
                     dr_guid = nullStr (d_guid d), dr_source = nullStr (d_source d),
                     dr_first = now, dr_last = now, dr_updated = w_now w t\<rparr>
          in if did \<in> device_ids db then Inl (unique_error ''device_pkey'')
             else if taken dr_serial (dr_serial row) did (db_devices db)
             then Inl (unique_error ''idx_device_serial'')
             else if taken dr_guid (dr_guid row) did (db_devices db)
             then Inl (unique_error ''idx_device_ad_guid'')
             else Inr (did, db\<lparr>db_devices := db_devices db @ [row]\<rparr>)))"

definition merge_row :: "device \<Rightarrow> string option \<Rightarrow> int \<Rightarrow> device_row \<Rightarrow> device_row" where
  "merge_row d ip now r =
     r\<lparr>dr_type := (if d_type d \<noteq> ''unknown'' then d_type d else dr_type r),
       dr_hostname := coalesce (nullStr (d_hostname d)) (dr_hostname r),
       dr_ip := coalesce ip (dr_ip r),
       dr_serial := coalesce (nullStr (d_serial d)) (dr_serial r),
       dr_tag := coalesce (nullStr (d_tag d)) (dr_tag r),
       dr_guid := coalesce (nullStr (d_guid d)) (dr_guid r),
       dr_source := coalesce (nullStr (d_source d)) (dr_source r),
       dr_last := now, dr_updated := now\<rparr>"

definition update_device :: "string \<Rightarrow> device \<Rightarrow> int \<Rightarrow> unit sql" where
  "update_device did d now = stmt (\<lambda>w t db.
     case cast_opt ''inet'' (w_inet w) (nullIP (d_ip d)) of
       Inl e \<Rightarrow> Inl e
     | Inr ip \<Rightarrow>
         (if did \<notin> device_ids db then Inr ((), db)
          else if taken dr_serial (nullStr (d_serial d)) did (db_devices db)
          then Inl (unique_error ''idx_device_serial'')
          else if taken dr_guid (nullStr (d_guid d)) did (db_devices db)
          then Inl (unique_error ''idx_device_ad_guid'')
          else Inr ((), db\<lparr>db_devices :=
                 update_where (\<lambda>r. dr_id r = did) (merge_row d ip now) (db_devices db)\<rparr>)))"

definition clear_ifaces :: "string \<Rightarrow> unit sql" where
  "clear_ifaces did = stmt (\<lambda>w t db.
     Inr ((), db\<lparr>db_ifaces := filter (\<lambda>r. ir_device r \<noteq> did) (db_ifaces db)\<rparr>))"

definition clear_sw :: "string \<Rightarrow> unit sql" where
  "clear_sw did = stmt (\<lambda>w t db.
     Inr ((), db\<lparr>db_sw := filter (\<lambda>r. sr_device r \<noteq> did) (db_sw db)\<rparr>))"

definition clear_users :: "string \<Rightarrow> unit sql" where
  "clear_users did = stmt (\<lambda>w t db.
     Inr ((), db\<lparr>db_users := filter (\<lambda>r. ur_device r \<noteq> did) (db_users db)\<rparr>))"

text \<open>The row of an interface, after the casts of its columns.\<close>

definition iface_row_of :: "world \<Rightarrow> string \<Rightarrow> iface \<Rightarrow> go_error + iface_row" where
  "iface_row_of w did ifc =
     (case cast_opt ''macaddr'' (w_mac w) (nullStr (if_mac ifc)) of
        Inl e \<Rightarrow> Inl e
      | Inr mac \<Rightarrow>
          (case cast_opt ''inet'' (w_inet w) (nullIP (if_ip ifc)) of
             Inl e \<Rightarrow> Inl e
           | Inr ip \<Rightarrow>
               if \<not> int8_ok (nullInt64 (if_speed ifc)) then Inl (bad_input ''bigint'')
               else if \<not> int4_ok (nullInt (if_vlan ifc)) then Inl (bad_input ''integer'')
               else Inr \<lparr>ir_device = did, ir_name = nullStr (if_name ifc), ir_mac = mac,
                         ir_ip = ip, ir_speed = nullInt64 (if_speed ifc),
                         ir_vlan = nullInt (if_vlan ifc)\<rparr>))"

definition insert_iface :: "string \<Rightarrow> iface \<Rightarrow> unit sql" where
  "insert_iface did ifc = stmt (\<lambda>w t db.
     case iface_row_of w did ifc of
       Inl e \<Rightarrow> Inl e
     | Inr row \<Rightarrow>
         if did \<notin> device_ids db then Inl (fk_error ''interface_device_id_fkey'')
         else Inr ((), db\<lparr>db_ifaces := db_ifaces db @ [row]\<rparr>))"

definition os_row_of :: "string \<Rightarrow> osinfo \<Rightarrow> os_row" where
  "os_row_of did os =
     \<lparr>or_device = did, or_family = nullStr (os_family os), or_name = nullStr (os_name os),
      or_version = nullStr (os_version os), or_build = nullStr (os_build os),
      or_arch = nullStr (os_arch os)\<rparr>"

text \<open>\<open>INSERT \<dots> ON CONFLICT (device_id) DO UPDATE\<close>\<close>

definition upsert_os :: "string \<Rightarrow> osinfo \<Rightarrow> unit sql" where
  "upsert_os did os = stmt (\<lambda>w t db.
     if did \<notin> device_ids db then Inl (fk_error ''os_info_device_id_fkey'')
     else if did \<in> or_device ` set (db_os db)
     then Inr ((), db\<lparr>db_os := update_where (\<lambda>r. or_device r = did) (\<lambda>_. os_row_of did os) (db_os db)\<rparr>)
     else Inr ((), db\<lparr>db_os := db_os db @ [os_row_of did os]\<rparr>))"

definition hw_row_of :: "string \<Rightarrow> hardware \<Rightarrow> hw_row" where
  "hw_row_of did hw =
     \<lparr>hr_device = did, hr_vendor = nullStr (hw_vendor hw), hr_model = nullStr (hw_model hw),
      hr_serial = nullStr (hw_serial hw), hr_cpu = nullStr (hw_cpu hw),
      hr_cores = nullInt (hw_cores hw), hr_ram = nullInt64 (hw_ram hw)\<rparr>"

definition upsert_hw :: "string \<Rightarrow> hardware \<Rightarrow> unit sql" where
  "upsert_hw did hw = stmt (\<lambda>w t db.
     if \<not> int4_ok (nullInt (hw_cores hw)) then Inl (bad_input ''integer'')
     else if \<not> int8_ok (nullInt64 (hw_ram hw)) then Inl (bad_input ''bigint'')
     else if did \<notin> device_ids db then Inl (fk_error ''hardware_device_id_fkey'')
     else if did \<in> hr_device ` set (db_hw db)
     then Inr ((), db\<lparr>db_hw := update_where (\<lambda>r. hr_device r = did) (\<lambda>_. hw_row_of did hw) (db_hw db)\<rparr>)
     else Inr ((), db\<lparr>db_hw := db_hw db @ [hw_row_of did hw]\<rparr>))"

definition sw_row_of :: "string \<Rightarrow> software \<Rightarrow> sw_row" where
  "sw_row_of did sw =
     \<lparr>sr_device = did, sr_name = sw_name sw, sr_version = nullStr (sw_version sw),
      sr_vendor = nullStr (sw_vendor sw), sr_date = nullDate (sw_date sw)\<rparr>"

definition insert_sw :: "string \<Rightarrow> software \<Rightarrow> unit sql" where
  "insert_sw did sw = stmt (\<lambda>w t db.
     if did \<notin> device_ids db then Inl (fk_error ''software_device_id_fkey'')
     else Inr ((), db\<lparr>db_sw := db_sw db @ [sw_row_of did sw]\<rparr>))"

definition user_row_of :: "string \<Rightarrow> user_account \<Rightarrow> user_row" where
  "user_row_of did u =
     \<lparr>ur_device = did, ur_username = ua_username u, ur_fullname = nullStr (ua_fullname u),
      ur_lastlogon = ua_lastlogon u, ur_local = ua_local u\<rparr>"

definition insert_user :: "string \<Rightarrow> user_account \<Rightarrow> unit sql" where
  "insert_user did u = stmt (\<lambda>w t db.
     if did \<notin> device_ids db then Inl (fk_error ''user_account_device_id_fkey'')
     else Inr ((), db\<lparr>db_users := db_users db @ [user_row_of did u]\<rparr>))"

definition replaceChildren :: "string \<Rightarrow> device \<Rightarrow> unit sql" where
  "replaceChildren did d =
     bind_sql (clear_ifaces did) (\<lambda>_.
     bind_sql (clear_sw did) (\<lambda>_.
     bind_sql (clear_users did) (\<lambda>_.
     bind_sql (iter_sql (insert_iface did) (d_ifaces d)) (\<lambda>_.
     bind_sql (case d_os d of None \<Rightarrow> return_sql () | Some os \<Rightarrow> upsert_os did os) (\<lambda>_.
     bind_sql (case d_hw d of None \<Rightarrow> return_sql () | Some hw \<Rightarrow> upsert_hw did hw) (\<lambda>_.
     bind_sql (iter_sql (insert_sw did) (d_sw d)) (\<lambda>_.
     iter_sql (insert_user did) (d_users d))))))))"

definition change_row_of :: "string \<Rightarrow> string \<Rightarrow> int \<Rightarrow> change_event \<Rightarrow> change_row" where
  "change_row_of did run ts ch =
     \<lparr>cg_device = did, cg_run = nullStr run, cg_field = ce_field ch, cg_old = ce_old ch,
      cg_new = ce_new ch, cg_ts = ts\<rparr>"

definition insert_change :: "string \<Rightarrow> string \<Rightarrow> int \<Rightarrow> change_event \<Rightarrow> unit sql" where
  "insert_change did run ts ch = stmt (\<lambda>w t db.
     if did \<notin> device_ids db then Inl (fk_error ''change_event_device_id_fkey'')
     else if run \<noteq> [] \<and> run \<notin> rn_id ` set (db_runs db)
     then Inl (fk_error ''change_event_scan_run_id_fkey'')
     else Inr ((), db\<lparr>db_changes := db_changes db @ [change_row_of did run ts ch]\<rparr>))"

text \<open>\<open>time.Now()\<close> on the program's side: no statement.\<close>

definition time_now :: "int sql" where
  "time_now = (\<lambda>w db. (Inr (w_clock w (db_tick db)), db))"

definition write_device :: "string \<times> existing \<Rightarrow> device \<Rightarrow> string \<Rightarrow> bool \<Rightarrow> int \<Rightarrow>
    (string \<times> change_event list) sql" where
  "write_device found d run collected begun =
     bind_sql time_now (\<lambda>now.
     bind_sql (if fst found = []
               then bind_sql (insert_device d now) (\<lambda>did. return_sql (did, []))
               else bind_sql (update_device (fst found) d now)
                      (\<lambda>_. return_sql (fst found, diffDevice (snd found) d))) (\<lambda>(did, changes).
     bind_sql (if collected then replaceChildren did d else return_sql ()) (\<lambda>_.
     bind_sql (iter_sql (insert_change did run begun) changes) (\<lambda>_.
       return_sql (did, changes)))))"

definition UpsertDevice :: "device \<Rightarrow> string \<Rightarrow> bool \<Rightarrow> (string \<times> change_event list) sql" where
  "UpsertDevice d run collected =
     tx (\<lambda>begun. bind_sql (resolveDevice d) (\<lambda>found. write_device found d run collected begun))"

definition CreateRelationship :: "string \<Rightarrow> string \<Rightarrow> string \<Rightarrow> unit sql" where
  "CreateRelationship parent child kind =
     (if parent = [] \<or> child = [] \<or> parent = child then return_sql ()
      else stmt (\<lambda>w t db.
        let row = \<lparr>rr_parent = parent, rr_child = child, rr_kind = kind\<rparr>
        in if parent \<notin> device_ids db then Inl (fk_error ''relationship_parent_id_fkey'')
           else if child \<notin> device_ids db then Inl (fk_error ''relationship_child_id_fkey'')
           else if row \<in> set (db_rels db) then Inr ((), db)
           else Inr ((), db\<lparr>db_rels := db_rels db @ [row]\<rparr>)))"

end
