(* ===== verification/DeviceInv.thy ===== *)
theory DeviceInv
  imports DeviceStore
begin

text \<open>
  The schema invariant under the store's device operations: every statement of
  \<open>devices.go\<close> keeps it, hence so do \<open>UpsertDevice\<close> and \<open>CreateRelationship\<close>, wherever
  they fail.
\<close>

section \<open>Rows of one device at a time\<close>

lemma unique_keyD:
  "unique_key k rows \<Longrightarrow> r \<in> set rows \<Longrightarrow> r' \<in> set rows \<Longrightarrow> k r \<noteq> None \<Longrightarrow> k r = k r' \<Longrightarrow>
   dr_id r = dr_id r'"
  unfolding unique_key_def by blast

lemma unique_key_append:
  assumes u: "unique_key k rows" and t: "\<not> taken k (k row) (dr_id row) rows"
  shows "unique_key k (rows @ [row])"
  unfolding unique_key_def
proof (intro ballI impI)
  fix r r'
  assume r: "r \<in> set (rows @ [row])" and r': "r' \<in> set (rows @ [row])"
    and nn: "k r \<noteq> None" and eq: "k r = k r'"
  have new: "dr_id x = dr_id row" if "x \<in> set rows" and "k x = k row" and "k row \<noteq> None" for x
    using t that by (auto simp: taken_def)
  show "dr_id r = dr_id r'"
  proof (cases "r \<in> set rows \<and> r' \<in> set rows")
    case True
    with unique_keyD [OF u] nn eq show ?thesis by blast
  next
    case False
    with r r' have "r = row \<or> r' = row" by auto
    with new [of r] new [of r'] r r' nn eq show ?thesis by auto
  qed
qed

lemma merge_row_id [simp]: "dr_id (merge_row d ip now r) = dr_id r"
  by (simp add: merge_row_def)

lemma update_where_ids [simp]:
  "map dr_id (update_where P (merge_row d ip now) rows) = map dr_id rows"
  by (rule map_update_where) simp

lemma unique_key_update:
  assumes u: "unique_key k rows" and id: "\<And>r. dr_id (f r) = dr_id r"
    and k: "\<And>r. k (f r) = coalesce v (k r)" and t: "\<not> taken k v did rows"
  shows "unique_key k (update_where (\<lambda>r. dr_id r = did) f rows)"
  unfolding unique_key_def
proof (intro ballI impI)
  fix r r'
  assume r: "r \<in> set (update_where (\<lambda>r. dr_id r = did) f rows)"
    and r': "r' \<in> set (update_where (\<lambda>r. dr_id r = did) f rows)"
    and nn: "k r \<noteq> None" and eq: "k r = k r'"
  have orig: "\<exists>o1 \<in> set rows. dr_id o1 = dr_id x \<and>
      (if dr_id x = did then k x = coalesce v (k o1) else x = o1)"
    if "x \<in> set (update_where (\<lambda>r. dr_id r = did) f rows)" for x
    using that id k by (fastforce simp: set_update_where)
  from orig [OF r] orig [OF r'] obtain a b
    where a: "a \<in> set rows" "dr_id a = dr_id r" "if dr_id r = did then k r = coalesce v (k a) else r = a"
      and b: "b \<in> set rows" "dr_id b = dr_id r'" "if dr_id r' = did then k r' = coalesce v (k b) else r' = b"
    by blast
  show "dr_id r = dr_id r'"
  proof (cases "dr_id r = did \<longleftrightarrow> dr_id r' = did")
    case True
    show ?thesis
    proof (cases "dr_id r = did")
      case False
      with True a b have "r = a" and "r' = b" by auto
      with unique_keyD [OF u a(1) b(1)] nn eq show ?thesis by simp
    qed (use True in auto)
  next
    case False
    show ?thesis
    proof (cases v)
      case None
      have "k a = k r" using a(3) None by (cases "dr_id r = did") simp_all
      moreover have "k b = k r'" using b(3) None by (cases "dr_id r' = did") simp_all
      ultimately show ?thesis using unique_keyD [OF u a(1) b(1)] a(2) b(2) nn eq by simp
    next
      case (Some s)
      have free: "x \<in> set rows \<Longrightarrow> dr_id x \<noteq> did \<Longrightarrow> k x \<noteq> Some s" for x
        using t Some by (auto simp: taken_def)
      show ?thesis
      proof (cases "dr_id r = did")
        case True
        with False have "k r = Some s" and "r' = b" and "dr_id b \<noteq> did" using a(3) b(2,3) Some by auto
        with free [OF b(1)] eq show ?thesis by simp
      next
        case n: False
        with False have "k r' = Some s" and "r = a" and "dr_id a \<noteq> did" using b(3) a(2,3) Some by auto
        with free [OF a(1)] eq show ?thesis by simp
      qed
    qed
  qed
qed

section \<open>Statements\<close>

text \<open>The device table only grows, so references into it stay valid.\<close>

lemma db_inv_devices:
  assumes inv: "db_inv db" and ids: "device_ids db \<subseteq> dr_id ` set rows"
    and ok: "devices_ok (db\<lparr>db_devices := rows\<rparr>)"
  shows "db_inv (db\<lparr>db_devices := rows\<rparr>)"
proof -
  have new: "device_ids (db\<lparr>db_devices := rows\<rparr>) = dr_id ` set rows"
    by (simp add: device_ids_def)
  have "children_ok (db\<lparr>db_devices := rows\<rparr>)"
    using inv ids by (simp add: db_inv_def children_ok_def new) blast
  moreover have "facts_ok (db\<lparr>db_devices := rows\<rparr>)"
    using inv ids by (simp add: db_inv_def facts_ok_def new) blast
  moreover have "rels_ok (db\<lparr>db_devices := rows\<rparr>)"
    using inv ids by (simp add: db_inv_def rels_ok_def new) blast
  moreover have "changes_ok (db\<lparr>db_devices := rows\<rparr>)"
    using inv ids by (simp add: db_inv_def changes_ok_def new) blast
  ultimately show ?thesis using inv ok by (simp add: db_inv_def)
qed

lemma insert_device_inv [inv_intros]: "preserves db_inv (insert_device d now)"
  unfolding insert_device_def
proof (rule schema.stmt_preserves)
  fix w t db x db'
  assume inv: "db_inv db"
    and run: "(case cast_opt ''inet'' (w_inet w) (nullIP (d_ip d)) of
       Inl e \<Rightarrow> Inl e
     | Inr ip \<Rightarrow>
         (let did = new_uuid w t;
              row = \<lparr>dr_id = did, dr_type = d_type d, dr_hostname = nullStr (d_hostname d),
                     dr_ip = ip, dr_serial = nullStr (d_serial d), dr_tag = nullStr (d_tag d),
                     dr_guid = nullStr (d_guid d), dr_source = nullStr (d_source d),
                     dr_first = now, dr_last = now, dr_updated = w_now w t\<rparr>
          in if did \<in> device_ids db then Inl (unique_error ''device_pkey'')
             else if taken dr_serial (dr_serial row) did (db_devices db)
             then Inl (unique_error ''idx_device_serial'')
             else if taken dr_guid (dr_guid row) did (db_devices db)
             then Inl (unique_error ''idx_device_ad_guid'')
             else Inr (did, db\<lparr>db_devices := db_devices db @ [row]\<rparr>))) = Inr (x, db')"
  then obtain row where "db' = db\<lparr>db_devices := db_devices db @ [row]\<rparr>"
    and "dr_id row \<noteq> []" and "dr_id row \<notin> device_ids db"
    and "\<not> taken dr_serial (dr_serial row) (dr_id row) (db_devices db)"
    and "\<not> taken dr_guid (dr_guid row) (dr_id row) (db_devices db)"
    by (auto simp: Let_def split: sum.splits if_splits)
  with inv show "db_inv db'"
    by (auto intro!: db_inv_devices unique_key_append
             simp: device_ids_def devices_ok_def db_inv_def [of db])
qed

lemma update_device_inv [inv_intros]: "preserves db_inv (update_device did d now)"
  unfolding update_device_def
proof (rule schema.stmt_preserves)
  fix w t db x db'
  assume inv: "db_inv db"
    and run: "(case cast_opt ''inet'' (w_inet w) (nullIP (d_ip d)) of
       Inl e \<Rightarrow> Inl e
     | Inr ip \<Rightarrow>
         (if did \<notin> device_ids db then Inr ((), db)
          else if taken dr_serial (nullStr (d_serial d)) did (db_devices db)
          then Inl (unique_error ''idx_device_serial'')
          else if taken dr_guid (nullStr (d_guid d)) did (db_devices db)
          then Inl (unique_error ''idx_device_ad_guid'')
          else Inr ((), db\<lparr>db_devices :=
                 update_where (\<lambda>r. dr_id r = did) (merge_row d ip now) (db_devices db)\<rparr>))) = Inr (x, db')"
  then consider "db' = db" | ip where
      "db' = db\<lparr>db_devices := update_where (\<lambda>r. dr_id r = did) (merge_row d ip now) (db_devices db)\<rparr>"
      "\<not> taken dr_serial (nullStr (d_serial d)) did (db_devices db)"
      "\<not> taken dr_guid (nullStr (d_guid d)) did (db_devices db)"
    by (auto split: sum.splits if_splits)
  then show "db_inv db'"
  proof cases
    case 1
    with inv show ?thesis by simp
  next
    case (2 ip)
    let ?rows = "update_where (\<lambda>r. dr_id r = did) (merge_row d ip now) (db_devices db)"
    have ids: "dr_id ` set ?rows = device_ids db"
      unfolding device_ids_def by (rule image_update_where) simp
    have "unique_key dr_serial ?rows" and "unique_key dr_guid ?rows"
      using inv 2 by (auto intro!: unique_key_update simp: db_inv_def devices_ok_def image_subset_iff merge_row_def)
    with inv ids have "devices_ok (db\<lparr>db_devices := ?rows\<rparr>)"
      by (simp add: db_inv_def devices_ok_def device_ids_def)
    with inv ids 2 show ?thesis by (simp add: db_inv_devices)
  qed
qed

text \<open>Child rows: removing some, or adding one of a stored device.\<close>

lemma clear_inv [inv_intros]:
  "preserves db_inv (clear_ifaces did)" "preserves db_inv (clear_sw did)"
  "preserves db_inv (clear_users did)"
  unfolding clear_ifaces_def clear_sw_def clear_users_def
  by (rule schema.stmt_preserves, force simp: db_inv_def children_ok_def image_subset_iff)+

lemma iface_row_device: "iface_row_of w did ifc = Inr row \<Longrightarrow> ir_device row = did"
  by (auto simp: iface_row_of_def split: sum.splits if_splits)

lemma insert_iface_inv [inv_intros]: "preserves db_inv (insert_iface did ifc)"
  unfolding insert_iface_def
  by (rule schema.stmt_preserves)
     (auto simp: db_inv_def children_ok_def image_subset_iff dest!: iface_row_device split: sum.splits if_splits)

lemma insert_sw_inv [inv_intros]: "preserves db_inv (insert_sw did sw)"
  unfolding insert_sw_def
  by (rule schema.stmt_preserves) (auto simp: db_inv_def children_ok_def image_subset_iff sw_row_of_def split: if_splits)

lemma insert_user_inv [inv_intros]: "preserves db_inv (insert_user did u)"
  unfolding insert_user_def
  by (rule schema.stmt_preserves) (auto simp: db_inv_def children_ok_def image_subset_iff user_row_of_def split: if_splits)

lemma facts_row_device [simp]: "or_device (os_row_of did os) = did" "hr_device (hw_row_of did hw) = did"
  by (simp_all add: os_row_of_def hw_row_of_def)

lemma update_facts_ids:
  "(\<And>r. g (h r) = did) \<Longrightarrow> map g (update_where (\<lambda>r. g r = did) h rows) = map g rows"
  by (simp add: update_where_def)

lemma upsert_os_inv [inv_intros]: "preserves db_inv (upsert_os did os)"
  unfolding upsert_os_def
proof (rule schema.stmt_preserves)
  fix w t db x db'
  assume inv: "db_inv db" and run: "(if did \<notin> device_ids db then Inl (fk_error ''os_info_device_id_fkey'')
     else if did \<in> or_device ` set (db_os db)
     then Inr ((), db\<lparr>db_os := update_where (\<lambda>r. or_device r = did) (\<lambda>_. os_row_of did os) (db_os db)\<rparr>)
     else Inr ((), db\<lparr>db_os := db_os db @ [os_row_of did os]\<rparr>)) = Inr (x, db')"
  have keep: "map or_device (update_where (\<lambda>r. or_device r = did) (\<lambda>_. os_row_of did os) (db_os db)) =
      map or_device (db_os db)"
    by (rule update_facts_ids) simp
  with inv run keep show "db_inv db'"
    by (simp add: db_inv_def facts_ok_def split: if_splits) (auto simp: image_subset_iff set_update_where)
qed

lemma upsert_hw_inv [inv_intros]: "preserves db_inv (upsert_hw did hw)"
  unfolding upsert_hw_def
proof (rule schema.stmt_preserves)
  fix w t db x db'
  assume inv: "db_inv db" and run: "(if \<not> int4_ok (nullInt (hw_cores hw)) then Inl (bad_input ''integer'')
     else if \<not> int8_ok (nullInt64 (hw_ram hw)) then Inl (bad_input ''bigint'')
     else if did \<notin> device_ids db then Inl (fk_error ''hardware_device_id_fkey'')
     else if did \<in> hr_device ` set (db_hw db)
     then Inr ((), db\<lparr>db_hw := update_where (\<lambda>r. hr_device r = did) (\<lambda>_. hw_row_of did hw) (db_hw db)\<rparr>)
     else Inr ((), db\<lparr>db_hw := db_hw db @ [hw_row_of did hw]\<rparr>)) = Inr (x, db')"
  have keep: "map hr_device (update_where (\<lambda>r. hr_device r = did) (\<lambda>_. hw_row_of did hw) (db_hw db)) =
      map hr_device (db_hw db)"
    by (rule update_facts_ids) simp
  with inv run keep show "db_inv db'"
    by (simp add: db_inv_def facts_ok_def split: if_splits) (auto simp: image_subset_iff set_update_where)
qed

lemma insert_change_inv [inv_intros]: "preserves db_inv (insert_change did run ts ch)"
  unfolding insert_change_def
  by (rule schema.stmt_preserves)
     (auto simp: db_inv_def changes_ok_def image_subset_iff change_row_of_def nullStr_def split: if_splits)

lemma time_now_inv [inv_intros]: "preserves P time_now"
  by (simp add: preserves_def time_now_def)

section \<open>Reads\<close>

lemma no_rows_to_inv [inv_intros]: "preserves P m \<Longrightarrow> preserves P (no_rows_to x m)"
  by (auto simp: preserves_def no_rows_to_def split: prod.splits sum.splits)
     (metis snd_conv)+

lemma run_attempts_inv:
  "(\<And>b q. (b, q) \<in> set as \<Longrightarrow> preserves P q) \<Longrightarrow> preserves P (run_attempts as)"
  by (induction as rule: run_attempts.induct) (auto intro!: inv_intros)

lemma lookup_inv [inv_intros]:
  "preserves db_inv (id_by_serial s)" "preserves db_inv (id_by_guid s)"
  "preserves db_inv (id_by_macs ms)" "preserves db_inv (id_by_hostname s)"
  "preserves db_inv (id_by_ip s)" "preserves db_inv (load_existing s)" "preserves db_inv (load_os s)"
  unfolding id_by_serial_def id_by_guid_def id_by_macs_def id_by_hostname_def id_by_ip_def
    load_existing_def load_os_def
  by (rule schema.query_preserves)+

lemma resolveDevice_inv [inv_intros]: "preserves db_inv (resolveDevice d)"
  unfolding resolveDevice_def attempts_def Let_def
  by (auto intro!: inv_intros run_attempts_inv)

section \<open>Methods\<close>

lemma replaceChildren_inv [inv_intros]: "preserves db_inv (replaceChildren did d)"
  unfolding replaceChildren_def by (intro inv_intros)

lemma write_device_inv [inv_intros]: "preserves db_inv (write_device found d run collected begun)"
  unfolding write_device_def by (intro inv_intros)

lemma UpsertDevice_keeps [inv_intros]: "preserves db_inv (UpsertDevice d run collected)"
  unfolding UpsertDevice_def by (intro inv_intros)

lemma CreateRelationship_keeps [inv_intros]: "preserves db_inv (CreateRelationship p c k)"
  unfolding CreateRelationship_def
  by (intro preserves_if preserves_return schema.stmt_preserves)
     (auto simp: db_inv_def rels_ok_def image_subset_iff Let_def split: if_splits)

text \<open>
  The two writing methods keep every constraint of the schema (one row per identity,
  one OS and one hardware row per device, no dangling child, relationship or change event,
  no device related to itself), whatever the device says, whichever statement fails and
  whatever the service answers.
\<close>

theorem device_methods_keep_schema:
  "preserves db_inv (UpsertDevice d run collected) \<and>
   preserves db_inv (CreateRelationship parent child kind)"
  by (intro conjI inv_intros)

end
