(* ===== verification/DeviceSpec.thy ===== *)
theory DeviceSpec
  imports DeviceInv
begin

text \<open>
  What the device operations do: identity resolution against its priority order, the effect
  of an upsert on each table, change events against the stored values, rescans.
\<close>

section \<open>Identity resolution\<close>

text \<open>
  The devices each identity key of \<open>d\<close> selects, strongest key first, with whether the key
  is present at all.
\<close>

definition key_hits :: "world \<Rightarrow> db \<Rightarrow> device \<Rightarrow> (bool \<times> string set) list" where
  "key_hits w db d =
     [(d_serial d \<noteq> [], {dr_id r |r. r \<in> set (db_devices db) \<and> dr_serial r = Some (d_serial d)}),
      (d_guid d \<noteq> [], {dr_id r |r. r \<in> set (db_devices db) \<and> dr_guid r = Some (d_guid d)}),
      (macsOf d \<noteq> [], {ir_device r |r. r \<in> set (db_ifaces db) \<and>
         (\<exists>m \<in> set (macsOf d). w_mac w m \<noteq> None \<and> ir_mac r = w_mac w m)}),
      (d_hostname d \<noteq> [], {dr_id r |r. r \<in> set (db_devices db) \<and>
         (\<exists>h. dr_hostname r = Some h \<and> w_lower w h = w_lower w (d_hostname d))}),
      (is_valid (d_ip d), {dr_id r |r. r \<in> set (db_devices db) \<and>
         w_inet w (addr_string (d_ip d)) \<noteq> None \<and> dr_ip r = w_inet w (addr_string (d_ip d))})]"

fun first_hit :: "(bool \<times> string set) list \<Rightarrow> string set" where
  "first_hit [] = {}"
| "first_hit ((b, S) # ks) = (if b \<and> S \<noteq> {} then S else first_hit ks)"

text \<open>A lookup statement finds an element of \<open>S\<close>, or reports no rows where there is none.\<close>

definition looks_up :: "world \<Rightarrow> db \<Rightarrow> string sql \<Rightarrow> string set \<Rightarrow> bool" where
  "looks_up w db q S \<longleftrightarrow>
     (\<forall>db1. same_tables db db1 \<longrightarrow>
        snd (q w db1) = tick db1 \<and>
        (case fst (q w db1) of
           Inr x \<Rightarrow> x \<in> S
         | Inl e \<Rightarrow> (errors_is e ErrNoRows \<longrightarrow> S = {}) \<and>
                    (quiet w \<longrightarrow> e \<noteq> ErrNoRows \<longrightarrow> (\<exists>what. e = bad_input what))))"

lemma same_tables_fields:
  "same_tables a b \<Longrightarrow> db_devices a = db_devices b \<and> db_ifaces a = db_ifaces b \<and>
     db_os a = db_os b \<and> db_hw a = db_hw b \<and> db_sw a = db_sw b \<and> db_users a = db_users b \<and>
     db_rels a = db_rels b \<and> db_changes a = db_changes b \<and> db_runs a = db_runs b"
  by (cases a, cases b) (simp add: same_tables_def)

lemma first_row_cases:
  obtains r where "first_row (scan_rows w t rows) = Inr r" and "r \<in> set rows"
  | "first_row (scan_rows w t rows) = Inl ErrNoRows" and "rows = []"
proof (cases "scan_rows w t rows")
  case Nil
  then have "rows = []" by (metis length_0_conv length_scan_rows)
  with that(2) Nil show ?thesis by simp
next
  case (Cons r rs)
  then have "r \<in> set rows" by (metis list.set_intros(1) set_scan_rows)
  with that(1) Cons show ?thesis by simp
qed

lemma looks_up_query:
  assumes "\<And>t db1. same_tables db db1 \<Longrightarrow>
    (case f w t db1 of
       Inr x \<Rightarrow> x \<in> S
     | Inl e \<Rightarrow> (errors_is e ErrNoRows \<longrightarrow> S = {}) \<and> (e \<noteq> ErrNoRows \<longrightarrow> (\<exists>what. e = bad_input what)))"
  shows "looks_up w db (query f) S"
  unfolding looks_up_def
proof (intro allI impI conjI)
  fix db1
  assume st: "same_tables db db1"
  show "snd (query f w db1) = tick db1" by (rule query_db)
  show "case fst (query f w db1) of
      Inr x \<Rightarrow> x \<in> S
    | Inl e \<Rightarrow> (errors_is e ErrNoRows \<longrightarrow> S = {}) \<and>
               (quiet w \<longrightarrow> e \<noteq> ErrNoRows \<longrightarrow> (\<exists>what. e = bad_input what))"
    using assms [of "tick db1" "db_tick db1"] st
    by (auto simp: query_def stmt_def tick_def [symmetric] Let_def quiet_def
             split: option.splits sum.splits)
qed

lemma id_where_cases:
  "case id_where w t P db of
     Inr x \<Rightarrow> x \<in> {dr_id r |r. r \<in> set (db_devices db) \<and> P r}
   | Inl e \<Rightarrow> e = ErrNoRows \<and> {dr_id r |r. r \<in> set (db_devices db) \<and> P r} = {}"
  by (cases rule: first_row_cases [of w t "filter P (db_devices db)"])
     (auto simp: id_where_def filter_empty_conv)

lemma looks_up_where:
  assumes f: "\<And>t db1. f w t db1 = id_where w t P db1" and PQ: "\<And>r. P r \<longleftrightarrow> Q r"
  shows "looks_up w db (query f) {dr_id r |r. r \<in> set (db_devices db) \<and> Q r}"
proof (rule looks_up_query)
  fix t db1
  assume "same_tables db db1"
  then have "db_devices db1 = db_devices db" using same_tables_fields by metis
  with id_where_cases [where w = w and t = t and P = P and db = db1] PQ
  show "case f w t db1 of
       Inr x \<Rightarrow> x \<in> {dr_id r |r. r \<in> set (db_devices db) \<and> Q r}
     | Inl e \<Rightarrow> (errors_is e ErrNoRows \<longrightarrow> {dr_id r |r. r \<in> set (db_devices db) \<and> Q r} = {}) \<and>
                (e \<noteq> ErrNoRows \<longrightarrow> (\<exists>what. e = bad_input what))"
    by (auto simp: f split: sum.splits)
qed

lemma cast_all_Inr: "cast_all what f ss = Inr vs \<Longrightarrow> map Some vs = map f ss"
  by (induction ss arbitrary: vs) (auto split: option.splits sum.splits)

lemma cast_all_Inl: "cast_all what f ss = Inl e \<Longrightarrow> e = bad_input what"
  by (induction ss) (auto split: option.splits sum.splits)

lemma looks_up_macs:
  "looks_up w db (id_by_macs macs) {ir_device r |r. r \<in> set (db_ifaces db) \<and>
     (\<exists>m \<in> set macs. w_mac w m \<noteq> None \<and> ir_mac r = w_mac w m)}"
  unfolding id_by_macs_def
proof (rule looks_up_query, goal_cases)
  case (1 t db1)
  then have tab: "db_ifaces db1 = db_ifaces db" using same_tables_fields by metis
  show ?case
  proof (cases "cast_all ''macaddr'' (w_mac w) macs")
    case (Inl e)
    then show ?thesis using cast_all_Inl [OF Inl] by (auto simp: bad_input_def)
  next
    case (Inr ms)
    have eq: "(\<exists>m \<in> set ms. v = Some m) \<longleftrightarrow> (\<exists>m \<in> set macs. w_mac w m \<noteq> None \<and> v = w_mac w m)" for v
    proof -
      have "Some ` set ms = w_mac w ` set macs"
        using cast_all_Inr [OF Inr] by (metis list.set_map)
      then have "v \<in> Some ` set ms \<longleftrightarrow> v \<in> w_mac w ` set macs" by simp
      moreover have "v \<in> Some ` set ms \<longleftrightarrow> (\<exists>m \<in> set ms. v = Some m)" by auto
      ultimately have "(\<exists>m \<in> set ms. v = Some m) \<longleftrightarrow> (\<exists>m \<in> set macs. v = w_mac w m)"
        by (simp add: image_iff)
      then show ?thesis by (metis option.distinct(1))
    qed
    show ?thesis
      by (cases rule: first_row_cases [of w t "filter (\<lambda>r. \<exists>m \<in> set ms. ir_mac r = Some m) (db_ifaces db1)"])
         (auto simp: Inr tab eq filter_empty_conv)
  qed
qed

lemma looks_up_ip:
  "looks_up w db (id_by_ip ip) {dr_id r |r. r \<in> set (db_devices db) \<and>
     w_inet w ip \<noteq> None \<and> dr_ip r = w_inet w ip}"
proof (cases "w_inet w ip")
  case None
  then show ?thesis
    unfolding id_by_ip_def by (intro looks_up_query) (auto simp: bad_input_def)
next
  case (Some v)
  then show ?thesis
    unfolding id_by_ip_def by (intro looks_up_where [where P = "\<lambda>r. dr_ip r = Some v"]) auto
qed

lemma looks_up_hostname:
  "looks_up w db (id_by_hostname h) {dr_id r |r. r \<in> set (db_devices db) \<and>
     (\<exists>h'. dr_hostname r = Some h' \<and> w_lower w h' = w_lower w h)}"
  unfolding id_by_hostname_def
  by (rule looks_up_where
        [where P = "\<lambda>r. map_option (w_lower w) (dr_hostname r) = Some (w_lower w h)"]) auto

lemma looks_up_keys:
  "list_all2 (\<lambda>(b, q) (b', S). b = b' \<and> (b \<longrightarrow> looks_up w db q S)) (attempts d) (key_hits w db d)"
  unfolding attempts_def key_hits_def Let_def
proof (intro list.rel_intros, goal_cases)
  case 1
  show ?case unfolding id_by_serial_def by (simp add: looks_up_where)
next
  case 2
  show ?case unfolding id_by_guid_def by (simp add: looks_up_where)
next
  case 3
  show ?case using looks_up_macs [of w db "macsOf d"] by simp
next
  case 4
  show ?case using looks_up_hostname [of w db "d_hostname d"] by simp
next
  case 5
  show ?case
    by (cases "is_valid (d_ip d)")
       (use looks_up_ip [of w db "addr_string (d_ip d)"] in \<open>simp_all add: ipStr_def\<close>)
qed

lemma no_rows_looks_up:
  assumes l: "looks_up w db q S" and st: "same_tables db db1"
  obtains x where "no_rows_to [] q w db1 = (Inr x, tick db1)" and "x \<in> S"
    | "no_rows_to [] q w db1 = (Inr [], tick db1)" and "S = {}"
    | e where "no_rows_to [] q w db1 = (Inl e, tick db1)"
        and "quiet w \<longrightarrow> (\<exists>what. e = bad_input what)"
proof (cases "q w db1")
  case (Pair r db2)
  with l st have db2: "db2 = tick db1" by (auto simp: looks_up_def)
  show ?thesis
  proof (cases r)
    case (Inr x)
    with Pair db2 l st that(1) show ?thesis by (fastforce simp: looks_up_def no_rows_to_def)
  next
    case (Inl e)
    show ?thesis
    proof (cases "errors_is e ErrNoRows")
      case True
      with Pair Inl l st have "S = {}" unfolding looks_up_def by force
      with True Pair Inl db2 that(2) show ?thesis by (simp add: no_rows_to_def)
    next
      case False
      then have "e \<noteq> ErrNoRows" by auto
      with Pair Inl l st have "quiet w \<longrightarrow> (\<exists>what. e = bad_input what)"
        unfolding looks_up_def by force
      with False Pair Inl db2 that(3) show ?thesis by (simp add: no_rows_to_def)
    qed
  qed
qed

lemma run_attempts_spec:
  assumes "list_all2 (\<lambda>(b, q) (b', S). b = b' \<and> (b \<longrightarrow> looks_up w db q S)) as ks"
    and "\<forall>(b, S) \<in> set ks. [] \<notin> S" and "same_tables db db1"
    and "run_attempts as w db1 = (r, db2)"
  shows "same_tables db db2 \<and>
    (case r of
       Inr did \<Rightarrow> if first_hit ks = {} then did = [] else did \<in> first_hit ks
     | Inl e \<Rightarrow> quiet w \<longrightarrow> (\<exists>what. e = bad_input what))"
  using assms
proof (induction as ks arbitrary: db1 rule: list_all2_induct)
  case Nil
  then show ?case by auto
next
  case (Cons a as k ks)
  obtain b q S where a: "a = (b, q)" and k: "k = (b, S)" using Cons.hyps(1) by (cases a; cases k) auto
  show ?case
  proof (cases b)
    case False
    with Cons a k show ?thesis by (cases r) auto
  next
    case True
    with Cons.hyps(1) a k have "looks_up w db q S" by simp
    from no_rows_looks_up [OF this Cons.prems(2)] show ?thesis
    proof cases
      case (1 x)
      moreover have "x \<noteq> []" using 1 k Cons.prems(1) by auto
      ultimately show ?thesis using Cons.prems True a k by (auto simp: bind_sql_run)
    next
      case 2
      with Cons.prems True a have "run_attempts as w (tick db1) = (r, db2)"
        by (simp add: bind_sql_run)
      with Cons.IH [of "tick db1"] Cons.prems 2 k True show ?thesis by (cases r) simp_all
    next
      case (3 e)
      with Cons.prems True a show ?thesis by (auto simp: bind_sql_run)
    qed
  qed
qed

lemma key_hits_stored:
  assumes "db_inv db" and "(b, S) \<in> set (key_hits w db d)"
  shows "S \<subseteq> device_ids db" and "[] \<notin> S"
proof -
  have "ir_device ` set (db_ifaces db) \<subseteq> device_ids db" and ne: "[] \<notin> device_ids db"
    using assms(1) by (auto simp: db_inv_def children_ok_def devices_ok_def)
  then show "S \<subseteq> device_ids db" using assms(2) by (auto simp: key_hits_def device_ids_def)
  with ne show "[] \<notin> S" by blast
qed

lemma first_hit_mem: "x \<in> first_hit ks \<Longrightarrow> \<exists>b S. (b, S) \<in> set ks \<and> b \<and> x \<in> S"
  by (induction ks rule: first_hit.induct) (auto split: if_splits)

text \<open>What is stored about a device, as the diff sees it.\<close>

definition snapshot :: "db \<Rightarrow> string \<Rightarrow> existing" where
  "snapshot db did =
     (case find (\<lambda>r. dr_id r = did) (db_devices db) of
        None \<Rightarrow> no_existing
      | Some r \<Rightarrow>
          (let (osn, osv) = (case find (\<lambda>o1. or_device o1 = did) (db_os db) of
                               None \<Rightarrow> ([], [])
                             | Some o1 \<Rightarrow> (text_or_empty (or_name o1), text_or_empty (or_version o1)))
           in \<lparr>ex_type = dr_type r, ex_hostname = text_or_empty (dr_hostname r),
               ex_ip = text_or_empty (dr_ip r), ex_serial = text_or_empty (dr_serial r),
               ex_osname = osn, ex_osversion = osv\<rparr>))"

lemma filter_key_find:
  assumes "distinct (map f xs)"
  shows "filter (\<lambda>x. f x = k) xs = (case find (\<lambda>x. f x = k) xs of None \<Rightarrow> [] | Some x \<Rightarrow> [x])"
  using assms
proof (induction xs)
  case Nil
  then show ?case by simp
next
  case (Cons x xs)
  show ?case
  proof (cases "f x = k")
    case True
    with Cons.prems have "filter (\<lambda>x. f x = k) xs = []" by (auto simp: filter_empty_conv image_iff)
    with True show ?thesis by simp
  next
    case False
    with Cons show ?thesis by simp
  qed
qed

lemma find_device: "did \<in> device_ids db \<Longrightarrow>
    \<exists>r. find (\<lambda>r. dr_id r = did) (db_devices db) = Some r \<and> r \<in> set (db_devices db) \<and> dr_id r = did"
proof -
  assume "did \<in> device_ids db"
  then have "find (\<lambda>r. dr_id r = did) (db_devices db) \<noteq> None"
    by (auto simp: device_ids_def find_None_iff)
  then show ?thesis by (auto simp: find_Some_iff)
qed

lemma no_rows_to_db: "snd (no_rows_to x m w db) = snd (m w db)"
  by (auto simp: no_rows_to_def split: prod.splits sum.splits)

lemma resolve_tail:
  assumes inv: "db_inv db" and did: "did \<in> device_ids db"
    and r: "bind_sql (load_existing did) (\<lambda>ex.
            bind_sql (no_rows_to ([], []) (load_os did)) (\<lambda>(osn, osv).
              return_sql (did, ex\<lparr>ex_osname := osn, ex_osversion := osv\<rparr>))) w db = (x, db')"
  shows "same_tables db db' \<and>
    (case x of Inr y \<Rightarrow> y = (did, snapshot db did) | Inl e \<Rightarrow> \<not> quiet w)"
proof -
  obtain row where row: "find (\<lambda>r. dr_id r = did) (db_devices db) = Some row"
    using find_device [OF did] by blast
  have "filter (\<lambda>r. dr_id r = did) (db_devices db) = [row]"
    using filter_key_find [of dr_id "db_devices db" did] inv row by (simp add: db_inv_def devices_ok_def)
  then have ex: "fst (load_existing did w db1) =
      (case w_fails w (db_tick db1) of Some e \<Rightarrow> Inl (ErrPg e) | None \<Rightarrow> Inr (no_existing\<lparr>ex_type := dr_type row, ex_hostname := text_or_empty (dr_hostname row),
                    ex_ip := text_or_empty (dr_ip row), ex_serial := text_or_empty (dr_serial row)\<rparr>))"
    if "same_tables db db1" for db1
    using same_tables_fields [OF that]
    by (auto simp: load_existing_def query_def stmt_def Let_def split: option.splits)
  have "filter (\<lambda>r. or_device r = did) (db_os db) =
      (case find (\<lambda>r. or_device r = did) (db_os db) of None \<Rightarrow> [] | Some x \<Rightarrow> [x])"
    using filter_key_find [of or_device "db_os db" did] inv by (simp add: db_inv_def facts_ok_def)
  then have os: "fst (no_rows_to ([], []) (load_os did) w db1) =
      (case w_fails w (db_tick db1) of Some e \<Rightarrow> Inl (ErrPg e)
       | None \<Rightarrow> Inr (case find (\<lambda>o1. or_device o1 = did) (db_os db) of
                               None \<Rightarrow> ([], [])
                             | Some o1 \<Rightarrow> (text_or_empty (or_name o1), text_or_empty (or_version o1))))"
    if "same_tables db db1" for db1
    using same_tables_fields [OF that]
    by (auto simp: no_rows_to_def load_os_def query_def stmt_def Let_def split: option.splits)
  have tab: "snd (load_existing did w db1) = tick db1"
    "snd (no_rows_to ([], []) (load_os did) w db1) = tick db1" for db1
    by (simp_all only: no_rows_to_db load_existing_def load_os_def query_db)
  show ?thesis
  proof (cases "load_existing did w db")
    case (Pair ex' db1)
    with tab have db1: "db1 = tick db" by (metis snd_conv)
    show ?thesis
    proof (cases ex')
      case (Inl e)
      with r Pair db1 ex [of db] have "w_fails w (db_tick db) \<noteq> None" and "x = Inl e" and "db' = tick db"
        by (auto simp: bind_sql_run split: option.splits)
      then show ?thesis by (auto simp: quiet_def)
    next
      case Inr1: (Inr ex1)
      show ?thesis
      proof (cases "no_rows_to ([], []) (load_os did) w db1")
        case os1: (Pair o1 db2)
        with tab have db2: "db2 = tick db1" by (metis snd_conv)
        have st: "same_tables db db1" using db1 by simp
        show ?thesis
        proof (cases o1)
          case (Inl e)
          with r Pair Inr1 os1 db1 db2 os [OF st]
          have "w_fails w (db_tick db1) \<noteq> None" and "x = Inl e" and "db' = tick (tick db)"
            by (auto simp: bind_sql_run split: option.splits)
          then show ?thesis by (auto simp: quiet_def)
        next
          case (Inr os2)
          with r Pair Inr1 os1 db1 db2 os [OF st] ex [of db] row show ?thesis
            by (auto simp: bind_sql_run snapshot_def no_existing_def split: option.splits)
        qed
      qed
    qed
  qed
qed

lemma resolveDevice_spec:
  assumes inv: "db_inv db" and r: "resolveDevice d w db = (x, db')"
  shows "same_tables db db' \<and>
    (case x of
       Inr (did, ex) \<Rightarrow>
         if first_hit (key_hits w db d) = {} then did = [] \<and> ex = no_existing
         else did \<in> first_hit (key_hits w db d) \<and> did \<in> device_ids db \<and> ex = snapshot db did
     | Inl e \<Rightarrow> quiet w \<longrightarrow> (\<exists>what. e = bad_input what))"
proof (cases "run_attempts (attempts d) w db")
  case (Pair r1 db1)
  have ne: "\<forall>(b, S) \<in> set (key_hits w db d). [] \<notin> S" using key_hits_stored [OF inv] by auto
  from run_attempts_spec [OF looks_up_keys ne same_tables_refl Pair]
  have st: "same_tables db db1" and spec: "case r1 of
       Inr did \<Rightarrow> if first_hit (key_hits w db d) = {} then did = [] else did \<in> first_hit (key_hits w db d)
     | Inl e \<Rightarrow> quiet w \<longrightarrow> (\<exists>what. e = bad_input what)" by auto
  show ?thesis
  proof (cases r1)
    case (Inl e)
    with r Pair st spec show ?thesis by (auto simp: resolveDevice_def bind_sql_run)
  next
    case (Inr did)
    show ?thesis
    proof (cases "first_hit (key_hits w db d) = {}")
      case True
      with r Pair st spec Inr show ?thesis by (auto simp: resolveDevice_def bind_sql_run)
    next
      case False
      with spec Inr have hit: "did \<in> first_hit (key_hits w db d)" by simp
      then have did: "did \<in> device_ids db" and "did \<noteq> []"
        using first_hit_mem key_hits_stored [OF inv] by blast+
      have inv1: "db_inv db1" using inv st schema.ticks unfolding same_tables_def by metis
      have fields: "db_devices db1 = db_devices db" "db_os db1 = db_os db"
        using same_tables_fields [OF st] by simp_all
      have did1: "did \<in> device_ids db1" and snap: "snapshot db1 did = snapshot db did"
        using did by (simp_all only: device_ids_def snapshot_def fields)
      from r Pair Inr \<open>did \<noteq> []\<close> have "bind_sql (load_existing did) (\<lambda>ex.
            bind_sql (no_rows_to ([], []) (load_os did)) (\<lambda>(osn, osv).
              return_sql (did, ex\<lparr>ex_osname := osn, ex_osversion := osv\<rparr>))) w db1 = (x, db')"
        by (simp add: resolveDevice_def bind_sql_run)
      from resolve_tail [OF inv1 did1 this] same_tables_trans [OF st] hit did snap False
      show ?thesis by (auto split: sum.splits)
    qed
  qed
qed

end
