(* ===== verification/Upsert.thy ===== *)
theory Upsert
  imports DeviceSpec
begin

text \<open>
  \<open>UpsertDevice\<close> against an abstract specification: the whole transaction is one function
  on the tables. From it: which tables a scan may touch, what the change events say about
  the stored values, and that scanning an unchanged device again changes nothing.
\<close>

section \<open>The effect on the tables\<close>

text \<open>The one row of a device in a table with a row per device.\<close>

definition put_row :: "('r \<Rightarrow> string) \<Rightarrow> string \<Rightarrow> 'r \<Rightarrow> 'r list \<Rightarrow> 'r list" where
  "put_row key did row rows =
     (if did \<in> key ` set rows then update_where (\<lambda>r. key r = did) (\<lambda>_. row) rows
      else rows @ [row])"

definition the_iface_row :: "world \<Rightarrow> string \<Rightarrow> iface \<Rightarrow> iface_row" where
  "the_iface_row w did ifc =
     (case iface_row_of w did ifc of
        Inl e \<Rightarrow> \<lparr>ir_device = did, ir_name = None, ir_mac = None, ir_ip = None, ir_speed = None,
                  ir_vlan = None\<rparr>
      | Inr r \<Rightarrow> r)"

definition set_children :: "world \<Rightarrow> string \<Rightarrow> device \<Rightarrow> db \<Rightarrow> db" where
  "set_children w did d db =
     db\<lparr>db_ifaces := filter (\<lambda>r. ir_device r \<noteq> did) (db_ifaces db) @ map (the_iface_row w did) (d_ifaces d),
        db_sw := filter (\<lambda>r. sr_device r \<noteq> did) (db_sw db) @ map (sw_row_of did) (d_sw d),
        db_users := filter (\<lambda>r. ur_device r \<noteq> did) (db_users db) @ map (user_row_of did) (d_users d),
        db_os := (case d_os d of None \<Rightarrow> db_os db
                  | Some os \<Rightarrow> put_row or_device did (os_row_of did os) (db_os db)),
        db_hw := (case d_hw d of None \<Rightarrow> db_hw db
                  | Some hw \<Rightarrow> put_row hr_device did (hw_row_of did hw) (db_hw db))\<rparr>"

text \<open>The values of \<open>d\<close> that PostgreSQL accepts in the child tables.\<close>

definition hw_writable :: "hardware \<Rightarrow> bool" where
  "hw_writable hw \<longleftrightarrow> int4_ok (nullInt (hw_cores hw)) \<and> int8_ok (nullInt64 (hw_ram hw))"

definition iface_writable :: "world \<Rightarrow> iface \<Rightarrow> bool" where
  "iface_writable w ifc \<longleftrightarrow> (\<exists>row. iface_row_of w [] ifc = Inr row)"

definition writable :: "world \<Rightarrow> device \<Rightarrow> bool" where
  "writable w d \<longleftrightarrow>
     (\<forall>ifc \<in> set (d_ifaces d). iface_writable w ifc) \<and>
     (case d_hw d of None \<Rightarrow> True | Some hw \<Rightarrow> hw_writable hw)"

lemma iface_row_any: "(\<exists>row. iface_row_of w did ifc = Inr row) \<longleftrightarrow> iface_writable w ifc"
  by (auto simp: iface_row_of_def iface_writable_def split: sum.splits)

lemma iface_row_the: "iface_row_of w did ifc = Inr row \<Longrightarrow> the_iface_row w did ifc = row"
  by (simp add: the_iface_row_def)

section \<open>Loops of inserts\<close>

text \<open>
  A statement that, where it succeeds, acts as \<open>g\<close> on the tables and keeps its
  precondition; and one that does succeed on acceptable values.
\<close>

definition acts_as :: "world \<Rightarrow> (db \<Rightarrow> bool) \<Rightarrow> bool \<Rightarrow> unit sql \<Rightarrow> (db \<Rightarrow> db) \<Rightarrow> bool" where
  "acts_as w P ok m g \<longleftrightarrow>
     (\<forall>db. P db \<longrightarrow>
        (\<forall>db'. m w db = (Inr (), db') \<longrightarrow> ok \<and> same_tables db' (g db) \<and> P db') \<and>
        (quiet w \<longrightarrow> ok \<longrightarrow> (\<exists>db'. m w db = (Inr (), db')))) \<and>
     (\<forall>a b. same_tables a b \<longrightarrow> same_tables (g a) (g b))"

lemma acts_asI:
  assumes "\<And>db db'. P db \<Longrightarrow> m w db = (Inr (), db') \<Longrightarrow> ok \<and> same_tables db' (g db) \<and> P db'"
    and "\<And>db. P db \<Longrightarrow> quiet w \<Longrightarrow> ok \<Longrightarrow> \<exists>db'. m w db = (Inr (), db')"
    and "\<And>a b. same_tables a b \<Longrightarrow> same_tables (g a) (g b)"
  shows "acts_as w P ok m g"
  using assms unfolding acts_as_def by blast

lemma acts_asD:
  assumes "acts_as w P ok m g" and "P db" and "m w db = (Inr (), db')"
  shows "ok" and "same_tables db' (g db)" and "P db'"
  using assms unfolding acts_as_def by blast+

lemma acts_as_runs:
  assumes "acts_as w P ok m g" and "P db" and "quiet w" and "ok"
  obtains db' where "m w db = (Inr (), db')" and "same_tables db' (g db)" and "P db'"
  using assms unfolding acts_as_def by blast

lemma acts_as_cong: "acts_as w P ok m g \<Longrightarrow> same_tables a b \<Longrightarrow> same_tables (g a) (g b)"
  unfolding acts_as_def by blast

lemma acts_as_weaken:
  assumes "acts_as w P ok m g" and "ok = ok'" and "\<And>db. g db = g' db"
  shows "acts_as w P ok' m g'"
  using assms unfolding acts_as_def by simp

lemma acts_as_return: "acts_as w P True (return_sql ()) (\<lambda>db. db)"
  by (rule acts_asI) auto

lemma acts_as_bind:
  assumes m: "acts_as w P ok m g" and n: "acts_as w P ok' n h"
  shows "acts_as w P (ok \<and> ok') (bind_sql m (\<lambda>_. n)) (\<lambda>db. h (g db))"
proof (rule acts_asI)
  fix db db'
  assume "P db" and "bind_sql m (\<lambda>_. n) w db = (Inr (), db')"
  then obtain db1 where db1: "m w db = (Inr (), db1)" and n1: "n w db1 = (Inr (), db')"
    by (auto elim: bind_sql_InrE)
  from acts_asD [OF m \<open>P db\<close> db1] have "ok" and st: "same_tables db1 (g db)" and "P db1" by auto
  from acts_asD [OF n \<open>P db1\<close> n1] have "ok'" and "same_tables db' (h db1)" and "P db'" by auto
  with \<open>ok\<close> acts_as_cong [OF n st] show "(ok \<and> ok') \<and> same_tables db' (h (g db)) \<and> P db'"
    using same_tables_trans by blast
next
  fix db
  assume "P db" and "quiet w" and "ok \<and> ok'"
  then obtain db1 where "m w db = (Inr (), db1)" and "P db1" using acts_as_runs [OF m] by blast
  moreover from this obtain db2 where "n w db1 = (Inr (), db2)"
    using acts_as_runs [OF n] \<open>quiet w\<close> \<open>ok \<and> ok'\<close> by blast
  ultimately show "\<exists>db'. bind_sql m (\<lambda>_. n) w db = (Inr (), db')" by (auto simp: bind_sql_run)
qed (use acts_as_cong m n in blast)

lemma acts_as_iter:
  assumes "\<And>x. acts_as w P (ok x) (f x) (g x)"
  shows "acts_as w P (\<forall>x \<in> set xs. ok x) (iter_sql f xs) (fold g xs)"
proof (induction xs)
  case Nil
  then show ?case using acts_as_return [of w P] by (simp add: id_def del: return_sql_run)
next
  case (Cons x xs)
  from acts_as_bind [OF assms [of x] Cons] show ?case by (simp add: comp_def)
qed

lemma acts_as_option:
  assumes "\<And>x. acts_as w P (ok x) (f x) (g x)"
  shows "acts_as w P (case v of None \<Rightarrow> True | Some x \<Rightarrow> ok x)
     (case v of None \<Rightarrow> return_sql () | Some x \<Rightarrow> f x) (case v of None \<Rightarrow> (\<lambda>db. db) | Some x \<Rightarrow> g x)"
  by (cases v) (simp_all add: acts_as_return assms)

text \<open>A single statement acts as its function on the tables.\<close>

lemma acts_as_stmt:
  assumes f: "\<And>t db. P db \<Longrightarrow> f w t (tick db) = (if ok then Inr ((), g (tick db)) else Inl (e db))"
    and g: "\<And>db n. g (db\<lparr>db_tick := n\<rparr>) = (g db)\<lparr>db_tick := n\<rparr>"
    and P: "\<And>db. P db \<Longrightarrow> P (g (tick db))"
  shows "acts_as w P ok (stmt f) g"
proof (rule acts_asI)
  fix db db'
  assume "P db" and "stmt f w db = (Inr (), db')"
  then have "f w (db_tick db) (tick db) = Inr ((), db')" by (auto elim: stmt_InrE)
  with f [OF \<open>P db\<close>] have "ok" and "db' = g (tick db)" by (auto split: if_splits)
  moreover have "same_tables (g (tick db)) (g db)" by (simp add: g tick_def same_tables_def)
  ultimately show "ok \<and> same_tables db' (g db) \<and> P db'" using P [OF \<open>P db\<close>] by simp
next
  fix db
  assume "P db" and "quiet w" and "ok"
  then show "\<exists>db'. stmt f w db = (Inr (), db')" using f by (simp add: stmt_quiet)
next
  fix a b
  assume "same_tables a b"
  then have "g (a\<lparr>db_tick := 0\<rparr>) = g (b\<lparr>db_tick := 0\<rparr>)" by (simp add: same_tables_def)
  then show "same_tables (g a) (g b)" by (simp add: g same_tables_def)
qed

section \<open>The statements of an upsert\<close>

abbreviation stored :: "string \<Rightarrow> db \<Rightarrow> bool" where
  "stored did db \<equiv> did \<in> device_ids db"

lemma device_ids_tick [simp]: "device_ids (tick db) = device_ids db"
  by (simp add: tick_def)

lemma clear_acts:
  "acts_as w (stored did) True (clear_ifaces did)
     (\<lambda>db. db\<lparr>db_ifaces := filter (\<lambda>r. ir_device r \<noteq> did) (db_ifaces db)\<rparr>)"
  "acts_as w (stored did) True (clear_sw did)
     (\<lambda>db. db\<lparr>db_sw := filter (\<lambda>r. sr_device r \<noteq> did) (db_sw db)\<rparr>)"
  "acts_as w (stored did) True (clear_users did)
     (\<lambda>db. db\<lparr>db_users := filter (\<lambda>r. ur_device r \<noteq> did) (db_users db)\<rparr>)"
  unfolding clear_ifaces_def clear_sw_def clear_users_def
  by (rule acts_as_stmt; simp)+

lemma insert_iface_acts:
  "acts_as w (stored did) (iface_writable w ifc) (insert_iface did ifc)
     (\<lambda>db. db\<lparr>db_ifaces := db_ifaces db @ [the_iface_row w did ifc]\<rparr>)"
proof (cases "iface_row_of w did ifc")
  case (Inl e)
  moreover from this have "\<not> iface_writable w ifc" using iface_row_any [of w did ifc] by simp
  ultimately show ?thesis unfolding insert_iface_def
    by (intro acts_as_stmt [where e = "\<lambda>_. e"]) simp_all
next
  case (Inr row)
  moreover from this have "iface_writable w ifc" using iface_row_any [of w did ifc] by blast
  ultimately show ?thesis unfolding insert_iface_def
    by (intro acts_as_stmt) (simp_all add: iface_row_the)
qed

lemma insert_sw_acts:
  "acts_as w (stored did) True (insert_sw did sw) (\<lambda>db. db\<lparr>db_sw := db_sw db @ [sw_row_of did sw]\<rparr>)"
  unfolding insert_sw_def by (rule acts_as_stmt; simp)

lemma insert_user_acts:
  "acts_as w (stored did) True (insert_user did u)
     (\<lambda>db. db\<lparr>db_users := db_users db @ [user_row_of did u]\<rparr>)"
  unfolding insert_user_def by (rule acts_as_stmt; simp)

lemma upsert_os_acts:
  "acts_as w (stored did) True (upsert_os did os)
     (\<lambda>db. db\<lparr>db_os := put_row or_device did (os_row_of did os) (db_os db)\<rparr>)"
  unfolding upsert_os_def by (rule acts_as_stmt; simp add: put_row_def)

lemma upsert_hw_acts:
  "acts_as w (stored did) (hw_writable hw) (upsert_hw did hw)
     (\<lambda>db. db\<lparr>db_hw := put_row hr_device did (hw_row_of did hw) (db_hw db)\<rparr>)"
proof (cases "hw_writable hw")
  case True
  then show ?thesis unfolding upsert_hw_def hw_writable_def
    by (intro acts_as_stmt; simp add: put_row_def)
next
  case False
  then show ?thesis unfolding upsert_hw_def hw_writable_def
    by (intro acts_as_stmt [where e = "\<lambda>_. if \<not> int4_ok (nullInt (hw_cores hw))
        then bad_input ''integer'' else bad_input ''bigint''"]) auto
qed

definition run_known :: "string \<Rightarrow> db \<Rightarrow> bool" where
  "run_known run db \<longleftrightarrow> run = [] \<or> run \<in> rn_id ` set (db_runs db)"

lemma insert_change_acts:
  "acts_as w (\<lambda>db. stored did db \<and> run_known run db) True (insert_change did run ts ch)
     (\<lambda>db. db\<lparr>db_changes := db_changes db @ [change_row_of did run ts ch]\<rparr>)"
  unfolding insert_change_def by (rule acts_as_stmt; simp add: run_known_def)

lemma fold_appends:
  "fold (\<lambda>x db. db\<lparr>db_ifaces := db_ifaces db @ [f1 x]\<rparr>) xs db = db\<lparr>db_ifaces := db_ifaces db @ map f1 xs\<rparr>"
  "fold (\<lambda>x db. db\<lparr>db_sw := db_sw db @ [f2 x]\<rparr>) ys db = db\<lparr>db_sw := db_sw db @ map f2 ys\<rparr>"
  "fold (\<lambda>x db. db\<lparr>db_users := db_users db @ [f3 x]\<rparr>) zs db = db\<lparr>db_users := db_users db @ map f3 zs\<rparr>"
  "fold (\<lambda>x db. db\<lparr>db_changes := db_changes db @ [f4 x]\<rparr>) us db = db\<lparr>db_changes := db_changes db @ map f4 us\<rparr>"
  by (induction xs arbitrary: db, simp_all) (induction ys arbitrary: db, simp_all,
      induction zs arbitrary: db, simp_all, induction us arbitrary: db, simp_all)

lemma replaceChildren_acts:
  "acts_as w (stored did) (writable w d) (replaceChildren did d) (set_children w did d)"
proof -
  note rule = acts_as_bind [OF clear_acts(1) acts_as_bind [OF clear_acts(2) acts_as_bind
    [OF clear_acts(3) acts_as_bind [OF acts_as_iter [OF insert_iface_acts] acts_as_bind
    [OF acts_as_option [OF upsert_os_acts] acts_as_bind [OF acts_as_option [OF upsert_hw_acts]
     acts_as_bind [OF acts_as_iter [OF insert_sw_acts] acts_as_iter [OF insert_user_acts]]]]]]]]
  show ?thesis
    unfolding replaceChildren_def
    by (rule acts_as_weaken [OF rule])
       (auto simp: writable_def set_children_def fold_appends split: option.splits)
qed

section \<open>The transaction\<close>

definition stored_ip :: "world \<Rightarrow> device \<Rightarrow> string option" where
  "stored_ip w d = (if is_valid (d_ip d) then w_inet w (addr_string (d_ip d)) else None)"

definition ip_writable :: "world \<Rightarrow> device \<Rightarrow> bool" where
  "ip_writable w d \<longleftrightarrow> (is_valid (d_ip d) \<longrightarrow> w_inet w (addr_string (d_ip d)) \<noteq> None)"

lemma cast_ip:
  "cast_opt ''inet'' (w_inet w) (nullIP (d_ip d)) =
     (if ip_writable w d then Inr (stored_ip w d) else Inl (bad_input ''inet''))"
  by (auto simp: nullIP_def stored_ip_def ip_writable_def split: option.splits)

definition new_row :: "world \<Rightarrow> device \<Rightarrow> string \<Rightarrow> int \<Rightarrow> int \<Rightarrow> device_row" where
  "new_row w d did now upd =
     \<lparr>dr_id = did, dr_type = d_type d, dr_hostname = nullStr (d_hostname d), dr_ip = stored_ip w d,
      dr_serial = nullStr (d_serial d), dr_tag = nullStr (d_tag d), dr_guid = nullStr (d_guid d),
      dr_source = nullStr (d_source d), dr_first = now, dr_last = now, dr_updated = upd\<rparr>"

definition store_row :: "world \<Rightarrow> device \<Rightarrow> string \<Rightarrow> int \<Rightarrow> int \<Rightarrow> db \<Rightarrow> db" where
  "store_row w d did now upd db =
     db\<lparr>db_devices :=
       (if stored did db
        then update_where (\<lambda>r. dr_id r = did) (merge_row d (stored_ip w d) now) (db_devices db)
        else db_devices db @ [new_row w d did now upd])\<rparr>"

text \<open>The whole transaction on the tables.\<close>

definition upsert_effect ::
  "world \<Rightarrow> device \<Rightarrow> string \<Rightarrow> bool \<Rightarrow> string \<Rightarrow> change_event list \<Rightarrow> int \<Rightarrow> int \<Rightarrow> int \<Rightarrow> db \<Rightarrow> db" where
  "upsert_effect w d run collected did changes now upd ts db =
     (let db1 = store_row w d did now upd db;
          db2 = (if collected then set_children w did d db1 else db1)
      in db2\<lparr>db_changes := db_changes db2 @ map (change_row_of did run ts) changes\<rparr>)"

text \<open>A serial or GUID of \<open>d\<close> that another device already carries.\<close>

definition identity_free :: "device \<Rightarrow> string \<Rightarrow> db \<Rightarrow> bool" where
  "identity_free d did db \<longleftrightarrow>
     \<not> taken dr_serial (nullStr (d_serial d)) did (db_devices db) \<and>
     \<not> taken dr_guid (nullStr (d_guid d)) did (db_devices db)"

lemma insert_device_InrE:
  assumes "insert_device d now w db = (Inr did, db')"
  obtains upd where "db' = tick (store_row w d did now upd db)" and "\<not> stored did db"
    and "did \<noteq> []" and "ip_writable w d" and "identity_free d did db"
proof -
  from assms obtain upd where "db' = (tick db)\<lparr>db_devices := db_devices db @ [new_row w d did now upd]\<rparr>"
    and "\<not> stored did db" "did \<noteq> []" "ip_writable w d" "identity_free d did db"
    by (auto simp: insert_device_def cast_ip Let_def new_row_def identity_free_def
             elim!: stmt_InrE split: if_splits)
  with that [of upd] show ?thesis by (simp add: store_row_def tick_def)
qed

lemma update_device_acts:
  assumes "stored did db" and "did \<noteq> []"
  shows "update_device did d now w db = (Inr (), db') \<Longrightarrow>
     db' = tick (store_row w d did now upd db) \<and> ip_writable w d \<and> identity_free d did db"
  using assms
  by (auto simp: update_device_def cast_ip identity_free_def store_row_def tick_def
           elim!: stmt_InrE split: if_splits)

lemma changes_act:
  assumes "iter_sql (insert_change did run ts) changes w db = (Inr (), db')" and "stored did db"
  shows "same_tables db' (db\<lparr>db_changes := db_changes db @ map (change_row_of did run ts) changes\<rparr>)"
proof (cases changes)
  case Nil
  with assms show ?thesis by simp
next
  case (Cons c cs)
  with assms(1) obtain db1 where "insert_change did run ts c w db = (Inr (), db1)"
    by (auto elim: bind_sql_InrE)
  then have "run_known run db"
    by (auto simp: insert_change_def run_known_def elim!: stmt_InrE split: if_splits)
  with acts_asD(2) [OF acts_as_iter [OF insert_change_acts] _ assms(1)] assms(2)
  show ?thesis by (simp add: fold_appends)
qed

lemma stored_store_row: "stored x (store_row w d did now upd db) \<longleftrightarrow> stored x db \<or> x = did"
proof (cases "stored did db")
  case True
  then show ?thesis
    by (auto simp: store_row_def device_ids_def image_update_where [of dr_id])
next
  case False
  then show ?thesis by (auto simp: store_row_def device_ids_def new_row_def)
qed

lemma same_tables_cong_changes:
  "same_tables a b \<Longrightarrow> same_tables (a\<lparr>db_changes := db_changes a @ cs\<rparr>) (b\<lparr>db_changes := db_changes b @ cs\<rparr>)"
  by (cases a, cases b) (simp add: same_tables_def)

lemma same_tables_store_row:
  "same_tables a b \<Longrightarrow> same_tables (store_row w d did now upd a) (store_row w d did now upd b)"
  by (cases a, cases b) (simp add: same_tables_def store_row_def device_ids_def)

lemma stored_same: "same_tables a b \<Longrightarrow> stored x a = stored x b"
  by (metis device_ids_def same_tables_fields)

lemma write_device_effect:
  assumes w: "write_device found d run collected ts w db = (Inr (did, changes), db')"
    and f: "fst found = [] \<or> stored (fst found) db"
  shows "\<exists>now upd. same_tables db' (upsert_effect w d run collected did changes now upd ts db) \<and>
    changes = (if fst found = [] then [] else diffDevice (snd found) d) \<and>
    (if fst found = [] then \<not> stored did db else did = fst found) \<and> did \<noteq> [] \<and>
    (collected \<longrightarrow> writable w d) \<and> ip_writable w d \<and> identity_free d did db"
proof -
  define now where "now = w_clock w (db_tick db)"
  let ?row = "if fst found = []
           then bind_sql (insert_device d now) (\<lambda>did. return_sql (did, []))
           else bind_sql (update_device (fst found) d now)
                  (\<lambda>_. return_sql (fst found, diffDevice (snd found) d))"
  have "bind_sql ?row (\<lambda>(did, changes).
     bind_sql (if collected then replaceChildren did d else return_sql ()) (\<lambda>_.
     bind_sql (iter_sql (insert_change did run ts) changes) (\<lambda>_.
       return_sql (did, changes)))) w db = (Inr (did, changes), db')"
    using w unfolding write_device_def now_def by (simp only: bind_sql_def time_now_def prod.case sum.case)
  then obtain p1 db1 where row1: "?row w db = (Inr p1, db1)"
    and rest1: "(case p1 of (did, changes) \<Rightarrow>
     bind_sql (if collected then replaceChildren did d else return_sql ()) (\<lambda>_.
     bind_sql (iter_sql (insert_change did run ts) changes) (\<lambda>_.
       return_sql (did, changes)))) w db1 = (Inr (did, changes), db')"
    by (rule bind_sql_InrE)
  obtain did1 changes1 where p1: "p1 = (did1, changes1)" by (cases p1)
  from rest1 p1 obtain db2
    where ch: "(if collected then replaceChildren did1 d else return_sql ()) w db1 = (Inr (), db2)"
    and "bind_sql (iter_sql (insert_change did1 run ts) changes1) (\<lambda>_.
       return_sql (did1, changes1)) w db2 = (Inr (did, changes), db')"
    by (auto elim: bind_sql_InrE)
  then have cs: "iter_sql (insert_change did1 run ts) changes1 w db2 = (Inr (), db')"
    and eq: "did = did1" "changes = changes1"
    by (auto elim!: bind_sql_InrE)
  from row1 p1 have row: "?row w db = (Inr (did1, changes1), db1)" by simp
  obtain upd where db1: "db1 = tick (store_row w d did now upd db)"
    and props: "changes = (if fst found = [] then [] else diffDevice (snd found) d)"
      "if fst found = [] then \<not> stored did db else did = fst found" "did \<noteq> []"
      "ip_writable w d" "identity_free d did db"
  proof (cases "fst found = []")
    case True
    with row eq have "insert_device d now w db = (Inr did, db1)" and "changes = []"
      by (auto elim!: bind_sql_InrE)
    with True that show ?thesis by (auto elim!: insert_device_InrE)
  next
    case False
    with row eq f have "update_device did d now w db = (Inr (), db1)" and "did = fst found"
      and "changes = diffDevice (snd found) d" by (auto elim!: bind_sql_InrE)
    with False f that update_device_acts [of did db d now w db1] show ?thesis by simp
  qed
  have st1: "stored did db1" by (simp add: db1 stored_store_row)
  have ch': "same_tables db2 (if collected then set_children w did d db1 else db1) \<and>
      (collected \<longrightarrow> writable w d) \<and> stored did db2"
  proof (cases collected)
    case True
    with ch eq have "replaceChildren did d w db1 = (Inr (), db2)" by simp
    from acts_asD [OF replaceChildren_acts st1 this] True show ?thesis by simp
  next
    case False
    with ch st1 show ?thesis by simp
  qed
  have "same_tables (if collected then set_children w did d db1 else db1)
      (if collected then set_children w did d (store_row w d did now upd db) else store_row w d did now upd db)"
    using acts_as_cong [OF replaceChildren_acts, of db1 "store_row w d did now upd db"]
    by (simp add: db1)
  with ch' have "same_tables db2
      (if collected then set_children w did d (store_row w d did now upd db) else store_row w d did now upd db)"
    using same_tables_trans by blast
  from same_tables_cong_changes [OF this] changes_act [OF cs] ch' eq
  have "same_tables db' (upsert_effect w d run collected did changes now upd ts db)"
    unfolding upsert_effect_def Let_def using same_tables_trans by blast
  with props ch' show ?thesis by blast
qed

lemma first_hit_stored: "db_inv db \<Longrightarrow> x \<in> first_hit (key_hits w db d) \<Longrightarrow> stored x db"
  using first_hit_mem key_hits_stored(1) by blast

lemma key_hits_same: "same_tables a b \<Longrightarrow> key_hits w a d = key_hits w b d"
  using same_tables_fields [of a b] by (simp add: key_hits_def)

lemma UpsertDevice_effect_body:
  assumes inv: "db_inv db"
    and u: "bind_sql (resolveDevice d) (\<lambda>found. write_device found d run collected ts) w (tick db) =
      (Inr (did, changes), db2)"
    and db': "same_tables db' db2"
  shows "\<exists>now upd ts. same_tables db' (upsert_effect w d run collected did changes now upd ts db) \<and>
    changes = (if stored did db then diffDevice (snapshot db did) d else []) \<and>
    (if first_hit (key_hits w db d) = {} then \<not> stored did db
     else did \<in> first_hit (key_hits w db d)) \<and>
    did \<noteq> [] \<and> (collected \<longrightarrow> writable w d) \<and> ip_writable w d \<and> identity_free d did db"
proof -
  from u obtain db1 found where r: "resolveDevice d w (tick db) = (Inr found, db1)"
    and wr: "write_device found d run collected ts w db1 = (Inr (did, changes), db2)"
    by (rule bind_sql_InrE)
  let ?ks = "key_hits w db d"
  have inv1: "db_inv (tick db)" using inv by (simp add: schema.tick_inv)
  obtain did0 ex where found: "found = (did0, ex)" by (cases found)
  have ks: "key_hits w (tick db) d = ?ks" by (rule key_hits_same) simp
  have snap: "snapshot (tick db) x = snapshot db x" for x by (simp only: snapshot_def tick_tables)
  from resolveDevice_spec [OF inv1 r]
  have st: "same_tables db db1" and hit: "if first_hit ?ks = {} then did0 = [] \<and> ex = no_existing
         else did0 \<in> first_hit ?ks \<and> stored did0 db \<and> ex = snapshot db did0"
    unfolding found ks snap device_ids_tick by simp_all
  have ne: "did0 = [] \<longleftrightarrow> first_hit ?ks = {}"
    using hit inv by (auto simp: db_inv_def devices_ok_def split: if_splits)
  have "fst found = [] \<or> stored (fst found) db1"
    using hit found stored_same [OF st] by (auto split: if_splits)
  from write_device_effect [OF wr this, unfolded found fst_conv snd_conv] obtain now upd
    where eff: "same_tables db2 (upsert_effect w d run collected did changes now upd ts db1)"
      and ch: "changes = (if did0 = [] then [] else diffDevice ex d)"
      and did: "if did0 = [] then \<not> stored did db1 else did = did0" "did \<noteq> []"
      and rest: "collected \<longrightarrow> writable w d" "ip_writable w d" "identity_free d did db1"
    by blast
  have "same_tables (upsert_effect w d run collected did changes now upd ts db1)
      (upsert_effect w d run collected did changes now upd ts db)"
  proof -
    have "same_tables db1 db" using st by (simp add: same_tables_def)
    from same_tables_store_row [OF this] have s: "same_tables (store_row w d did now upd db1) (store_row w d did now upd db)" .
    from acts_as_cong [OF replaceChildren_acts s] s
    have "same_tables (if collected then set_children w did d (store_row w d did now upd db1) else store_row w d did now upd db1)
       (if collected then set_children w did d (store_row w d did now upd db) else store_row w d did now upd db)"
      by simp
    from same_tables_cong_changes [OF this] show ?thesis by (simp add: upsert_effect_def Let_def)
  qed
  with eff db' have "same_tables db' (upsert_effect w d run collected did changes now upd ts db)"
    using same_tables_trans by blast
  moreover have "identity_free d did db"
    using rest(3) same_tables_fields [OF st] by (simp add: identity_free_def)
  moreover have "changes = (if stored did db then diffDevice (snapshot db did) d else [])"
    using ch did hit ne stored_same [OF st] by (auto split: if_splits)
  moreover have "if first_hit ?ks = {} then \<not> stored did db else did \<in> first_hit ?ks"
    using did hit ne stored_same [OF st] by (auto split: if_splits)
  ultimately show ?thesis using did(2) rest by blast
qed

section \<open>The specification as a relation\<close>

text \<open>
  What a successful upsert may do: the row it resolves to by the identity priority (or a new
  row where no key hits), its effect on the tables, the changes of a known row against
  what was stored.
\<close>

definition upsert_spec ::
  "world \<Rightarrow> device \<Rightarrow> string \<Rightarrow> bool \<Rightarrow> db \<Rightarrow> string \<Rightarrow> change_event list \<Rightarrow> db \<Rightarrow> bool" where
  "upsert_spec w d run collected db did changes db' \<longleftrightarrow>
     (\<exists>now upd ts. same_tables db' (upsert_effect w d run collected did changes now upd ts db)) \<and>
     changes = (if stored did db then diffDevice (snapshot db did) d else []) \<and>
     (if first_hit (key_hits w db d) = {} then \<not> stored did db
      else did \<in> first_hit (key_hits w db d)) \<and>
     did \<noteq> [] \<and> (collected \<longrightarrow> writable w d) \<and> ip_writable w d \<and> identity_free d did db"

lemma upsert_body_spec:
  assumes "db_inv db"
    and "bind_sql (resolveDevice d) (\<lambda>found. write_device found d run collected ts) w (tick db) =
      (Inr (did, changes), db2)"
    and "same_tables db' db2"
  shows "upsert_spec w d run collected db did changes db'"
  using UpsertDevice_effect_body [OF assms] unfolding upsert_spec_def by blast

lemma UpsertDevice_spec:
  assumes "db_inv db" and "UpsertDevice d run collected w db = (Inr (did, changes), db')"
  shows "upsert_spec w d run collected db did changes db'"
proof -
  from assms(2) obtain ts db2 where
    b: "bind_sql (resolveDevice d) (\<lambda>found. write_device found d run collected ts) w (tick db) =
      (Inr (did, changes), db2)" and "db' = tick db2"
    unfolding UpsertDevice_def by (rule tx_InrE) blast
  then show ?thesis using upsert_body_spec [OF assms(1) b] by simp
qed

text \<open>
  (C1) \<open>UpsertDevice\<close> is atomic and does what it promises. When it returns, the tables are
  exactly the specification's (the row the identity priority selects, or a new one, updated
  field by field; the children replaced when something was collected; one change event per
  changed field). When it fails, the tables are untouched, except where the commit itself
  went through and only its answer was lost: then the whole effect is there.
\<close>

theorem UpsertDevice_atomic:
  assumes "db_inv db" and "UpsertDevice d run collected w db = (r, db')"
  shows "case r of
      Inr (did, changes) \<Rightarrow> upsert_spec w d run collected db did changes db'
    | Inl e \<Rightarrow> same_tables db db' \<or>
        (\<exists>t did changes. w_lost w t \<and> upsert_spec w d run collected db did changes db')"
proof (cases r)
  case (Inr x)
  with assms show ?thesis by (cases x) (simp add: UpsertDevice_spec)
next
  case (Inl e)
  with assms(2) have "tx (\<lambda>begun. bind_sql (resolveDevice d)
      (\<lambda>found. write_device found d run collected begun)) w db = (Inl e, db')"
    by (simp add: UpsertDevice_def)
  from tx_error [OF this] show ?thesis
  proof (elim disjE exE conjE)
    fix ts x db2
    assume b: "bind_sql (resolveDevice d) (\<lambda>found. write_device found d run collected ts) w (tick db) =
        (Inr x, db2)" and db': "db' = tick db2" and lost: "w_lost w (db_tick db2)"
    obtain did changes where x: "x = (did, changes)" by (cases x)
    from upsert_body_spec [OF assms(1) b [unfolded x]] db' have
      "upsert_spec w d run collected db did changes db'" by simp
    with lost Inl show ?thesis by auto
  qed (simp add: Inl)
qed

definition demo_device :: device where
  "demo_device = empty_device\<lparr>d_type := ''linux'', d_hostname := ''web1'', d_ip := A4 0x0A000005,
     d_serial := ''S1'', d_source := ''ssh'',
     d_os := Some (empty_osinfo\<lparr>os_name := ''Debian'', os_version := ''12''\<rparr>),
     d_sw := [empty_software\<lparr>sw_name := ''nginx''\<rparr>]\<rparr>"

text \<open>The equations that run an upsert on a concrete database in a quiet world.\<close>

lemmas upsert_eval = UpsertDevice_def tx_quiet resolveDevice_def attempts_def macsOf_eq
  id_by_serial_def id_by_guid_def id_by_macs_def id_by_hostname_def id_by_ip_def id_where_def
  query_quiet stmt_quiet no_rows_to_def bind_sql_def load_existing_def load_os_def
  write_device_def time_now_def insert_device_def update_device_def replaceChildren_def
  clear_ifaces_def clear_sw_def clear_users_def insert_iface_def upsert_os_def upsert_hw_def
  insert_sw_def insert_user_def insert_change_def diffDevice_def add_change_def taken_def
  device_ids_def update_where_def merge_row_def nullStr_def nullIP_def ipStr_def tick_def
  roll_back_def nullDate_def os_row_of_def sw_row_of_def user_row_of_def change_row_of_def

lemmas demo_eval = upsert_eval demo_device_def empty_db_def zero_value_defs Let_def

lemma demo_first_scan:
  "fst (UpsertDevice demo_device [] True demo_world empty_db) =
     Inr (new_uuid demo_world (Suc (Suc (Suc (Suc 0)))), [])"
  by (simp add: demo_eval)

lemma UpsertDevice_atomic_witness:
  "upsert_spec demo_world demo_device [] True empty_db (new_uuid demo_world (Suc (Suc (Suc (Suc 0))))) []
     (snd (UpsertDevice demo_device [] True demo_world empty_db))"
  using UpsertDevice_atomic [OF db_inv_empty surjective_pairing, of demo_device "[]" True demo_world]
  by (simp add: demo_first_scan)

end
