(* ===== verification/Rescan.thy ===== *)
theory Rescan
  imports Upsert
begin

text \<open>
  Consequences of the upsert's specification: what a scan leaves alone, what the change
  events say about the stored values, and that a scan of an unchanged device finds itself
  and reports nothing. The last section holds the inputs on which the code does not do
  what its comments promise.
\<close>

section \<open>What an upsert leaves alone\<close>

definition others_same :: "string \<Rightarrow> db \<Rightarrow> db \<Rightarrow> bool" where
  "others_same did a b \<longleftrightarrow>
     filter (\<lambda>r. dr_id r \<noteq> did) (db_devices a) = filter (\<lambda>r. dr_id r \<noteq> did) (db_devices b) \<and>
     filter (\<lambda>r. ir_device r \<noteq> did) (db_ifaces a) = filter (\<lambda>r. ir_device r \<noteq> did) (db_ifaces b) \<and>
     filter (\<lambda>r. or_device r \<noteq> did) (db_os a) = filter (\<lambda>r. or_device r \<noteq> did) (db_os b) \<and>
     filter (\<lambda>r. hr_device r \<noteq> did) (db_hw a) = filter (\<lambda>r. hr_device r \<noteq> did) (db_hw b) \<and>
     filter (\<lambda>r. sr_device r \<noteq> did) (db_sw a) = filter (\<lambda>r. sr_device r \<noteq> did) (db_sw b) \<and>
     filter (\<lambda>r. ur_device r \<noteq> did) (db_users a) = filter (\<lambda>r. ur_device r \<noteq> did) (db_users b) \<and>
     filter (\<lambda>r. cg_device r \<noteq> did) (db_changes a) = filter (\<lambda>r. cg_device r \<noteq> did) (db_changes b) \<and>
     db_rels a = db_rels b \<and> db_creds a = db_creds b \<and> db_targets a = db_targets b \<and>
     db_scheds a = db_scheds b \<and> db_runs a = db_runs b \<and> db_events a = db_events b \<and>
     db_appusers a = db_appusers b \<and> db_audit a = db_audit b"

definition same_children :: "db \<Rightarrow> db \<Rightarrow> bool" where
  "same_children a b \<longleftrightarrow>
     db_ifaces a = db_ifaces b \<and> db_sw a = db_sw b \<and> db_users a = db_users b \<and>
     db_os a = db_os b \<and> db_hw a = db_hw b"

text \<open>The children of \<open>did\<close> are those of \<open>d\<close>, no older row left.\<close>

definition children_match :: "world \<Rightarrow> string \<Rightarrow> device \<Rightarrow> db \<Rightarrow> bool" where
  "children_match w did d db \<longleftrightarrow>
     filter (\<lambda>r. ir_device r = did) (db_ifaces db) = map (the_iface_row w did) (d_ifaces d) \<and>
     filter (\<lambda>r. sr_device r = did) (db_sw db) = map (sw_row_of did) (d_sw d) \<and>
     filter (\<lambda>r. ur_device r = did) (db_users db) = map (user_row_of did) (d_users d)"

lemma filter_update_other:
  "(\<And>r. key r = did \<Longrightarrow> key (f r) = did) \<Longrightarrow>
   filter (\<lambda>r. key r \<noteq> did) (update_where (\<lambda>r. key r = did) f rows) = filter (\<lambda>r. key r \<noteq> did) rows"
  by (induction rows) (auto simp: update_where_def)

lemma filter_put_other:
  "key row = did \<Longrightarrow> filter (\<lambda>r. key r \<noteq> did) (put_row key did row rows) = filter (\<lambda>r. key r \<noteq> did) rows"
  by (simp add: put_row_def filter_update_other)

lemma the_iface_device: "ir_device (the_iface_row w did ifc) = did"
  by (auto simp: the_iface_row_def dest: iface_row_device split: sum.splits)

lemma row_devices [simp]:
  "sr_device (sw_row_of did sw) = did" "ur_device (user_row_of did u) = did"
  "cg_device (change_row_of did run ts ch) = did" "dr_id (new_row w d did now upd) = did"
  "ir_device (the_iface_row w did ifc) = did"
  by (simp_all add: sw_row_of_def user_row_of_def change_row_of_def new_row_def the_iface_device)

lemma same_tables_all:
  "same_tables a b \<Longrightarrow> db_creds a = db_creds b \<and> db_targets a = db_targets b \<and>
     db_scheds a = db_scheds b \<and> db_events a = db_events b \<and>
     db_appusers a = db_appusers b \<and> db_audit a = db_audit b"
  by (cases a, cases b) (simp add: same_tables_def)

lemma others_same_effect: "others_same did (upsert_effect w d run c did ch now upd ts db) db"
proof -
  have "others_same did (store_row w d did now upd db) db"
    by (auto simp: others_same_def store_row_def filter_update_other)
  moreover have "others_same did (set_children w did d db1) db1" for db1
    by (auto simp: others_same_def set_children_def filter_put_other split: option.splits)
  ultimately show ?thesis by (simp add: upsert_effect_def Let_def others_same_def)
qed

lemma same_children_effect:
  "\<not> c \<Longrightarrow> same_children (upsert_effect w d run c did ch now upd ts db) db"
  by (simp add: upsert_effect_def Let_def same_children_def store_row_def)

lemma children_match_effect:
  "c \<Longrightarrow> children_match w did d (upsert_effect w d run c did ch now upd ts db)"
  by (simp add: upsert_effect_def Let_def children_match_def set_children_def filter_empty_conv o_def)

lemma others_same_tables: "same_tables a b \<Longrightarrow> others_same did b c \<Longrightarrow> others_same did a c"
  using same_tables_fields [of a b] same_tables_all [of a b] by (simp add: others_same_def)

text \<open>
  (C12) A successful upsert touches one device. Every row of every other device and all other
  tables are as before; a pass in which nothing was collected leaves all children,
  operating system and hardware facts alone; a pass that collected replaces the device's
  interfaces, software and accounts by exactly the collected ones.
\<close>

theorem upsert_touches_one_device:
  assumes "db_inv db" and "UpsertDevice d run collected w db = (Inr (did, changes), db')"
  shows "others_same did db' db \<and>
    (if collected then children_match w did d db' else same_children db' db)"
proof -
  from UpsertDevice_spec [OF assms] obtain now upd ts
    where st: "same_tables db' (upsert_effect w d run collected did changes now upd ts db)"
    unfolding upsert_spec_def by blast
  note f = same_tables_fields [OF st]
  have "others_same did db' db" by (rule others_same_tables [OF st others_same_effect])
  moreover have "same_children db' db" if "\<not> collected"
    using same_children_effect [OF that] f by (simp add: same_children_def)
  moreover have "children_match w did d db'" if collected
    using children_match_effect [OF that] f by (simp add: children_match_def)
  ultimately show ?thesis by simp
qed

lemma upsert_touches_one_device_witness:
  "others_same (new_uuid demo_world (Suc (Suc (Suc (Suc 0)))))
     (snd (UpsertDevice demo_device [] True demo_world empty_db)) empty_db"
proof -
  have "UpsertDevice demo_device [] True demo_world empty_db =
     (Inr (new_uuid demo_world (Suc (Suc (Suc (Suc 0)))), []),
      snd (UpsertDevice demo_device [] True demo_world empty_db))"
    using demo_first_scan by (metis prod.collapse)
  from upsert_touches_one_device [OF db_inv_empty this] show ?thesis by blast
qed

section \<open>The stored values afterwards\<close>

text \<open>The snapshot after an upsert, from the one before it.\<close>

definition next_snapshot :: "world \<Rightarrow> device \<Rightarrow> bool \<Rightarrow> bool \<Rightarrow> existing \<Rightarrow> existing" where
  "next_snapshot w d collected known ex =
     \<lparr>ex_type = (if known \<and> d_type d = ''unknown'' then ex_type ex else d_type d),
      ex_hostname = (if d_hostname d = [] then ex_hostname ex else d_hostname d),
      ex_ip = (case stored_ip w d of None \<Rightarrow> ex_ip ex | Some v \<Rightarrow> v),
      ex_serial = (if d_serial d = [] then ex_serial ex else d_serial d),
      ex_osname = (case d_os d of None \<Rightarrow> ex_osname ex
                   | Some os \<Rightarrow> if collected then os_name os else ex_osname ex),
      ex_osversion = (case d_os d of None \<Rightarrow> ex_osversion ex
                      | Some os \<Rightarrow> if collected then os_version os else ex_osversion ex)\<rparr>"

lemma find_update_where:
  "(\<And>r. key r = did \<Longrightarrow> key (f r) = did) \<Longrightarrow>
   find (\<lambda>r. key r = did) (update_where (\<lambda>r. key r = did) f rows) =
     map_option f (find (\<lambda>r. key r = did) rows)"
  by (induction rows) (auto simp: update_where_def)

lemma find_append_key:
  "did \<notin> key ` set rows \<Longrightarrow> key row = did \<Longrightarrow> find (\<lambda>r. key r = did) (rows @ [row]) = Some row"
  by (induction rows) auto

lemma find_put_row:
  "key row = did \<Longrightarrow> find (\<lambda>r. key r = did) (put_row key did row rows) = Some row"
proof (cases "did \<in> key ` set rows")
  case True
  moreover assume "key row = did"
  moreover from True have "find (\<lambda>r. key r = did) rows \<noteq> None" by (auto simp: find_None_iff)
  ultimately show ?thesis by (auto simp: put_row_def find_update_where)
qed (simp add: put_row_def find_append_key)

lemma text_null [simp]: "text_or_empty (nullStr s) = s"
  by (simp add: nullStr_def)

lemma text_coalesce: "text_or_empty (coalesce (nullStr s) v) = (if s = [] then text_or_empty v else s)"
  by (simp add: nullStr_def)

definition os_facts :: "db \<Rightarrow> string \<Rightarrow> string \<times> string" where
  "os_facts db did =
     (case find (\<lambda>o1. or_device o1 = did) (db_os db) of
        None \<Rightarrow> ([], [])
      | Some o1 \<Rightarrow> (text_or_empty (or_name o1), text_or_empty (or_version o1)))"

definition row_snapshot :: "device_row \<Rightarrow> string \<times> string \<Rightarrow> existing" where
  "row_snapshot r os =
     \<lparr>ex_type = dr_type r, ex_hostname = text_or_empty (dr_hostname r),
      ex_ip = text_or_empty (dr_ip r), ex_serial = text_or_empty (dr_serial r),
      ex_osname = fst os, ex_osversion = snd os\<rparr>"

lemma snapshot_alt:
  "snapshot db did =
     (case find (\<lambda>r. dr_id r = did) (db_devices db) of
        None \<Rightarrow> no_existing | Some r \<Rightarrow> row_snapshot r (os_facts db did))"
  by (auto simp: snapshot_def row_snapshot_def os_facts_def split: option.splits prod.splits)

lemma find_SomeD: "find P xs = Some x \<Longrightarrow> x \<in> set xs \<and> P x"
  by (auto simp: find_Some_iff)

lemma snapshot_new: "\<not> stored did db \<Longrightarrow> snapshot db did = no_existing"
  by (auto simp: snapshot_alt device_ids_def find_None_iff split: option.splits dest!: find_SomeD)

lemma snapshot_effect:
  assumes inv: "db_inv db" and st: "same_tables db' (upsert_effect w d run c did ch now upd ts db)"
  shows "snapshot db' did = next_snapshot w d c (stored did db) (snapshot db did)"
proof -
  let ?db = "upsert_effect w d run c did ch now upd ts db"
  have dev: "db_devices db' = db_devices (store_row w d did now upd db)"
    using same_tables_fields [OF st] by (simp add: upsert_effect_def Let_def set_children_def)
  have "db_os db' = (if c then (case d_os d of None \<Rightarrow> db_os db
                  | Some os \<Rightarrow> put_row or_device did (os_row_of did os) (db_os db)) else db_os db)"
    using same_tables_fields [OF st]
    by (simp add: upsert_effect_def Let_def set_children_def store_row_def split: option.splits)
  then have os: "os_facts db' did = (case d_os d of None \<Rightarrow> os_facts db did
       | Some os \<Rightarrow> if c then (os_name os, os_version os) else os_facts db did)"
    by (auto simp: os_facts_def find_put_row split: option.splits) (auto simp: os_row_of_def)
  show ?thesis
  proof (cases "stored did db")
    case True
    then obtain r where r: "find (\<lambda>r. dr_id r = did) (db_devices db) = Some r"
      using find_device by blast
    then have "find (\<lambda>r. dr_id r = did) (db_devices db') = Some (merge_row d (stored_ip w d) now r)"
      by (simp add: dev store_row_def True find_update_where)
    with r have "snapshot db' did = row_snapshot (merge_row d (stored_ip w d) now r) (os_facts db' did)"
      and "snapshot db did = row_snapshot r (os_facts db did)" by (simp_all add: snapshot_alt)
    with os True show ?thesis
      by (cases "d_os d"; cases "stored_ip w d";
          simp add: row_snapshot_def merge_row_def next_snapshot_def text_coalesce)
  next
    case False
    then have "find (\<lambda>r. dr_id r = did) (db_devices db') = Some (new_row w d did now upd)"
      by (simp add: dev store_row_def find_append_key device_ids_def)
    moreover have "os_facts db did = ([], [])"
    proof -
      have "did \<notin> or_device ` set (db_os db)"
        using False inv unfolding db_inv_def facts_ok_def by blast
      then show ?thesis by (auto simp: os_facts_def dest!: find_SomeD split: option.splits)
    qed
    ultimately have "snapshot db' did = row_snapshot (new_row w d did now upd) (os_facts db' did)"
      and "snapshot db did = no_existing" and "os_facts db did = ([], [])"
      using False by (simp_all add: snapshot_alt [of db'] snapshot_new)
    with os False show ?thesis
      by (cases "d_os d"; cases "stored_ip w d"; simp add: row_snapshot_def new_row_def
          next_snapshot_def no_existing_def)
  qed
qed

section \<open>Change events\<close>

definition apply_change :: "change_event \<Rightarrow> existing \<Rightarrow> existing" where
  "apply_change ch ex =
     (if ce_field ch = ''hostname'' then ex\<lparr>ex_hostname := ce_new ch\<rparr>
      else if ce_field ch = ''primary_ip'' then ex\<lparr>ex_ip := ce_new ch\<rparr>
      else if ce_field ch = ''serial'' then ex\<lparr>ex_serial := ce_new ch\<rparr>
      else if ce_field ch = ''device_type'' then ex\<lparr>ex_type := ce_new ch\<rparr>
      else if ce_field ch = ''os_name'' then ex\<lparr>ex_osname := ce_new ch\<rparr>
      else if ce_field ch = ''os_version'' then ex\<lparr>ex_osversion := ce_new ch\<rparr>
      else ex)"

definition field_value :: "string \<Rightarrow> existing \<Rightarrow> string" where
  "field_value f ex =
     (if f = ''hostname'' then ex_hostname ex else if f = ''primary_ip'' then ex_ip ex
      else if f = ''serial'' then ex_serial ex else if f = ''device_type'' then ex_type ex
      else if f = ''os_name'' then ex_osname ex else ex_osversion ex)"

lemma fold_add_change:
  "fold apply_change (add_change f o1 n ch) ex =
     (if n \<noteq> [] \<and> n \<noteq> o1
      then apply_change \<lparr>ce_field = f, ce_old = o1, ce_new = n\<rparr> (fold apply_change ch ex)
      else fold apply_change ch ex)"
  by (simp add: add_change_def)

definition genuine :: "existing \<Rightarrow> change_event \<Rightarrow> bool" where
  "genuine ex ch \<longleftrightarrow> ce_new ch \<noteq> [] \<and> ce_new ch \<noteq> ce_old ch \<and> ce_old ch = field_value (ce_field ch) ex"

lemma genuine_add_change:
  "\<forall>c \<in> set ch. genuine ex c \<Longrightarrow> o1 = field_value f ex \<Longrightarrow>
   \<forall>c \<in> set (add_change f o1 n ch). genuine ex c"
  by (auto simp: add_change_def genuine_def)

lemma genuine_if:
  "\<forall>c \<in> set ch. genuine ex c \<Longrightarrow> \<forall>c \<in> set ch'. genuine ex c \<Longrightarrow>
   \<forall>c \<in> set (if b then ch else ch'). genuine ex c"
  by simp

lemma diffDevice_genuine: "\<forall>c \<in> set (diffDevice ex d). genuine ex c"
proof -
  have nil: "\<forall>c \<in> set []. genuine ex c" by simp
  show ?thesis
    unfolding diffDevice_def Let_def
    by (cases "d_os d"; simp only: option.case;
        intro genuine_add_change genuine_if nil; simp only: field_value_def; simp)
qed

text \<open>What a device may look like for its change events to tell the whole story.\<close>

definition reportable :: "world \<Rightarrow> device \<Rightarrow> bool \<Rightarrow> existing \<Rightarrow> bool" where
  "reportable w d collected ex \<longleftrightarrow>
     d_type d \<noteq> [] \<and>
     (is_valid (d_ip d) \<longrightarrow> w_inet w (addr_string (d_ip d)) = Some (addr_string (d_ip d))) \<and>
     (case d_os d of
        None \<Rightarrow> True
      | Some os \<Rightarrow> collected \<and> (os_name os = [] \<longrightarrow> ex_osname ex = []) \<and>
                   (os_version os = [] \<longrightarrow> ex_osversion ex = []))"

lemma join_nonempty: "1 < length ws \<Longrightarrow> sep \<noteq> [] \<Longrightarrow> join sep ws \<noteq> []"
  by (cases "(sep, ws)" rule: join.cases) auto

lemma addr_string_nonempty: "addr_string a \<noteq> []"
proof -
  have len: "length (octets4 w) = 4" "length (groups6 u) = 8" for w u
    by (simp_all only: octets4_def groups6_def length_map) simp_all
  have v4: "ipv4_string w \<noteq> []" for w
    unfolding ipv4_string_def by (rule join_nonempty) (simp_all only: length_map len, simp_all)
  have "join '':'' (map hex_str (groups6 u)) \<noteq> []" for u
    by (rule join_nonempty) (simp_all only: length_map len, simp_all)
  then have "ipv6_string u \<noteq> []" for u
    unfolding ipv6_string_def Let_def by (cases "longest_zeros (groups6 u)") auto
  with v4 show ?thesis by (cases a) simp_all
qed

text \<open>One field: recording a difference and replaying it sets the field.\<close>

lemma replay_field:
  "fold apply_change (add_change ''hostname'' (ex_hostname x) n ch) ex =
     (if n = [] then x else x\<lparr>ex_hostname := n\<rparr>)"
  "fold apply_change (add_change ''primary_ip'' (ex_ip x) n ch) ex =
     (if n = [] then x else x\<lparr>ex_ip := n\<rparr>)"
  "fold apply_change (add_change ''serial'' (ex_serial x) n ch) ex =
     (if n = [] then x else x\<lparr>ex_serial := n\<rparr>)"
  "fold apply_change (add_change ''device_type'' (ex_type x) n ch) ex =
     (if n = [] then x else x\<lparr>ex_type := n\<rparr>)"
  "fold apply_change (add_change ''os_name'' (ex_osname x) n ch) ex =
     (if n = [] then x else x\<lparr>ex_osname := n\<rparr>)"
  "fold apply_change (add_change ''os_version'' (ex_osversion x) n ch) ex =
     (if n = [] then x else x\<lparr>ex_osversion := n\<rparr>)"
  if "fold apply_change ch ex = x"
  using that by (cases x; simp add: fold_add_change apply_change_def)+

lemma diff_complete:
  assumes r: "reportable w d collected ex"
  shows "fold apply_change (diffDevice ex d) ex = next_snapshot w d collected True ex"
proof -
  have ip: "stored_ip w d = (if is_valid (d_ip d) then Some (addr_string (d_ip d)) else None)"
    using r by (simp add: reportable_def stored_ip_def)
  define ex1 where "ex1 = (if d_hostname d = [] then ex else ex\<lparr>ex_hostname := d_hostname d\<rparr>)"
  define ex2 where "ex2 = (if is_valid (d_ip d) then ex1\<lparr>ex_ip := addr_string (d_ip d)\<rparr> else ex1)"
  define ex3 where "ex3 = (if d_serial d = [] then ex2 else ex2\<lparr>ex_serial := d_serial d\<rparr>)"
  define ex4 where "ex4 = (if d_type d = ''unknown'' then ex3 else ex3\<lparr>ex_type := d_type d\<rparr>)"
  define c1 where "c1 = add_change ''hostname'' (ex_hostname ex) (d_hostname d) []"
  define c2 where "c2 = (if is_valid (d_ip d)
      then add_change ''primary_ip'' (ex_ip ex) (addr_string (d_ip d)) c1 else c1)"
  define c3 where "c3 = add_change ''serial'' (ex_serial ex) (d_serial d) c2"
  define c4 where "c4 = (if d_type d \<noteq> [] \<and> d_type d \<noteq> TypeUnknown
      then add_change ''device_type'' (ex_type ex) (d_type d) c3 else c3)"
  have f: "ex_ip ex1 = ex_ip ex" "ex_serial ex2 = ex_serial ex" "ex_type ex3 = ex_type ex"
    by (simp_all add: ex3_def ex2_def ex1_def)
  have 1: "fold apply_change c1 ex = ex1"
    using replay_field(1) [of "[]" ex ex] by (simp add: c1_def ex1_def)
  have 2: "fold apply_change c2 ex = ex2"
    using replay_field(2) [OF 1, of "addr_string (d_ip d)"] 1 f(1) addr_string_nonempty
    by (simp add: c2_def ex2_def)
  have 3: "fold apply_change c3 ex = ex3"
    using replay_field(3) [OF 2, of "d_serial d"] f(2) by (simp add: c3_def ex3_def)
  have 4: "fold apply_change c4 ex = ex4"
    using replay_field(4) [OF 3, of "d_type d"] 3 f(3) r
    by (simp add: c4_def ex4_def reportable_def)
  have f4: "ex_osname ex4 = ex_osname ex" "ex_osversion ex4 = ex_osversion ex"
    by (simp_all add: ex4_def ex3_def ex2_def ex1_def)
  have diff: "diffDevice ex d = (case d_os d of None \<Rightarrow> c4
      | Some os \<Rightarrow> add_change ''os_version'' (ex_osversion ex) (os_version os)
                    (add_change ''os_name'' (ex_osname ex) (os_name os) c4))"
    by (simp only: diffDevice_def Let_def c4_def c3_def c2_def c1_def)
  have "fold apply_change (diffDevice ex d) ex =
      (case d_os d of None \<Rightarrow> ex4
       | Some os \<Rightarrow> ex4\<lparr>ex_osname := os_name os, ex_osversion := os_version os\<rparr>)"
  proof (cases "d_os d")
    case None
    then show ?thesis by (simp add: diff 4)
  next
    case (Some os)
    define ex5 where "ex5 = (if os_name os = [] then ex4 else ex4\<lparr>ex_osname := os_name os\<rparr>)"
    have 5: "fold apply_change (add_change ''os_name'' (ex_osname ex) (os_name os) c4) ex = ex5"
      using replay_field(5) [OF 4, of "os_name os"] f4 by (simp add: ex5_def)
    have "ex_osversion ex5 = ex_osversion ex" using f4 by (simp add: ex5_def)
    with replay_field(6) [OF 5, of "os_version os"]
    have "fold apply_change (diffDevice ex d) ex =
        (if os_version os = [] then ex5 else ex5\<lparr>ex_osversion := os_version os\<rparr>)"
      by (simp add: diff Some)
    also have "\<dots> = ex4\<lparr>ex_osname := os_name os, ex_osversion := os_version os\<rparr>"
      using r f4 Some by (cases ex4) (auto simp: ex5_def reportable_def)
    finally show ?thesis by (simp add: Some)
  qed
  also have "\<dots> = next_snapshot w d collected True ex"
    using r by (cases "d_os d")
      (auto simp: next_snapshot_def ex4_def ex3_def ex2_def ex1_def ip reportable_def)
  finally show ?thesis .
qed


definition demo_db :: db where
  "demo_db = snd (UpsertDevice demo_device [] True demo_world empty_db)"

definition demo_id :: string where
  "demo_id = new_uuid demo_world (Suc (Suc (Suc (Suc 0))))"

text \<open>The same machine later: renamed, upgraded, without its serial.\<close>

definition demo_upgrade :: device where
  "demo_upgrade = demo_device\<lparr>d_hostname := ''web2'', d_serial := [],
     d_os := Some (empty_osinfo\<lparr>os_name := ''Debian'', os_version := ''13''\<rparr>)\<rparr>"

lemma demo_db_inv: "db_inv demo_db"
  unfolding demo_db_def by (rule preservesD [OF UpsertDevice_keeps db_inv_empty])

lemma demo_id_nonempty [simp]: "demo_id \<noteq> []"
  by (simp add: demo_id_def)

lemma demo_ip [simp]: "ipv4_string 167772165 = ''10.0.0.5''"
  by (simp add: ipv4_string_def octets4_def nat_str.simps)

lemma demo_db_eval:
  "demo_db = empty_db\<lparr>db_tick := db_tick demo_db, db_devices := [\<lparr>dr_id = demo_id, dr_type = ''linux'',
      dr_hostname = Some ''web1'', dr_ip = Some ''10.0.0.5'', dr_serial = Some ''S1'', dr_tag = None,
      dr_guid = None, dr_source = Some ''ssh'', dr_first = 4, dr_last = 4, dr_updated = 4\<rparr>],
     db_os := [\<lparr>or_device = demo_id, or_family = None, or_name = Some ''Debian'',
      or_version = Some ''12'', or_build = None, or_arch = None\<rparr>],
     db_sw := [\<lparr>sr_device = demo_id, sr_name = ''nginx'', sr_version = None, sr_vendor = None,
      sr_date = None\<rparr>]\<rparr>"
  by (simp add: demo_db_def demo_eval demo_id_def)

lemma demo_upgrade_changes:
  "fst (UpsertDevice demo_upgrade [] True demo_world demo_db) =
     Inr (demo_id, [\<lparr>ce_field = ''hostname'', ce_old = ''web1'', ce_new = ''web2''\<rparr>,
                    \<lparr>ce_field = ''os_version'', ce_old = ''12'', ce_new = ''13''\<rparr>])"
  by (subst demo_db_eval)
     (simp add: demo_eval demo_upgrade_def to_lower_def lower_char_def demo_ip demo_id_nonempty)

section \<open>Rescans\<close>

lemma resolve_by_serial:
  assumes q: "quiet w" and inv: "db_inv db" and s: "d_serial d \<noteq> []"
    and r: "r \<in> set (db_devices db)" "dr_serial r = Some (d_serial d)"
  obtains db' where "resolveDevice d w db = (Inr (dr_id r, snapshot db (dr_id r)), db')"
    and "same_tables db db'"
proof -
  have ok: "devices_ok db" using inv by (simp add: db_inv_def)
  have "distinct (db_devices db)" using ok by (simp add: devices_ok_def distinct_map)
  then have "filter (\<lambda>x. dr_serial x = Some (d_serial d)) (db_devices db) = [r]"
    using r devices_ok_serial_unique [OF ok] by (intro filter_unique) auto
  then have "no_rows_to [] (id_by_serial (d_serial d)) w db = (Inr (dr_id r), tick db)"
    using q by (simp add: no_rows_to_def id_by_serial_def query_quiet id_where_def)
  moreover have ne: "dr_id r \<noteq> []"
  proof -
    have "dr_id r \<in> device_ids db" using r(1) by (simp add: device_ids_def)
    moreover have "[] \<notin> device_ids db" using ok by (simp add: devices_ok_def)
    ultimately show ?thesis by metis
  qed
  ultimately have "run_attempts (attempts d) w db = (Inr (dr_id r), tick db)"
    using s by (simp add: attempts_def Let_def bind_sql_run)
  moreover obtain x db' where x: "bind_sql (load_existing (dr_id r)) (\<lambda>ex.
            bind_sql (no_rows_to ([], []) (load_os (dr_id r))) (\<lambda>(osn, osv).
              return_sql (dr_id r, ex\<lparr>ex_osname := osn, ex_osversion := osv\<rparr>))) w (tick db) = (x, db')"
    by (cases "bind_sql (load_existing (dr_id r)) (\<lambda>ex.
            bind_sql (no_rows_to ([], []) (load_os (dr_id r))) (\<lambda>(osn, osv).
              return_sql (dr_id r, ex\<lparr>ex_osname := osn, ex_osversion := osv\<rparr>))) w (tick db)")
  ultimately have res: "resolveDevice d w db = (x, db')"
    using \<open>dr_id r \<noteq> []\<close> by (simp add: resolveDevice_def bind_sql_run)
  have "stored (dr_id r) (tick db)" using r(1) by (simp add: device_ids_def)
  from resolve_tail [OF _ this x] inv q
  have "same_tables db db'" and "x = Inr (dr_id r, snapshot (tick db) (dr_id r))"
    by (auto simp: schema.tick_inv split: sum.splits)
  moreover have "snapshot (tick db) (dr_id r) = snapshot db (dr_id r)"
    by (simp only: snapshot_def tick_tables)
  ultimately show ?thesis using that res by simp
qed

lemma write_known_succeeds:
  assumes q: "quiet w" and st: "stored did db" "did \<noteq> []"
    and ok: "ip_writable w d" "identity_free d did db" "collected \<longrightarrow> writable w d"
    and ch: "diffDevice ex d = [] \<or> run_known run db"
  shows "\<exists>db'. write_device (did, ex) d run collected ts w db = (Inr (did, diffDevice ex d), db')"
proof -
  let ?now = "w_clock w (db_tick db)"
  obtain db1 where db1: "update_device did d ?now w db = (Inr (), db1)"
    using q st ok(1,2)
    by (auto simp: update_device_def stmt_quiet cast_ip identity_free_def)
  have e1: "db1 = tick (store_row w d did ?now 0 db)"
    using update_device_acts [OF st db1] by blast
  have st1: "stored did db1" by (simp add: e1 stored_store_row)
  have run1: "run_known run db1 = run_known run db" by (simp add: e1 run_known_def store_row_def)
  obtain db2 where db2: "(if collected then replaceChildren did d else return_sql ()) w db1 = (Inr (), db2)"
    and st2: "stored did db2" and run2: "run_known run db2 = run_known run db"
  proof (cases collected)
    case True
    with acts_as_runs [OF replaceChildren_acts st1 q] ok(3) obtain db2
      where r: "replaceChildren did d w db1 = (Inr (), db2)" and s: "same_tables db2 (set_children w did d db1)"
        and "stored did db2" by blast
    moreover have "db_runs db2 = db_runs db1"
      using same_tables_fields [OF s] by (simp add: set_children_def)
    ultimately show ?thesis using that True run1 by (simp add: run_known_def)
  next
    case False
    with that st1 run1 show ?thesis by simp
  qed
  obtain db3 where db3: "iter_sql (insert_change did run ts) (diffDevice ex d) w db2 = (Inr (), db3)"
  proof (cases "diffDevice ex d = []")
    case True
    with that show ?thesis by simp
  next
    case False
    with ch have "run_known run db2" using run2 by simp
    with st2 have "stored did db2 \<and> run_known run db2" by simp
    moreover have "\<forall>x \<in> set (diffDevice ex d). True" by simp
    ultimately show ?thesis
      by (rule acts_as_runs [OF acts_as_iter [OF insert_change_acts] _ q]) (rule that)
  qed
  have "write_device (did, ex) d run collected ts w db = (Inr (did, diffDevice ex d), db3)"
    using db2 by (cases collected) (simp_all add: write_device_def bind_sql_def time_now_def db1 db3 st(2))
  then show ?thesis by blast
qed

lemma stored_row_keys:
  assumes r: "r \<in> set (db_devices (store_row w d did now upd db))" "dr_id r = did"
  shows "(d_serial d \<noteq> [] \<longrightarrow> dr_serial r = Some (d_serial d)) \<and>
    (d_guid d \<noteq> [] \<longrightarrow> dr_guid r = Some (d_guid d))"
proof (cases "stored did db")
  case True
  with r obtain x where "r = merge_row d (stored_ip w d) now x"
    by (auto simp: store_row_def set_update_where)
  then show ?thesis by (simp add: merge_row_def nullStr_def)
next
  case False
  then have "x \<in> set (db_devices db) \<Longrightarrow> dr_id x \<noteq> did" for x by (auto simp: device_ids_def)
  with r False have "r = new_row w d did now upd" by (auto simp: store_row_def)
  then show ?thesis by (simp add: new_row_def nullStr_def)
qed

lemma add_change_settled [simp]: "add_change f (if n = [] then o1 else n) n ch = ch"
  by (simp add: add_change_def)

lemma add_change_same [simp]: "add_change f n n ch = ch"
  by (simp add: add_change_def)

lemma diff_settled:
  assumes ip: "is_valid (d_ip d) \<Longrightarrow> w_inet w (addr_string (d_ip d)) = Some (addr_string (d_ip d))"
    and os: "d_os d \<noteq> None \<Longrightarrow> collected"
  shows "diffDevice (next_snapshot w d collected known ex) d = []"
proof -
  let ?ex = "next_snapshot w d collected known ex"
  have "add_change ''primary_ip'' (ex_ip ?ex) (addr_string (d_ip d)) ch = ch" if "is_valid (d_ip d)" for ch
    using ip [OF that] that by (simp add: next_snapshot_def stored_ip_def)
  moreover have "add_change ''hostname'' (ex_hostname ?ex) (d_hostname d) ch = ch" for ch
    by (simp add: next_snapshot_def)
  moreover have "add_change ''serial'' (ex_serial ?ex) (d_serial d) ch = ch" for ch
    by (simp add: next_snapshot_def)
  moreover have "add_change ''device_type'' (ex_type ?ex) (d_type d) ch = ch" if "d_type d \<noteq> TypeUnknown" for ch
    using that by (simp add: next_snapshot_def)
  moreover have "add_change ''os_name'' (ex_osname ?ex) (os_name os) ch = ch"
    "add_change ''os_version'' (ex_osversion ?ex) (os_version os) ch = ch" if "d_os d = Some os" for os ch
    using os that by (simp_all add: next_snapshot_def)
  ultimately show ?thesis
    unfolding diffDevice_def Let_def by (cases "d_os d"; simp del: TypeUnknown_def)
qed

text \<open>
  (C4) Scanning an unchanged device again changes nothing. After any successful upsert of a
  device with a serial, the same upsert succeeds, resolves to the same row, reports no
  change, and leaves the stored values as they are.
\<close>

theorem rescan_is_quiet:
  assumes "quiet w" and "db_inv db" and "d_serial d \<noteq> []"
    and "UpsertDevice d run collected w db = (Inr (did, changes), db1)"
    and "is_valid (d_ip d) \<Longrightarrow> w_inet w (addr_string (d_ip d)) = Some (addr_string (d_ip d))"
    and "d_os d \<noteq> None \<Longrightarrow> collected"
  shows "\<exists>db2. UpsertDevice d run collected w db1 = (Inr (did, []), db2) \<and>
    snapshot db2 did = snapshot db1 did \<and> others_same did db2 db1"
proof -
  have inv1: "db_inv db1"
    using preservesD [OF UpsertDevice_keeps assms(2), of d run collected w] assms(4) by simp
  from UpsertDevice_spec [OF assms(2,4)] obtain now upd ts
    where st: "same_tables db1 (upsert_effect w d run collected did changes now upd ts db)"
    and ok: "did \<noteq> []" "collected \<longrightarrow> writable w d" "ip_writable w d" "identity_free d did db"
    unfolding upsert_spec_def by blast
  have snap1: "snapshot db1 did = next_snapshot w d collected (stored did db) (snapshot db did)"
    by (rule snapshot_effect [OF assms(2) st])
  have dev1: "db_devices db1 = db_devices (store_row w d did now upd db)"
    using same_tables_fields [OF st] by (simp add: upsert_effect_def Let_def set_children_def)
  then have st1: "stored did db1"
    using stored_store_row [of did w d did now upd db] by (simp add: device_ids_def)
  then obtain r where r: "r \<in> set (db_devices db1)" "dr_id r = did"
    by (auto simp: device_ids_def)
  have serial: "dr_serial r = Some (d_serial d)" and guid: "d_guid d \<noteq> [] \<Longrightarrow> dr_guid r = Some (d_guid d)"
    using stored_row_keys [of r w d did now upd db] r assms(3) unfolding dev1 by simp_all
  have free1: "identity_free d did db1"
  proof -
    have ok1: "devices_ok db1" using inv1 by (simp add: db_inv_def)
    have "x = r" if "x \<in> set (db_devices db1)" "dr_serial x = nullStr (d_serial d)" for x
      using devices_ok_serial_unique [OF ok1 that(1) r(1)] that(2) serial assms(3) by (simp add: nullStr_def)
    moreover have "x = r" if "x \<in> set (db_devices db1)" "dr_guid x = nullStr (d_guid d)" "nullStr (d_guid d) \<noteq> None" for x
      using devices_ok_guid_unique [OF ok1 that(1) r(1)] that(2,3) guid by (simp add: nullStr_def split: if_splits)
    ultimately show ?thesis using r(2) unfolding identity_free_def taken_def by blast
  qed
  have inv1': "db_inv (tick db1)" and r': "r \<in> set (db_devices (tick db1))"
    using inv1 r(1) by (simp_all add: schema.tick_inv)
  obtain db2 where res: "resolveDevice d w (tick db1) = (Inr (did, snapshot db1 did), db2)"
    and st2: "same_tables (tick db1) db2"
  proof (rule resolve_by_serial [OF assms(1) inv1' assms(3) r' serial])
    fix db2
    assume "resolveDevice d w (tick db1) = (Inr (dr_id r, snapshot (tick db1) (dr_id r)), db2)"
      and "same_tables (tick db1) db2"
    moreover have "snapshot (tick db1) did = snapshot db1 did" by (simp only: snapshot_def tick_tables)
    ultimately show thesis using that r(2) by simp
  qed
  have settled: "diffDevice (snapshot db1 did) d = []"
    unfolding snap1 by (rule diff_settled [OF assms(5,6)])
  have "stored did db2" and "identity_free d did db2"
    using st1 free1 same_tables_fields [OF st2] by (simp_all add: device_ids_def identity_free_def)
  from write_known_succeeds [OF assms(1) this(1) ok(1,3) this(2) ok(2)] settled
  obtain db3 where "write_device (did, snapshot db1 did) d run collected (w_now w (db_tick db1)) w db2 =
      (Inr (did, []), db3)" by metis
  with res have up: "UpsertDevice d run collected w db1 = (Inr (did, []), tick db3)"
    using assms(1) by (simp add: UpsertDevice_def tx_quiet bind_sql_run)
  from UpsertDevice_spec [OF inv1 up] obtain now' upd' ts'
    where st3: "same_tables (tick db3) (upsert_effect w d run collected did [] now' upd' ts' db1)"
    unfolding upsert_spec_def by blast
  from snapshot_effect [OF inv1 st3] st1
  have "snapshot (tick db3) did = next_snapshot w d collected True (snapshot db1 did)" by simp
  also have "\<dots> = snapshot db1 did"
    unfolding snap1 by (cases "d_os d"; cases "stored_ip w d"; simp add: next_snapshot_def)
  finally have "snapshot (tick db3) did = snapshot db1 did" .
  moreover have "others_same did (tick db3) db1"
    by (rule others_same_tables [OF st3 others_same_effect])
  ultimately show ?thesis using up by blast
qed

lemma demo_stored: "stored demo_id demo_db"
  by (subst demo_db_eval) (simp add: device_ids_def)

lemma demo_snapshot:
  "snapshot demo_db demo_id = \<lparr>ex_type = ''linux'', ex_hostname = ''web1'', ex_ip = ''10.0.0.5'',
     ex_serial = ''S1'', ex_osname = ''Debian'', ex_osversion = ''12''\<rparr>"
  by (subst demo_db_eval) (simp add: snapshot_def)

lemma demo_first: "UpsertDevice demo_device [] True demo_world empty_db = (Inr (demo_id, []), demo_db)"
  using demo_first_scan unfolding demo_db_def demo_id_def by (metis prod.collapse)


lemma rescan_is_quiet_witness:
  "\<exists>db2. UpsertDevice demo_device [] True demo_world demo_db = (Inr (demo_id, []), db2) \<and>
     snapshot db2 demo_id = snapshot demo_db demo_id \<and> others_same demo_id db2 demo_db"
  by (rule rescan_is_quiet [OF demo_world_quiet db_inv_empty _ demo_first])
     (simp_all add: demo_device_def)

section \<open>Where the code departs from its comments\<close>

text \<open>
  A shallower scan does erase data from a deeper one: a collector that reports an
  operating system without its name (the comment on the update promises that an empty
  field keeps the prior value, and \<open>os_info\<close> is overwritten without \<open>COALESCE\<close>) blanks the
  stored name and version, and no change event is recorded.
\<close>

definition demo_shallow :: device where
  "demo_shallow = demo_device\<lparr>d_os := Some (empty_osinfo\<lparr>os_family := ''linux''\<rparr>)\<rparr>"

theorem shallow_scan_erases_os:
  "fst (UpsertDevice demo_shallow [] True demo_world demo_db) = Inr (demo_id, []) \<and>
   ex_osname (snapshot demo_db demo_id) = ''Debian'' \<and>
   ex_osname (snapshot (snd (UpsertDevice demo_shallow [] True demo_world demo_db)) demo_id) = []"
proof -
  have "fst (UpsertDevice demo_shallow [] True demo_world demo_db) = Inr (demo_id, [])"
    by (subst demo_db_eval) (simp add: demo_eval demo_shallow_def to_lower_def lower_char_def)
  moreover have "ex_osname (snapshot (snd (UpsertDevice demo_shallow [] True demo_world demo_db)) demo_id) = []"
    by (subst demo_db_eval)
       (simp add: demo_eval demo_shallow_def to_lower_def lower_char_def snapshot_def)
  ultimately show ?thesis by (simp add: demo_snapshot)
qed

text \<open>
  Two upserts of one machine at the same time, at the isolation level \<open>pool.Begin\<close> gives
  (read committed): both resolve before either has written.
\<close>

definition racing_upserts :: "device \<Rightarrow> world \<Rightarrow> db \<Rightarrow> db" where
  "racing_upserts d w db =
     snd (bind_sql (resolveDevice d) (\<lambda>f1.
          bind_sql (resolveDevice d) (\<lambda>f2.
          bind_sql (write_device f1 d [] False 0) (\<lambda>_.
            write_device f2 d [] False 0))) w db)"

definition demo_dual_homed :: device where
  "demo_dual_homed = demo_device\<lparr>d_serial := []\<rparr>"

lemma last_uuid_text: "last (uuid_text u) = hex_char (unat u mod 16)"
proof -
  define h where "h = map (\<lambda>k. hex_char (unat u div 16 ^ (31 - k) mod 16)) [0..<32]"
  have "length h = 32" and "last h = hex_char (unat u mod 16)"
    by (simp_all add: h_def last_map)
  then show ?thesis
    unfolding uuid_text_def Let_def h_def [symmetric] by (simp add: last_append last_drop)
qed

text \<open>
  The identity keys without a unique index do not exclude duplicates: two concurrent
  passes over one machine without a serial (a host that answers on two addresses in one
  scan) both find nothing and store it twice, under the same hostname.
\<close>

theorem racing_upserts_duplicate:
  "map dr_hostname (db_devices (racing_upserts demo_dual_homed demo_world empty_db)) =
     [Some ''web1'', Some ''web1'']"
proof -
  have "last (new_uuid demo_world (Suc (Suc (Suc (Suc 0))))) = hex_char 4"
    and "last (new_uuid demo_world (Suc (Suc (Suc (Suc (Suc 0)))))) = hex_char 5"
    by (simp_all add: new_uuid_def last_uuid_text)
  moreover have "hex_char 5 \<noteq> hex_char 4" by code_simp
  ultimately have "new_uuid demo_world (Suc (Suc (Suc (Suc (Suc 0))))) \<noteq>
      new_uuid demo_world (Suc (Suc (Suc (Suc 0))))" by metis
  then show ?thesis
    by (simp add: racing_upserts_def demo_eval demo_dual_homed_def)
qed

lemmas mac_octets_numeral = mac_octets.simps(2) [of e "pred_numeral k" for e k, folded numeral_eq_Suc]

text \<open>
  One interface whose hardware address is not six octets (an 8-octet EUI-64 or a
  20-octet InfiniBand address, which \<open>net.ParseMAC\<close> accepts) loses the whole device: the
  \<open>MACADDR\<close> column rejects it and the transaction rolls back.
\<close>

theorem long_mac_loses_device:
  "let d = demo_device\<lparr>d_ifaces := [empty_iface\<lparr>if_name := ''ib0'', if_mac := ''00:11:22:33:44:55:66:77''\<rparr>]\<rparr>
   in (\<exists>db'. UpsertDevice d [] True demo_world empty_db = (Inl (bad_input ''macaddr''), db') \<and>
         db_devices db' = [])"
proof -
  have "parse_mac ''00:11:22:33:44:55:66:77'' =
      Some [0x00, 0x11, 0x22, 0x33, 0x44, 0x55, 0x66, 0x77]"
    by (simp add: parse_mac_def xtoi2_def str_eval mac_octets_numeral)
  then have "w_mac demo_world ''00:11:22:33:44:55:66:77'' = None" by (simp add: demo_world_def)
  then show ?thesis
    by (simp add: demo_eval iface_row_of_def)
qed

end
