(* ===== verification/AdminStore.thy ===== *)
theory AdminStore
  imports Schema "HOL-Library.List_Lexorder" "HOL-Library.Product_Lexorder"
begin

text \<open>
  The rest of \<open>internal/store\<close> that writes: scan targets, credentials and schedules
  (\<open>targets.go\<close>), scan runs and their events (\<open>scanrun.go\<close>), application users
  (\<open>users.go\<close>) and the audit log (\<open>audit.go\<close>). Ids that come from outside the database are
  sent through the \<open>uuid\<close> input function.
\<close>

section \<open>Common parts of the statements\<close>

definition as_uuid :: "world \<Rightarrow> string \<Rightarrow> go_error + string" where
  "as_uuid w s = (case w_uuidof w s of None \<Rightarrow> Inl (bad_input ''uuid'') | Some u \<Rightarrow> Inr u)"

text \<open>A statement with a \<open>uuid\<close> parameter.\<close>

definition with_uuid :: "world \<Rightarrow> string \<Rightarrow> (string \<Rightarrow> go_error + 'a) \<Rightarrow> go_error + 'a" where
  "with_uuid w s f = (case as_uuid w s of Inl e \<Rightarrow> Inl e | Inr u \<Rightarrow> f u)"

definition unique_id_error :: "string \<Rightarrow> go_error" where
  "unique_id_error c = ErrPg (UniqueViolation c)"

definition missing_parent :: "string \<Rightarrow> go_error" where
  "missing_parent c = ErrPg (ForeignKeyViolation c)"

definition pg_second :: int where
  "pg_second = 1000000"

lemma with_uuid_Inr: "with_uuid w s f = Inr x \<longleftrightarrow> (\<exists>u. w_uuidof w s = Some u \<and> f u = Inr x)"
  by (auto simp: with_uuid_def as_uuid_def split: option.splits)

section \<open>Scan targets\<close>

definition CreateScanTarget :: "string \<Rightarrow> string list \<Rightarrow> bool \<Rightarrow> string sql" where
  "CreateScanTarget name cidrs enabled = stmt (\<lambda>w t db.
     let tid = new_uuid w t
     in if tid \<in> tr_id ` set (db_targets db) then Inl (unique_id_error ''scan_target_pkey'')
        else Inr (tid, db\<lparr>db_targets := db_targets db @
               [\<lparr>tr_id = tid, tr_name = name, tr_cidrs = cidrs, tr_enabled = enabled\<rparr>]\<rparr>))"

definition ListScanTargets :: "target_row list sql" where
  "ListScanTargets = query (\<lambda>w t db.
     Inr (sort_key (\<lambda>r. w_sortkey w (tr_name r)) (scan_rows w t (db_targets db))))"

definition GetScanTarget :: "string \<Rightarrow> target_row option sql" where
  "GetScanTarget tid = query (\<lambda>w t db. with_uuid w tid (\<lambda>u.
     case first_row (scan_rows w t (filter (\<lambda>r. tr_id r = u) (db_targets db))) of
       Inl e \<Rightarrow> if e = ErrNoRows then Inr None else Inl e
     | Inr r \<Rightarrow> Inr (Some r)))"

definition DeleteScanTarget :: "string \<Rightarrow> unit sql" where
  "DeleteScanTarget tid = stmt (\<lambda>w t db. with_uuid w tid (\<lambda>u.
     Inr ((), delete_target_cascade u db)))"

section \<open>Credentials\<close>

definition CreateCredential ::
  "string \<Rightarrow> string \<Rightarrow> string \<Rightarrow> string \<Rightarrow> (string \<times> string) list \<Rightarrow> string sql" where
  "CreateCredential name kind username sealed extra = stmt (\<lambda>w t db.
     let cid = new_uuid w t
     in if cid \<in> cd_id ` set (db_creds db) then Inl (unique_id_error ''credential_pkey'')
        else Inr (cid, db\<lparr>db_creds := db_creds db @
               [\<lparr>cd_id = cid, cd_name = name, cd_kind = kind, cd_username = Some username,
                 cd_sealed = Some sealed, cd_extra = extra\<rparr>]\<rparr>))"

definition DeleteCredential :: "string \<Rightarrow> unit sql" where
  "DeleteCredential cid = stmt (\<lambda>w t db. with_uuid w cid (\<lambda>u.
     Inr ((), db\<lparr>db_creds := filter (\<lambda>r. cd_id r \<noteq> u) (db_creds db)\<rparr>)))"

record stored_credential =
  st_id :: string
  st_name :: string
  st_kind :: string
  st_username :: string
  st_sealed :: string
  st_extra :: "(string \<times> string) list"

definition ListCredentials :: "stored_credential list sql" where
  "ListCredentials = query (\<lambda>w t db.
     Inr (map (\<lambda>r. \<lparr>st_id = cd_id r, st_name = cd_name r, st_kind = cd_kind r,
                    st_username = text_or_empty (cd_username r),
                    st_sealed = text_or_empty (cd_sealed r), st_extra = cd_extra r\<rparr>)
            (sort_key (\<lambda>r. w_sortkey w (cd_name r)) (scan_rows w t (db_creds db)))))"

section \<open>Schedules\<close>

definition CreateSchedule :: "string \<Rightarrow> int \<Rightarrow> bool \<Rightarrow> string sql" where
  "CreateSchedule target interval enabled = stmt (\<lambda>w t db. with_uuid w target (\<lambda>u.
     if \<not> int4_ok (Some interval) then Inl (bad_input ''integer'')
     else let sid = new_uuid w t
          in if sid \<in> sc_id ` set (db_scheds db) then Inl (unique_id_error ''schedule_pkey'')
             else if u \<notin> tr_id ` set (db_targets db)
             then Inl (missing_parent ''schedule_scan_target_id_fkey'')
             else Inr (sid, db\<lparr>db_scheds := db_scheds db @
                    [\<lparr>sc_id = sid, sc_target = u, sc_interval = interval, sc_enabled = enabled,
                      sc_next = Some (w_now w t)\<rparr>]\<rparr>)))"

text \<open>\<open>ORDER BY next_run_at\<close>: \<open>NULL\<close> last.\<close>

definition ListSchedules :: "sched_row list sql" where
  "ListSchedules = query (\<lambda>w t db.
     Inr (sort_key (\<lambda>r. case sc_next r of None \<Rightarrow> (True, 0) | Some n \<Rightarrow> (False, n))
            (scan_rows w t (db_scheds db))))"

record due_schedule =
  du_sched :: string
  du_target :: string
  du_interval :: int
  du_cidrs :: "string list"

definition is_due :: "int \<Rightarrow> sched_row \<Rightarrow> bool" where
  "is_due now s = (case sc_next s of None \<Rightarrow> True | Some n \<Rightarrow> n \<le> now)"

definition DueSchedules :: "due_schedule list sql" where
  "DueSchedules = query (\<lambda>w t db.
     Inr (concat (map (\<lambda>s. map (\<lambda>r. \<lparr>du_sched = sc_id s, du_target = tr_id r,
                                     du_interval = sc_interval s, du_cidrs = tr_cidrs r\<rparr>)
                         (filter (\<lambda>r. tr_id r = sc_target s \<and> sc_enabled s \<and> tr_enabled r \<and>
                                      is_due (w_now w t) s) (db_targets db)))
            (scan_rows w t (db_scheds db)))))"

definition AdvanceSchedule :: "string \<Rightarrow> int \<Rightarrow> unit sql" where
  "AdvanceSchedule sid interval = stmt (\<lambda>w t db.
     Inr ((), db\<lparr>db_scheds := update_where (\<lambda>s. sc_id s = sid)
            (\<lambda>s. s\<lparr>sc_next := Some (w_now w t + interval * pg_second)\<rparr>) (db_scheds db)\<rparr>))"

section \<open>Scan runs\<close>

definition CreateScanRun :: "string option \<Rightarrow> string list \<Rightarrow> string sql" where
  "CreateScanRun target specs = stmt (\<lambda>w t db.
     case cast_opt ''uuid'' (w_uuidof w) target of
       Inl e \<Rightarrow> Inl e
     | Inr tgt \<Rightarrow>
         (let rid = new_uuid w t
          in if rid \<in> rn_id ` set (db_runs db) then Inl (unique_id_error ''scan_run_pkey'')
             else if (\<exists>u. tgt = Some u \<and> u \<notin> tr_id ` set (db_targets db))
             then Inl (missing_parent ''scan_run_scan_target_id_fkey'')
             else Inr (rid, db\<lparr>db_runs := db_runs db @
                    [\<lparr>rn_id = rid, rn_target = tgt, rn_started = w_now w t, rn_finished = None,
                      rn_status = ''running'', rn_found = 0, rn_error = None, rn_discovered = 0,
                      rn_targets = specs\<rparr>]\<rparr>)))"

definition SetScanDiscovered :: "string \<Rightarrow> int \<Rightarrow> unit sql" where
  "SetScanDiscovered rid n = stmt (\<lambda>w t db.
     if \<not> int4_ok (Some n) then Inl (bad_input ''integer'')
     else Inr ((), db\<lparr>db_runs := update_where (\<lambda>r. rn_id r = rid)
            (\<lambda>r. r\<lparr>rn_discovered := n\<rparr>) (db_runs db)\<rparr>))"

text \<open>\<open>NULLIF(x, '')\<close>\<close>

definition nullif_empty :: "string \<Rightarrow> string option" where
  "nullif_empty s = (if s = [] then None else Some s)"

definition InsertScanEvent ::
  "string \<Rightarrow> string \<Rightarrow> string \<Rightarrow> string \<Rightarrow> string \<Rightarrow> int \<Rightarrow> string \<Rightarrow> unit sql" where
  "InsertScanEvent rid addr cls coll status changes err = stmt (\<lambda>w t db.
     if \<not> int4_ok (Some changes) then Inl (bad_input ''integer'')
     else if rid \<notin> rn_id ` set (db_runs db) then Inl (missing_parent ''scan_event_scan_run_id_fkey'')
     else Inr ((), db\<lparr>db_events := db_events db @
            [\<lparr>ev_run = rid, ev_ts = w_now w t, ev_addr = addr, ev_class = Some cls,
              ev_collector = Some coll, ev_status = status, ev_changes = changes,
              ev_error = nullif_empty err\<rparr>]\<rparr>))"

definition FinishScanRun :: "string \<Rightarrow> string \<Rightarrow> int \<Rightarrow> string \<Rightarrow> unit sql" where
  "FinishScanRun rid status0 found err =
     (let status = (if err \<noteq> [] then ''failed'' else status0)
      in stmt (\<lambda>w t db.
        if \<not> int4_ok (Some found) then Inl (bad_input ''integer'')
        else Inr ((), db\<lparr>db_runs := update_where (\<lambda>r. rn_id r = rid)
               (\<lambda>r. r\<lparr>rn_finished := Some (w_now w t), rn_status := status, rn_found := found,
                     rn_error := nullif_empty err\<rparr>) (db_runs db)\<rparr>)))"

section \<open>Users\<close>

definition CreateUser :: "string \<Rightarrow> string \<Rightarrow> string \<Rightarrow> string sql" where
  "CreateUser username hash role = stmt (\<lambda>w t db.
     case filter (\<lambda>u. au_username u = username) (db_appusers db) of
       u # _ \<Rightarrow> Inr (au_id u, db\<lparr>db_appusers := update_where (\<lambda>u. au_username u = username)
                  (\<lambda>u. u\<lparr>au_hash := hash, au_role := role\<rparr>) (db_appusers db)\<rparr>)
     | [] \<Rightarrow>
         (let uid = new_uuid w t
          in if uid \<in> au_id ` set (db_appusers db) then Inl (unique_id_error ''app_user_pkey'')
             else Inr (uid, db\<lparr>db_appusers := db_appusers db @
                    [\<lparr>au_id = uid, au_username = username, au_hash = hash, au_role = role,
                      au_created = w_now w t, au_last = None\<rparr>]\<rparr>)))"

definition GetUserByUsername :: "string \<Rightarrow> appuser_row sql" where
  "GetUserByUsername username = (\<lambda>w db.
     case query (\<lambda>w t db. first_row (scan_rows w t
            (filter (\<lambda>u. au_username u = username) (db_appusers db)))) w db of
       (Inl e, db') \<Rightarrow> (if errors_is e ErrNoRows then (Inl ErrUserNotFound, db') else (Inl e, db'))
     | (Inr u, db') \<Rightarrow> (Inr u, db'))"

definition TouchLogin :: "string \<Rightarrow> unit sql" where
  "TouchLogin uid = stmt (\<lambda>w t db.
     Inr ((), db\<lparr>db_appusers := update_where (\<lambda>u. au_id u = uid)
            (\<lambda>u. u\<lparr>au_last := Some (w_now w t)\<rparr>) (db_appusers db)\<rparr>))"

definition CountUsers :: "int sql" where
  "CountUsers = query (\<lambda>w t db. Inr (int (length (db_appusers db))))"

section \<open>Audit log\<close>

definition InsertAudit ::
  "string \<Rightarrow> string \<Rightarrow> string \<Rightarrow> string \<Rightarrow> (string \<times> json) list \<Rightarrow> unit sql" where
  "InsertAudit actor action tgt ip detail = stmt (\<lambda>w t db.
     let aid = new_uuid w t
     in if aid \<in> al_id ` set (db_audit db) then Inl (unique_id_error ''audit_log_pkey'')
        else Inr ((), db\<lparr>db_audit := db_audit db @
               [\<lparr>al_id = aid, al_ts = w_now w t, al_actor = Some actor, al_action = action,
                 al_target = Some tgt, al_ip = Some ip, al_detail = detail\<rparr>]\<rparr>))"

record audit_entry =
  ae_id :: string
  ae_ts :: int
  ae_actor :: string
  ae_action :: string
  ae_target :: string
  ae_ip :: string
  ae_detail :: "(string \<times> json) list"

definition clamp_limit :: "int \<Rightarrow> int \<Rightarrow> int \<Rightarrow> int" where
  "clamp_limit most dflt limit = (if limit \<le> 0 \<or> most < limit then dflt else limit)"

definition ListAudit :: "int \<Rightarrow> audit_entry list sql" where
  "ListAudit limit0 =
     (let limit = clamp_limit 500 100 limit0
      in query (\<lambda>w t db.
        Inr (map (\<lambda>r. \<lparr>ae_id = al_id r, ae_ts = al_ts r, ae_actor = text_or_empty (al_actor r),
                       ae_action = al_action r, ae_target = text_or_empty (al_target r),
                       ae_ip = text_or_empty (al_ip r), ae_detail = al_detail r\<rparr>)
               (take (nat limit) (sort_key (\<lambda>r. - al_ts r) (scan_rows w t (db_audit db)))))))"

section \<open>Rows with a given key\<close>

lemma filter_key_unique:
  "distinct (map f xs) \<Longrightarrow> filter (\<lambda>x. f x = k) xs = [] \<or> (\<exists>x. filter (\<lambda>x. f x = k) xs = [x])"
proof (induction xs)
  case Nil
  then show ?case by simp
next
  case (Cons x xs)
  show ?case
  proof (cases "f x = k")
    case True
    with Cons.prems have "filter (\<lambda>x. f x = k) xs = []" by (auto simp: filter_empty_conv image_iff)
    with True show ?thesis by simp
  next
    case False
    with Cons show ?thesis by simp
  qed
qed

lemma filter_update_same:
  "(\<And>x. key (f x) = key x) \<Longrightarrow>
   filter (\<lambda>x. key x = k) (update_where (\<lambda>x. key x = k) f xs) = map f (filter (\<lambda>x. key x = k) xs)"
  by (induction xs) (auto simp: update_where_def)

lemma filter_update_others:
  "(\<And>x. key (f x) = key x) \<Longrightarrow>
   filter (\<lambda>x. key x \<noteq> k) (update_where (\<lambda>x. key x = k) f xs) = filter (\<lambda>x. key x \<noteq> k) xs"
  by (induction xs) (auto simp: update_where_def)

section \<open>The schema invariant\<close>

lemma new_uuid_nonempty2 [simp]: "[] \<noteq> new_uuid w t"
  by (metis new_uuid_nonempty)

lemma update_where_map_key: "(\<And>r. f (g r) = f r) \<Longrightarrow> map f (update_where P g rows) = map f rows"
  by (rule map_update_where)

lemma update_where_image_key: "(\<And>r. f (g r) = f r) \<Longrightarrow> f ` set (update_where P g rows) = f ` set rows"
  by (rule image_update_where)

lemma read_methods_inv [inv_intros]:
  "preserves db_inv ListScanTargets" "preserves db_inv (GetScanTarget tid)"
  "preserves db_inv ListCredentials" "preserves db_inv ListSchedules" "preserves db_inv DueSchedules"
  "preserves db_inv CountUsers" "preserves db_inv (ListAudit n)"
  unfolding ListScanTargets_def GetScanTarget_def ListCredentials_def ListSchedules_def
    DueSchedules_def CountUsers_def ListAudit_def Let_def
  by (rule schema.query_preserves)+

lemma GetUserByUsername_inv [inv_intros]: "preserves db_inv (GetUserByUsername u)"
proof -
  have "snd (GetUserByUsername u w db) = tick db" for w db
    using query_db [of "\<lambda>w t db. first_row (scan_rows w t (filter (\<lambda>x. au_username x = u) (db_appusers db)))" w db]
    by (auto simp: GetUserByUsername_def split: prod.splits sum.splits)
  then show ?thesis by (simp add: preserves_def schema.tick_inv)
qed

lemma CreateScanTarget_inv [inv_intros]: "preserves db_inv (CreateScanTarget n c e)"
  unfolding CreateScanTarget_def
  by (rule schema.stmt_preserves) (auto simp: db_inv_def scans_ok_def Let_def split: if_splits)

lemma image_filter_neq: "f ` set (filter (\<lambda>x. f x \<noteq> u) xs) = f ` set xs - {u}"
  by auto

lemma DeleteScanTarget_inv [inv_intros]: "preserves db_inv (DeleteScanTarget tid)"
  unfolding DeleteScanTarget_def
proof (rule schema.stmt_preserves)
  fix w t db x db'
  assume inv: "db_inv db" and "with_uuid w tid (\<lambda>u. Inr ((), delete_target_cascade u db)) = Inr (x, db')"
  then obtain u where db': "db' = delete_target_cascade u db" by (auto simp: with_uuid_Inr)
  let ?runs = "update_where (\<lambda>r. rn_target r = Some u) (\<lambda>r. r\<lparr>rn_target := None\<rparr>) (db_runs db)"
  have ids: "map rn_id ?runs = map rn_id (db_runs db)" and "rn_id ` set ?runs = rn_id ` set (db_runs db)"
    by (simp_all add: map_update_where image_update_where)
  moreover have "changes_ok db'"
    using inv \<open>rn_id ` set ?runs = rn_id ` set (db_runs db)\<close>
    by (simp add: db_inv_def changes_ok_def db' delete_target_cascade_def device_ids_def)
  moreover have "scans_ok db'"
  proof -
    have s: "scans_ok db" using inv by (simp add: db_inv_def)
    have "sc_target ` set (filter (\<lambda>s. sc_target s \<noteq> u) (db_scheds db)) \<subseteq>
        tr_id ` set (filter (\<lambda>t. tr_id t \<noteq> u) (db_targets db))"
      using s unfolding image_filter_neq by (auto simp: scans_ok_def)
    moreover have "\<forall>r \<in> set ?runs. \<forall>t. rn_target r = Some t \<longrightarrow>
        t \<in> tr_id ` set (filter (\<lambda>t. tr_id t \<noteq> u) (db_targets db))"
      using s unfolding image_filter_neq by (auto simp: scans_ok_def set_update_where)
    ultimately show ?thesis
      using s ids \<open>rn_id ` set ?runs = rn_id ` set (db_runs db)\<close>
      by (simp add: scans_ok_def db' delete_target_cascade_def filter_distinct_map)
  qed
  ultimately show "db_inv db'"
    using inv by (simp add: db_inv_def db' delete_target_cascade_def)
qed

lemma cred_methods_inv [inv_intros]:
  "preserves db_inv (CreateCredential n k u s e)" "preserves db_inv (DeleteCredential cid)"
  unfolding CreateCredential_def DeleteCredential_def
  by (rule schema.stmt_preserves,
      auto simp: db_inv_def admin_ok_def Let_def with_uuid_Inr filter_distinct_map split: if_splits)+

lemma CreateSchedule_inv [inv_intros]: "preserves db_inv (CreateSchedule tg i e)"
  unfolding CreateSchedule_def
  by (rule schema.stmt_preserves)
     (auto simp: db_inv_def scans_ok_def Let_def with_uuid_Inr split: if_splits)

lemma sched_rows_inv:
  assumes "db_inv db" and "map sc_id rows = map sc_id (db_scheds db)"
    and "map sc_target rows = map sc_target (db_scheds db)"
  shows "db_inv (db\<lparr>db_scheds := rows\<rparr>)"
proof -
  have "sc_target ` set rows = sc_target ` set (db_scheds db)" using assms(3) by (metis list.set_map)
  with assms show ?thesis by (simp add: db_inv_def scans_ok_def)
qed

lemma AdvanceSchedule_inv [inv_intros]: "preserves db_inv (AdvanceSchedule sid i)"
  unfolding AdvanceSchedule_def
  by (rule schema.stmt_preserves) (auto intro!: sched_rows_inv map_update_where)

lemma CreateScanRun_inv [inv_intros]: "preserves db_inv (CreateScanRun tg specs)"
  unfolding CreateScanRun_def
  by (rule schema.stmt_preserves)
     (auto simp: db_inv_def scans_ok_def changes_ok_def image_subset_iff Let_def
           split: sum.splits if_splits)

lemma run_rows_inv:
  assumes "db_inv db" and "map rn_id rows = map rn_id (db_runs db)"
    and "map rn_target rows = map rn_target (db_runs db)"
  shows "db_inv (db\<lparr>db_runs := rows\<rparr>)"
proof -
  have i: "rn_id ` set rows = rn_id ` set (db_runs db)" using assms(2) by (metis list.set_map)
  have "rn_target ` set rows = rn_target ` set (db_runs db)" using assms(3) by (metis list.set_map)
  then have "\<forall>r \<in> set rows. \<exists>r' \<in> set (db_runs db). rn_target r = rn_target r'" by (metis imageE imageI)
  with assms(1) have "\<forall>r \<in> set rows. \<forall>t. rn_target r = Some t \<longrightarrow> t \<in> tr_id ` set (db_targets db)"
    unfolding db_inv_def scans_ok_def by metis
  with i assms show ?thesis by (simp add: db_inv_def scans_ok_def changes_ok_def)
qed

lemma run_methods_inv [inv_intros]:
  "preserves db_inv (SetScanDiscovered rid n)" "preserves db_inv (FinishScanRun rid st f err)"
  unfolding SetScanDiscovered_def FinishScanRun_def Let_def
  by (rule schema.stmt_preserves, auto intro!: run_rows_inv map_update_where split: if_splits)+

lemma InsertScanEvent_inv [inv_intros]: "preserves db_inv (InsertScanEvent r a c co s n e)"
  unfolding InsertScanEvent_def
  by (rule schema.stmt_preserves) (auto simp: db_inv_def scans_ok_def image_subset_iff split: if_splits)

lemma user_rows_inv:
  assumes "db_inv db" and "map au_id rows = map au_id (db_appusers db)"
    and "map au_username rows = map au_username (db_appusers db)"
  shows "db_inv (db\<lparr>db_appusers := rows\<rparr>)"
  using assms by (simp add: db_inv_def admin_ok_def)

lemma CreateUser_inv [inv_intros]: "preserves db_inv (CreateUser u h r)"
  unfolding CreateUser_def
proof (rule schema.stmt_preserves, goal_cases)
  case (1 w t db x db')
  show ?case
  proof (cases "filter (\<lambda>x. au_username x = u) (db_appusers db)")
    case Nil
    then have "u \<notin> au_username ` set (db_appusers db)" by (auto simp: filter_empty_conv)
    with 1 Nil show ?thesis by (auto simp: db_inv_def admin_ok_def Let_def split: if_splits)
  next
    case (Cons a as)
    with 1 show ?thesis by (auto intro!: user_rows_inv map_update_where)
  qed
qed

lemma TouchLogin_inv [inv_intros]: "preserves db_inv (TouchLogin uid)"
  unfolding TouchLogin_def
  by (rule schema.stmt_preserves) (auto intro!: user_rows_inv map_update_where)

lemma InsertAudit_inv [inv_intros]: "preserves db_inv (InsertAudit a b c d e)"
  unfolding InsertAudit_def
  by (rule schema.stmt_preserves) (auto simp: db_inv_def admin_ok_def Let_def split: if_splits)

section \<open>Properties\<close>

text \<open>
  Every administrative method keeps the schema's constraints, whichever statement fails:
  unique users and ids, schedules of existing targets only, scan runs and events that refer
  to existing rows (a deleted target takes its schedules along and is forgotten by its runs).
\<close>

theorem admin_methods_keep_schema:
  "preserves db_inv (CreateScanTarget name cidrs enabled) \<and> preserves db_inv (DeleteScanTarget tid) \<and>
   preserves db_inv (CreateCredential name kind username sealed extra) \<and>
   preserves db_inv (DeleteCredential cid) \<and> preserves db_inv (CreateSchedule tid interval enabled) \<and>
   preserves db_inv (AdvanceSchedule sid interval) \<and> preserves db_inv (CreateScanRun tgt specs) \<and>
   preserves db_inv (SetScanDiscovered rid n) \<and>
   preserves db_inv (InsertScanEvent rid addr cls coll status n err) \<and>
   preserves db_inv (FinishScanRun rid status n err) \<and> preserves db_inv (CreateUser username hash role) \<and>
   preserves db_inv (TouchLogin uid) \<and> preserves db_inv (InsertAudit actor action tgt' ip detail)"
  by (intro conjI inv_intros)

definition runnable :: "db \<Rightarrow> int \<Rightarrow> sched_row \<Rightarrow> bool" where
  "runnable db now s \<longleftrightarrow> sc_enabled s \<and> is_due now s \<and>
     (\<exists>r \<in> set (db_targets db). tr_id r = sc_target s \<and> tr_enabled r)"

lemma due_rows:
  assumes "distinct (map tr_id ts)"
  shows "map du_sched (map (\<lambda>r. \<lparr>du_sched = sc_id s, du_target = tr_id r, du_interval = sc_interval s,
             du_cidrs = tr_cidrs r\<rparr>)
           (filter (\<lambda>r. tr_id r = sc_target s \<and> sc_enabled s \<and> tr_enabled r \<and> is_due now s) ts)) =
    (if sc_enabled s \<and> is_due now s \<and> (\<exists>r \<in> set ts. tr_id r = sc_target s \<and> tr_enabled r)
     then [sc_id s] else [])"
  using assms
proof (induction ts)
  case Nil
  then show ?case by simp
next
  case (Cons r ts)
  show ?case
  proof (cases "tr_id r = sc_target s")
    case True
    with Cons.prems have "\<forall>x \<in> set ts. tr_id x \<noteq> sc_target s" by (auto simp: image_iff)
    then have "filter (\<lambda>r. tr_id r = sc_target s \<and> sc_enabled s \<and> tr_enabled r \<and> is_due now s) ts = []"
      and "\<not> (\<exists>x \<in> set ts. tr_id x = sc_target s \<and> tr_enabled x)"
      by (auto simp: filter_empty_conv)
    with True show ?thesis by simp
  next
    case False
    with Cons show ?thesis by simp
  qed
qed

lemma concat_if: "concat (map (\<lambda>x. if P x then [f x] else []) xs) = map f (filter P xs)"
  by (induction xs) auto

lemma due_ids:
  assumes "db_inv db" and "fst (DueSchedules w db) = Inr due"
  shows "map du_sched due =
    map sc_id (filter (runnable db (w_now w (db_tick db))) (scan_rows w (db_tick db) (db_scheds db)))"
proof -
  let ?now = "w_now w (db_tick db)" and ?rows = "scan_rows w (db_tick db) (db_scheds db)"
  let ?f = "\<lambda>s. map (\<lambda>r. \<lparr>du_sched = sc_id s, du_target = tr_id r, du_interval = sc_interval s,
       du_cidrs = tr_cidrs r\<rparr>) (filter (\<lambda>r. tr_id r = sc_target s \<and> sc_enabled s \<and> tr_enabled r \<and>
         is_due ?now s) (db_targets db))"
  have d: "distinct (map tr_id (db_targets db))" using assms(1) by (simp add: db_inv_def scans_ok_def)
  have "due = concat (map ?f ?rows)"
    using assms(2)
    by (auto simp: DueSchedules_def query_def stmt_def Let_def split: option.splits)
  then have "map du_sched due = concat (map (\<lambda>s. map du_sched (?f s)) ?rows)"
    by (simp only: map_concat map_map o_def)
  then show ?thesis
    unfolding due_rows [OF d] concat_if runnable_def [abs_def] .
qed


definition demo_sched_db :: db where
  "demo_sched_db = empty_db\<lparr>db_tick := 100,
     db_targets := [\<lparr>tr_id = ''t1'', tr_name = ''lan'', tr_cidrs = [''10.0.0.0/30''], tr_enabled = True\<rparr>,
                    \<lparr>tr_id = ''t2'', tr_name = ''lab'', tr_cidrs = [], tr_enabled = False\<rparr>],
     db_scheds := [\<lparr>sc_id = ''s1'', sc_target = ''t1'', sc_interval = 3600, sc_enabled = True, sc_next = Some 50\<rparr>,
                   \<lparr>sc_id = ''s2'', sc_target = ''t1'', sc_interval = 60, sc_enabled = True, sc_next = Some 101\<rparr>,
                   \<lparr>sc_id = ''s3'', sc_target = ''t2'', sc_interval = 60, sc_enabled = True, sc_next = None\<rparr>]\<rparr>"

lemma demo_sched_inv: "db_inv demo_sched_db"
  by (simp add: demo_sched_db_def db_inv_def part_defs empty_db_def unique_key_def)


text \<open>
  Creating a user that exists changes its password and role and nothing else: the id
  stays, the other accounts stay, and a lookup by that name then finds exactly the new hash
  and role.
\<close>

theorem create_user_then_lookup:
  assumes "quiet w" and "db_inv db" and "CreateUser username hash role w db = (Inr uid, db')"
  shows "\<exists>u. fst (GetUserByUsername username w db') = Inr u \<and>
    au_id u = uid \<and> au_username u = username \<and> au_hash u = hash \<and> au_role u = role \<and>
    filter (\<lambda>x. au_username x \<noteq> username) (db_appusers db') =
      filter (\<lambda>x. au_username x \<noteq> username) (db_appusers db)"
proof -
  have d: "distinct (map au_username (db_appusers db))" using assms(2) by (simp add: db_inv_def admin_ok_def)
  note one = filter_key_unique [OF d, of username]
  have get: "fst (GetUserByUsername username w db') = Inr u"
    if "filter (\<lambda>x. au_username x = username) (db_appusers db') = [u]" for u
    using assms(1) that by (simp add: GetUserByUsername_def query_quiet)
  from assms(3) have run: "(case filter (\<lambda>u. au_username u = username) (db_appusers db) of
       u # _ \<Rightarrow> Inr (au_id u, (tick db)\<lparr>db_appusers := update_where (\<lambda>u. au_username u = username)
                  (\<lambda>u. u\<lparr>au_hash := hash, au_role := role\<rparr>) (db_appusers db)\<rparr>)
     | [] \<Rightarrow>
         (let uid = new_uuid w (db_tick db)
          in if uid \<in> au_id ` set (db_appusers db) then Inl (unique_id_error ''app_user_pkey'')
             else Inr (uid, (tick db)\<lparr>db_appusers := db_appusers db @
                    [\<lparr>au_id = uid, au_username = username, au_hash = hash, au_role = role,
                      au_created = w_now w (db_tick db), au_last = None\<rparr>]\<rparr>))) = Inr (uid, db')"
    unfolding CreateUser_def by (auto simp: Let_def elim!: stmt_InrE split: list.splits)
  show ?thesis
  proof (cases "filter (\<lambda>u. au_username u = username) (db_appusers db)")
    case Nil
    with run have "db_appusers db' = db_appusers db @ [\<lparr>au_id = uid, au_username = username, au_hash = hash,
        au_role = role, au_created = w_now w (db_tick db), au_last = None\<rparr>]"
      by (auto simp: Let_def split: if_splits)
    with Nil get show ?thesis by simp
  next
    case (Cons u us)
    with one have "filter (\<lambda>u. au_username u = username) (db_appusers db) = [u]" by auto
    moreover from Cons run have "uid = au_id u" and "db_appusers db' = update_where (\<lambda>u. au_username u = username)
        (\<lambda>u. u\<lparr>au_hash := hash, au_role := role\<rparr>) (db_appusers db)" by auto
    moreover have "au_username u = username"
    proof -
      have "u \<in> set (filter (\<lambda>u. au_username u = username) (db_appusers db))" by (simp add: Cons)
      then show ?thesis by simp
    qed
    ultimately have "filter (\<lambda>x. au_username x = username) (db_appusers db') =
        [u\<lparr>au_hash := hash, au_role := role\<rparr>]" and "uid = au_id u" and "au_username u = username"
      and "filter (\<lambda>x. au_username x \<noteq> username) (db_appusers db') =
        filter (\<lambda>x. au_username x \<noteq> username) (db_appusers db)"
      by (simp_all add: filter_update_same [where key = au_username]
          filter_update_others [where key = au_username])
    with get show ?thesis by (intro exI [of _ "u\<lparr>au_hash := hash, au_role := role\<rparr>"]) simp
  qed
qed

definition demo_user_db :: db where
  "demo_user_db = empty_db\<lparr>db_appusers :=
     [\<lparr>au_id = ''u1'', au_username = ''ann'', au_hash = ''h1'', au_role = ''viewer'', au_created = 1, au_last = None\<rparr>,
      \<lparr>au_id = ''u2'', au_username = ''bob'', au_hash = ''h9'', au_role = ''admin'', au_created = 2, au_last = None\<rparr>]\<rparr>"

lemma create_user_then_lookup_witness:
  "\<exists>u. fst (GetUserByUsername ''ann'' demo_world (snd (CreateUser ''ann'' ''h2'' ''admin'' demo_world demo_user_db))) = Inr u \<and>
     au_id u = ''u1'' \<and> au_hash u = ''h2'' \<and> au_role u = ''admin''"
proof -
  have inv: "db_inv demo_user_db"
    by (simp add: demo_user_db_def db_inv_def part_defs empty_db_def unique_key_def)
  have "CreateUser ''ann'' ''h2'' ''admin'' demo_world demo_user_db =
      (Inr ''u1'', snd (CreateUser ''ann'' ''h2'' ''admin'' demo_world demo_user_db))"
    by (simp add: CreateUser_def stmt_quiet demo_user_db_def)
  from create_user_then_lookup [OF demo_world_quiet inv this] show ?thesis by blast
qed

end
