(* ===== verification/ScanEngine.thy ===== *)
theory ScanEngine
  imports Discovery Rescan AdminStore
begin

text \<open>
  \<open>internal/scan/engine.go\<close>: a scan run end to end. The store's methods are a record of
  operations, whose laws are the locale \<open>scan_store\<close>; the PostgreSQL store of this
  development is an instance. Collectors are functions from a target to a result or an
  error, the network and the scheduling of the worker pools are the record \<open>scan_env\<close>. A
  job's statements fail where \<open>w_fails\<close> says so, a cancelled context included; its effect
  on the database is one step of the pool.
\<close>

section \<open>Interfaces\<close>

record scan_ops =
  so_upsert :: "device \<Rightarrow> string \<Rightarrow> bool \<Rightarrow> (string \<times> change_event list) sql"
  so_relate :: "string \<Rightarrow> string \<Rightarrow> string \<Rightarrow> unit sql"
  so_create_run :: "string option \<Rightarrow> string list \<Rightarrow> string sql"
  so_discovered :: "string \<Rightarrow> int \<Rightarrow> unit sql"
  so_event :: "string \<Rightarrow> string \<Rightarrow> string \<Rightarrow> string \<Rightarrow> string \<Rightarrow> int \<Rightarrow> string \<Rightarrow> unit sql"
  so_finish :: "string \<Rightarrow> string \<Rightarrow> int \<Rightarrow> string \<Rightarrow> unit sql"

definition pg_ops :: scan_ops where
  "pg_ops = \<lparr>so_upsert = UpsertDevice, so_relate = CreateRelationship,
     so_create_run = CreateScanRun, so_discovered = SetScanDiscovered,
     so_event = InsertScanEvent, so_finish = FinishScanRun\<rparr>"

record scan_options =
  sp_specs :: "string list"
  sp_creds :: "credential list"
  sp_discovery :: disc_options
  sp_workers :: int

record scan_env =
  se_dial :: "addr \<Rightarrow> int \<Rightarrow> bool"
  se_done :: "nat \<Rightarrow> nat \<Rightarrow> bool"
  se_probe :: "(addr list \<Rightarrow> host list) option"
  se_disc_order :: "(nat \<times> bool) list"
  se_coll_order :: "(nat \<times> bool) list"

record host_result =
  hr_addr :: string
  hr_class :: device_class
  hr_device :: string
  hr_collector :: string
  hr_changes :: int
  hr_err :: "go_error option"
  hr_collecterr :: string

definition zero_result :: host_result where
  "zero_result = \<lparr>hr_addr = [], hr_class = [], hr_device = [], hr_collector = [], hr_changes = 0,
                  hr_err = None, hr_collecterr = []\<rparr>"

record summary =
  sm_run :: string
  sm_discovered :: int
  sm_collected :: int
  sm_persisted :: int
  sm_hosts :: "host_result list"

definition zero_summary :: summary where
  "zero_summary = \<lparr>sm_run = [], sm_discovered = 0, sm_collected = 0, sm_persisted = 0, sm_hosts = []\<rparr>"

section \<open>Merging\<close>

definition mergeDevice :: "device \<Rightarrow> device \<Rightarrow> string \<Rightarrow> device" where
  "mergeDevice base collected source =
     (let c1 = (if \<not> is_valid (d_ip collected) then collected\<lparr>d_ip := d_ip base\<rparr> else collected);
          c2 = (if d_type c1 = [] \<or> d_type c1 = TypeUnknown then c1\<lparr>d_type := d_type base\<rparr> else c1)
      in if d_source c2 = [] then c2\<lparr>d_source := source\<rparr> else c2)"

fun merge_ports :: "int list \<Rightarrow> host \<Rightarrow> host" where
  "merge_ports [] cur = cur"
| "merge_ports (p # ps) cur =
     merge_ports ps (if \<not> HasPort cur p then cur\<lparr>h_ports := h_ports cur @ [p]\<rparr> else cur)"

text \<open>The map \<open>byAddr\<close> with its insertion order: the hosts in order, keyed by their text.\<close>

fun merge_add :: "host \<Rightarrow> host list \<Rightarrow> host list" where
  "merge_add h [] = [h]"
| "merge_add h (cur # rest) =
     (if addr_string (h_addr cur) = addr_string (h_addr h)
      then merge_ports (h_ports h) cur # rest else cur # merge_add h rest)"

definition mergeHosts :: "host list \<Rightarrow> host list \<Rightarrow> host list" where
  "mergeHosts primary extra = fold merge_add extra (fold merge_add primary [])"

section \<open>One host\<close>

text \<open>The loop over the collectors of the class: the enriched device, its related devices, the
  collector that succeeded, the errors so far.\<close>

fun run_collectors ::
  "(pg_error \<Rightarrow> string) \<Rightarrow> collector list \<Rightarrow> target \<Rightarrow> device \<Rightarrow> string list \<Rightarrow>
   device \<times> related list \<times> string \<times> string list" where
  "run_collectors pgt [] t dev errs = (dev, [], [], errs)"
| "run_collectors pgt (c # cs) t dev errs =
     (case co_collect c t of
        Inl e \<Rightarrow>
          if errors_is e ErrNoCredential then run_collectors pgt cs t dev errs
          else run_collectors pgt cs t dev (errs @ [co_name c @ '': '' @ error_text pgt e])
      | Inr res \<Rightarrow> (mergeDevice dev (rs_device res) (co_name c), rs_related res, co_name c, []))"

definition event_status :: "(pg_error \<Rightarrow> string) \<Rightarrow> host_result \<Rightarrow> string \<times> string" where
  "event_status pgt hr =
     (case hr_err hr of
        Some e \<Rightarrow> (''failed'', error_text pgt e)
      | None \<Rightarrow>
          if hr_collector hr \<noteq> [] then (''collected'', [])
          else if hr_collecterr hr \<noteq> [] then (''failed'', hr_collecterr hr)
          else (''discovered'', []))"

definition recordEvent :: "scan_ops \<Rightarrow> string \<Rightarrow> host_result \<Rightarrow> world \<Rightarrow> db \<Rightarrow> db" where
  "recordEvent ops run hr w db =
     (let (status, msg) = event_status (w_errtext w) hr
      in snd (so_event ops run (hr_addr hr) (hr_class hr) (hr_collector hr) status
                (hr_changes hr) msg w db))"

fun store_related :: "scan_ops \<Rightarrow> string \<Rightarrow> string \<Rightarrow> related list \<Rightarrow> world \<Rightarrow> db \<Rightarrow> db" where
  "store_related ops run parent [] w db = db"
| "store_related ops run parent (rel # rels) w db =
     (case so_upsert ops (rel_device rel) run True w db of
        (Inl e, db1) \<Rightarrow> store_related ops run parent rels w db1
      | (Inr (child, _), db1) \<Rightarrow>
          store_related ops run parent rels w
            (snd (so_relate ops parent child (rel_kind rel) w db1)))"

definition base_device :: "host \<Rightarrow> device" where
  "base_device h = empty_device\<lparr>d_type := ClassToType (ClassifyByPorts (h_ports h)),
                                d_ip := h_addr h, d_source := ''discovery''\<rparr>"

definition processHost ::
  "scan_ops \<Rightarrow> registry \<Rightarrow> string \<Rightarrow> host \<Rightarrow> credential list \<Rightarrow> world \<Rightarrow> db \<Rightarrow> host_result \<times> db" where
  "processHost ops reg run h creds w db =
     (let cls = ClassifyByPorts (h_ports h);
          t = \<lparr>tg_addr = h_addr h, tg_hostname = addr_string (h_addr h), tg_class = cls, tg_creds = creds\<rparr>;
          (dev, rels, name, errs) =
            run_collectors (w_errtext w) (registry_for reg cls) t (base_device h) [];
          hr = zero_result\<lparr>hr_addr := addr_string (h_addr h), hr_class := cls,
                 hr_collector := name, hr_collecterr := join ''; '' errs\<rparr>
      in case so_upsert ops dev run (name \<noteq> []) w db of
           (Inl e, db1) \<Rightarrow>
             (let hr1 = hr\<lparr>hr_err := Some e\<rparr> in (hr1, recordEvent ops run hr1 w db1))
         | (Inr (did, changes), db1) \<Rightarrow>
             (let hr1 = hr\<lparr>hr_device := did, hr_changes := int (length changes)\<rparr>;
                  db2 = recordEvent ops run hr1 w db1
              in (hr1, store_related ops run did rels w db2)))"

section \<open>A run\<close>

definition host_jobs ::
  "scan_ops \<Rightarrow> registry \<Rightarrow> string \<Rightarrow> host list \<Rightarrow> credential list \<Rightarrow> world \<Rightarrow> (host_result, db) job list" where
  "host_jobs ops reg run live creds w =
     map (\<lambda>h _ db. let (hr, db') = processHost ops reg run h creds w db in ((hr, None), db')) live"

fun summarize :: "host_result job_result list \<Rightarrow> summary \<Rightarrow> summary" where
  "summarize [] smy = smy"
| "summarize ((hr, _) # rs) smy =
     (let s1 = smy\<lparr>sm_hosts := sm_hosts smy @ [hr]\<rparr>;
          s2 = (if hr_collector hr \<noteq> [] \<and> hr_err hr = None
                then s1\<lparr>sm_collected := sm_collected s1 + 1\<rparr> else s1);
          s3 = (if hr_device hr \<noteq> [] then s2\<lparr>sm_persisted := sm_persisted s2 + 1\<rparr> else s2)
      in summarize rs s3)"

text \<open>The live hosts of a run: the probe's answers merged into the sweep's.\<close>

definition live_hosts_of :: "scan_env \<Rightarrow> scan_options \<Rightarrow> addr list \<Rightarrow> host list" where
  "live_hosts_of env opts addrs =
     (let extra = (case se_probe env of None \<Rightarrow> [] | Some p \<Rightarrow> p addrs)
      in mergeHosts (Discover (se_dial env) (se_done env) (se_disc_order env) addrs (sp_discovery opts)) extra)"

text \<open>\<open>None\<close> where the expansion of the specs does not return.\<close>

definition Run ::
  "scan_ops \<Rightarrow> registry \<Rightarrow> scan_env \<Rightarrow> scan_options \<Rightarrow> world \<Rightarrow> db \<Rightarrow>
   ((summary \<times> go_error option) \<times> db) option" where
  "Run ops reg env opts w db =
     (case Expand (sp_specs opts) of
        None \<Rightarrow> None
      | Some (Inl e) \<Rightarrow> Some ((zero_summary, Some e), db)
      | Some (Inr addrs) \<Rightarrow> Some
          (case so_create_run ops None (sp_specs opts) w db of
             (Inl e, db1) \<Rightarrow> ((zero_summary, Some e), db1)
           | (Inr run, db1) \<Rightarrow>
               (let live = live_hosts_of env opts addrs;
                    db2 = snd (so_discovered ops run (int (length live)) w db1);
                    (results, db3) = pool_outcome (host_jobs ops reg run live (sp_creds opts) w)
                                       zero_result (se_coll_order env) db2;
                    smy = summarize results
                            (zero_summary\<lparr>sm_run := run, sm_discovered := int (length live)\<rparr>)
                in case so_finish ops run ''ok'' (sm_persisted smy) [] w db3 of
                     (Inl e, db4) \<Rightarrow> ((smy, Some e), db4)
                   | (Inr _, db4) \<Rightarrow> ((smy, None), db4))))"

section \<open>What merging and collecting do\<close>

definition host_key :: "host \<Rightarrow> string" where
  "host_key h = addr_string (h_addr h)"

definition ports_at :: "string \<Rightarrow> host list \<Rightarrow> int set" where
  "ports_at k hs = \<Union> ((\<lambda>h. set (h_ports h)) ` {h \<in> set hs. host_key h = k})"

lemma merge_ports_addr [simp]: "h_addr (merge_ports ps cur) = h_addr cur"
  by (induction ps arbitrary: cur) auto

lemma has_port_set [simp]: "has_port ps p \<longleftrightarrow> p \<in> set ps"
  by (induction ps) auto

lemma merge_ports_set: "set (h_ports (merge_ports ps cur)) = set (h_ports cur) \<union> set ps"
  by (induction ps arbitrary: cur) (auto simp: HasPort_def)

lemma merge_add_keys:
  "map host_key (merge_add h hs) = add_unseen (host_key h) (map host_key hs)"
  by (induction hs) (auto simp: host_key_def add_unseen_def)

lemma ports_at_Cons:
  "ports_at k (h # hs) = (if host_key h = k then set (h_ports h) else {}) \<union> ports_at k hs"
  by (auto simp: ports_at_def)

lemma ports_at_append: "ports_at k (xs @ ys) = ports_at k xs \<union> ports_at k ys"
  by (auto simp: ports_at_def)

lemma merge_add_ports: "ports_at k (merge_add h hs) = ports_at k (h # hs)"
proof (induction hs)
  case Nil
  then show ?case by simp
next
  case (Cons cur hs)
  have "host_key (merge_ports ps cur) = host_key cur" for ps by (simp add: host_key_def)
  with Cons show ?case by (auto simp: ports_at_Cons merge_ports_set host_key_def)
qed

lemma fold_merge_keys:
  "map host_key (fold merge_add hs acc) = fold add_unseen (map host_key hs) (map host_key acc)"
  by (induction hs arbitrary: acc) (simp_all add: merge_add_keys)

lemma fold_merge_ports: "ports_at k (fold merge_add hs acc) = ports_at k hs \<union> ports_at k acc"
  by (induction hs arbitrary: acc) (auto simp: merge_add_ports ports_at_Cons ports_at_def [of k "[]"])

text \<open>
  Merging the sweep's hosts with the probe's loses and invents nothing: every address
  of either list appears once, in the order of its first appearance, and for each address the
  merged ports are the ports it had in any entry of the two lists.
\<close>

theorem mergeHosts_union:
  "map host_key (mergeHosts primary extra) = fold add_unseen (map host_key (primary @ extra)) [] \<and>
   distinct (map host_key (mergeHosts primary extra)) \<and>
   ports_at k (mergeHosts primary extra) = ports_at k (primary @ extra)"
proof -
  have "map host_key (mergeHosts primary extra) = fold add_unseen (map host_key (primary @ extra)) []"
    by (simp add: mergeHosts_def fold_merge_keys)
  moreover have "ports_at k (mergeHosts primary extra) = ports_at k (primary @ extra)"
    by (auto simp: mergeHosts_def fold_merge_ports ports_at_append ports_at_def [of k "[]"])
  ultimately show ?thesis by simp
qed

text \<open>What a collector's failure adds to the collected errors.\<close>

definition complaint :: "(pg_error \<Rightarrow> string) \<Rightarrow> target \<Rightarrow> collector \<Rightarrow> string list" where
  "complaint pgt t c =
     (case co_collect c t of
        Inr _ \<Rightarrow> []
      | Inl e \<Rightarrow> if errors_is e ErrNoCredential then []
                 else [co_name c @ '': '' @ error_text pgt e])"

definition succeeds :: "target \<Rightarrow> collector \<Rightarrow> bool" where
  "succeeds t c = (case co_collect c t of Inr _ \<Rightarrow> True | Inl _ \<Rightarrow> False)"

definition collect_spec ::
  "(pg_error \<Rightarrow> string) \<Rightarrow> collector list \<Rightarrow> target \<Rightarrow> device \<Rightarrow> device \<times> related list \<times> string \<times> string list" where
  "collect_spec pgt cs t dev =
     (case find (succeeds t) cs of
        None \<Rightarrow> (dev, [], [], concat (map (complaint pgt t) cs))
      | Some c \<Rightarrow>
          (case co_collect c t of
             Inr res \<Rightarrow> (mergeDevice dev (rs_device res) (co_name c), rs_related res, co_name c, [])
           | Inl _ \<Rightarrow> (dev, [], [], [])))"

lemma succeeds_simps [simp]:
  "co_collect c t = Inl e \<Longrightarrow> \<not> succeeds t c" "co_collect c t = Inr r \<Longrightarrow> succeeds t c"
  by (simp_all add: succeeds_def)

lemma run_collectors_acc:
  "run_collectors pgt cs t dev errs =
     (case find (succeeds t) cs of
        None \<Rightarrow> (dev, [], [], errs @ concat (map (complaint pgt t) cs))
      | Some _ \<Rightarrow> collect_spec pgt cs t dev)"
  by (induction pgt cs t dev errs rule: run_collectors.induct)
     (auto simp: collect_spec_def complaint_def split: sum.splits option.splits)

text \<open>
  (C27) Collecting from a host is a search: the collectors of its class are tried in the order
  of their registration and the first that succeeds gives the device, its name and the
  related devices, with no error; if none does, the device stays as discovered and the errors
  are those of the collectors that had a credential, in order, each under its collector's name.
\<close>

theorem run_collectors_search:
  "run_collectors pgt cs t dev [] = collect_spec pgt cs t dev"
  by (simp add: run_collectors_acc collect_spec_def split: option.splits)

lemma run_collectors_name:
  "run_collectors pgt cs t dev errs = (dev', rels, name, errs') \<Longrightarrow> name \<noteq> [] \<Longrightarrow> errs' = []"
  by (induction pgt cs t dev errs rule: run_collectors.induct)
     (auto split: sum.splits if_splits)

end
