(* ===== verification/ScanRun.thy ===== *)
theory ScanRun
  imports ScanEngine
begin

text \<open>
  What a scan run of \<open>internal/scan/engine.go\<close> guarantees: the schema's constraints hold
  after it, its summary counts add up, its row in \<open>scan_run\<close> has the right status, and each
  host leaves one event. The client's lemmas are proved for any store with the laws of
  \<open>scan_store\<close> and \<open>scan_journal\<close>; the PostgreSQL store is shown to obey them.
\<close>

section \<open>Pools over an invariant\<close>

definition jobs_keep :: "('s \<Rightarrow> bool) \<Rightarrow> ('a job_result \<Rightarrow> bool) \<Rightarrow> ('a, 's) job list \<Rightarrow> bool" where
  "jobs_keep P Q jobs \<longleftrightarrow>
     (\<forall>j \<in> set jobs. \<forall>b s. P s \<longrightarrow> P (snd (j b s)) \<and> Q (fst (j b s)))"

lemma run_order_keeps:
  assumes "jobs_keep P Q jobs" and "set (map fst order) \<subseteq> {..<length jobs}" and "P s"
  shows "P (snd (run_order jobs order s)) \<and> (\<forall>x \<in> set (fst (run_order jobs order s)). Q (snd x))"
  using assms(2,3)
proof (induction order arbitrary: s)
  case Nil
  then show ?case by simp
next
  case (Cons o1 order)
  obtain i b where o1: "o1 = (i, b)" by (cases o1)
  obtain r s' where j: "(jobs ! i) b s = (r, s')" by (cases "(jobs ! i) b s")
  from Cons.prems have "jobs ! i \<in> set jobs" by (simp add: o1)
  with assms(1) Cons.prems(2) j have "P s' \<and> Q r" unfolding jobs_keep_def by (metis fst_conv snd_conv)
  with Cons.IH [of s'] Cons.prems j show ?case by (auto simp: o1 Let_def split: prod.splits)
qed

lemma pool_outcome_keeps:
  assumes "jobs_keep P Q jobs" and "valid_order (length jobs) order" and "P s"
  shows "P (snd (pool_outcome jobs zero order s)) \<and>
    (\<forall>r \<in> set (fst (pool_outcome jobs zero order s)). Q r \<or> r = (zero, Some ctx_err))"
proof (cases "run_order jobs order s")
  case (Pair m s')
  have "set (map fst order) \<subseteq> {..<length jobs}" using assms(2) by (auto simp: valid_order_def)
  with run_order_keeps [OF assms(1) this assms(3)] Pair
  have "P s'" and m: "\<forall>x \<in> set m. Q (snd x)" by simp_all
  moreover have "Q r" if "map_of m i = Some r" for i r using m map_of_SomeD [OF that] by auto
  ultimately show ?thesis by (auto simp: pool_outcome_def Pair split: option.splits)
qed

text \<open>The orders in which the jobs of the two pools of a run can finish.\<close>

definition scan_orders :: "scan_env \<Rightarrow> scan_options \<Rightarrow> bool" where
  "scan_orders env opts \<longleftrightarrow>
     (case Expand (sp_specs opts) of
        Some (Inr addrs) \<Rightarrow>
          valid_order (length addrs) (se_disc_order env) \<and>
          valid_order (length (live_hosts_of env opts addrs)) (se_coll_order env)
      | _ \<Rightarrow> True)"

section \<open>A store that keeps an invariant\<close>

definition counted :: "host_result \<Rightarrow> bool" where
  "counted hr \<longleftrightarrow> (hr_collector hr \<noteq> [] \<and> hr_err hr = None \<longrightarrow> hr_device hr \<noteq> [])"

lemma summarize_counts:
  "summarize rs smy = smy\<lparr>sm_hosts := sm_hosts smy @ map fst rs,
     sm_collected := sm_collected smy +
       int (length (filter (\<lambda>r. hr_collector (fst r) \<noteq> [] \<and> hr_err (fst r) = None) rs)),
     sm_persisted := sm_persisted smy + int (length (filter (\<lambda>r. hr_device (fst r) \<noteq> []) rs))\<rparr>"
  by (induction rs smy rule: summarize.induct) (simp_all add: Let_def)

lemma collected_le_persisted:
  assumes "\<forall>r \<in> set rs. counted (fst r)"
  shows "length (filter (\<lambda>r. hr_collector (fst r) \<noteq> [] \<and> hr_err (fst r) = None) rs) \<le>
    length (filter (\<lambda>r. hr_device (fst r) \<noteq> []) rs)"
  using assms by (induction rs) (auto simp: counted_def)

locale scan_store =
  fixes ops :: scan_ops and inv :: "db \<Rightarrow> bool"
  assumes upsert_inv: "preserves inv (so_upsert ops d run c)"
    and relate_inv: "preserves inv (so_relate ops p ch k)"
    and create_inv: "preserves inv (so_create_run ops tgt specs)"
    and discovered_inv: "preserves inv (so_discovered ops run n)"
    and event_inv: "preserves inv (so_event ops run a cls coll st n err)"
    and finish_inv: "preserves inv (so_finish ops run st n err)"
    and upsert_id: "inv db \<Longrightarrow> so_upsert ops d run c w db = (Inr (did, chs), db') \<Longrightarrow> did \<noteq> []"
begin

lemma recordEvent_inv: "inv db \<Longrightarrow> inv (recordEvent ops run hr w db)"
  using preservesD [OF event_inv] by (auto simp: recordEvent_def split: prod.splits)

lemma store_related_inv: "inv db \<Longrightarrow> inv (store_related ops run parent rels w db)"
proof (induction rels arbitrary: db)
  case Nil
  then show ?case by simp
next
  case (Cons rel rels)
  obtain r db1 where u: "so_upsert ops (rel_device rel) run True w db = (r, db1)" by fastforce
  from preservesD [OF upsert_inv Cons.prems, of "rel_device rel" run True w] u have "inv db1" by simp
  with Cons.IH preservesD [OF relate_inv this] u show ?case
    by (cases r) (auto split: prod.splits)
qed

lemma processHost_inv:
  assumes "inv db" and "processHost ops reg run h creds w db = (hr, db')"
  shows "inv db' \<and> counted hr"
proof -
  obtain dev rels name errs where c: "run_collectors (w_errtext w)
      (registry_for reg (ClassifyByPorts (h_ports h)))
      \<lparr>tg_addr = h_addr h, tg_hostname = addr_string (h_addr h),
       tg_class = ClassifyByPorts (h_ports h), tg_creds = creds\<rparr> (base_device h) [] = (dev, rels, name, errs)"
    by (metis prod_cases4)
  obtain r db1 where u: "so_upsert ops dev run (name \<noteq> []) w db = (r, db1)" by fastforce
  from preservesD [OF upsert_inv assms(1), of dev run "name \<noteq> []" w] u have i1: "inv db1" by simp
  show ?thesis
  proof (cases r)
    case (Inl e)
    with assms(2) have "inv db'" and "hr_err hr = Some e"
      using recordEvent_inv [OF i1] by (simp_all add: processHost_def Let_def c u) auto
    then show ?thesis by (simp add: counted_def)
  next
    case (Inr x)
    obtain did chs where x: "x = (did, chs)" by (cases x)
    from assms(2) have hr: "hr_device hr = did"
      and "db' = store_related ops run did rels w (recordEvent ops run hr w db1)"
      by (simp_all only: processHost_def Let_def c u Inr x prod.case sum.case Pair_inject) auto
    with store_related_inv [OF recordEvent_inv [OF i1]] have "inv db'" by simp
    moreover note hr
    ultimately
    show ?thesis using upsert_id [OF assms(1) u [unfolded Inr x]] by (simp add: counted_def)
  qed
qed

lemma host_jobs_inv:
  "jobs_keep inv (\<lambda>r. counted (fst r)) (host_jobs ops reg run live creds w)"
  by (auto simp: jobs_keep_def host_jobs_def dest: processHost_inv split: prod.splits)

lemma host_pool_inv:
  assumes "valid_order (length live) order" and "inv db"
    and "pool_outcome (host_jobs ops reg run live creds w) zero_result order db = (results, db')"
  shows "inv db' \<and> (\<forall>r \<in> set results. counted (fst r)) \<and> length results = length live"
proof -
  have len: "length (host_jobs ops reg run live creds w) = length live" by (simp add: host_jobs_def)
  have "counted zero_result" by (simp add: counted_def zero_result_def)
  with pool_outcome_keeps [OF host_jobs_inv [of reg run live creds w], of order db zero_result]
    assms length_pool_outcome [of "host_jobs ops reg run live creds w" zero_result order db]
  show ?thesis by (auto simp: len)
qed

lemma RunE:
  assumes "inv db" and "scan_orders env opts" and "Run ops reg env opts w db = Some ((smy, err), db')"
    and "sm_run smy \<noteq> []"
  obtains addrs run db1 live db2 results db3
  where "Expand (sp_specs opts) = Some (Inr addrs)" and "inv db1" and "inv db2" and "inv db3"
    and "so_create_run ops None (sp_specs opts) w db = (Inr run, db1)"
    and "live = live_hosts_of env opts addrs"
    and "db2 = snd (so_discovered ops run (int (length live)) w db1)"
    and "pool_outcome (host_jobs ops reg run live (sp_creds opts) w) zero_result
           (se_coll_order env) db2 = (results, db3)"
    and "valid_order (length live) (se_coll_order env)"
    and "\<forall>r \<in> set results. counted (fst r)" and "length results = length live"
    and "smy = summarize results (zero_summary\<lparr>sm_run := run, sm_discovered := int (length live)\<rparr>)"
    and "so_finish ops run ''ok'' (sm_persisted smy) [] w db3 =
           (case err of None \<Rightarrow> Inr () | Some e \<Rightarrow> Inl e, db')"
proof -
  from assms(3,4) obtain addrs where e: "Expand (sp_specs opts) = Some (Inr addrs)"
    by (auto simp: Run_def zero_summary_def split: option.splits sum.splits)
  obtain r db1 where c: "so_create_run ops None (sp_specs opts) w db = (r, db1)" by fastforce
  with assms(3,4) e obtain run where r: "r = Inr run"
    by (cases r) (auto simp: Run_def zero_summary_def)
  define live where "live = live_hosts_of env opts addrs"
  define db2 where "db2 = snd (so_discovered ops run (int (length live)) w db1)"
  obtain results db3 where p: "pool_outcome (host_jobs ops reg run live (sp_creds opts) w) zero_result
      (se_coll_order env) db2 = (results, db3)" by fastforce
  from preservesD [OF create_inv assms(1), of None "sp_specs opts" w] c have i1: "inv db1" by simp
  from preservesD [OF discovered_inv this, of run "int (length live)" w] have i2: "inv db2"
    by (simp add: db2_def)
  from assms(2) e have v: "valid_order (length live) (se_coll_order env)"
    by (simp add: scan_orders_def live_def)
  from host_pool_inv [OF v i2 p] have i3: "inv db3"
    and q: "\<forall>r \<in> set results. counted (fst r)" "length results = length live" by simp_all
  let ?s = "summarize results (zero_summary\<lparr>sm_run := run, sm_discovered := int (length live)\<rparr>)"
  obtain f db4 where f: "so_finish ops run ''ok'' (sm_persisted ?s) [] w db3 = (f, db4)" by fastforce
  from assms(3) have "smy = ?s" and "f = (case err of None \<Rightarrow> Inr () | Some e \<Rightarrow> Inl e)" and "db4 = db'"
    by (auto simp: Run_def e c r live_def [symmetric] db2_def [symmetric] p f Let_def split: sum.splits)
  with that [OF e i1 i2 i3 c [unfolded r] live_def db2_def p v q] f show ?thesis by simp
qed

lemma Run_inv:
  assumes "inv db" and "scan_orders env opts" and "Run ops reg env opts w db = Some ((smy, err), db')"
  shows "inv db'"
proof (cases "Expand (sp_specs opts)")
  case None
  with assms(3) show ?thesis by (simp add: Run_def)
next
  case (Some x)
  show ?thesis
  proof (cases x)
    case (Inl e)
    with Some assms show ?thesis by (simp add: Run_def)
  next
    case (Inr addrs)
    obtain r db1 where c: "so_create_run ops None (sp_specs opts) w db = (r, db1)" by fastforce
    from preservesD [OF create_inv assms(1), of None "sp_specs opts" w] c have i1: "inv db1" by simp
    show ?thesis
    proof (cases r)
      case (Inl e)
      with Some Inr assms(3) c i1 show ?thesis by (simp add: Run_def)
    next
      case run: (Inr run)
      define live where "live = live_hosts_of env opts addrs"
      from preservesD [OF discovered_inv i1, of run "int (length live)" w]
      have i2: "inv (snd (so_discovered ops run (int (length live)) w db1))" .
      obtain results db3 where p: "pool_outcome (host_jobs ops reg run live (sp_creds opts) w) zero_result
          (se_coll_order env) (snd (so_discovered ops run (int (length live)) w db1)) = (results, db3)"
        by fastforce
      from assms(2) Some Inr have "valid_order (length live) (se_coll_order env)"
        by (simp add: scan_orders_def live_def)
      from host_pool_inv [OF this i2 p] have "inv db3" by simp
      with preservesD [OF finish_inv this, of run "''ok''" _ "[]" w] assms(3) show ?thesis
        by (auto simp: Run_def Some Inr c run live_def [symmetric] p Let_def split: sum.splits prod.splits)
           (metis snd_conv)+
    qed
  qed
qed

end

section \<open>The scan journal\<close>

text \<open>
  What the store promises about the rows of \<open>scan_run\<close>: only the run's own methods touch
  them, and each does what its name says.
\<close>

definition run_row :: "string \<Rightarrow> db \<Rightarrow> run_row option" where
  "run_row run db = find (\<lambda>r. rn_id r = run) (db_runs db)"

definition fresh_run :: "string \<Rightarrow> string list \<Rightarrow> int \<Rightarrow> run_row" where
  "fresh_run run specs started =
     \<lparr>rn_id = run, rn_target = None, rn_started = started, rn_finished = None,
      rn_status = ''running'', rn_found = 0, rn_error = None, rn_discovered = 0, rn_targets = specs\<rparr>"

locale scan_journal = scan_store +
  assumes upsert_runs: "preserves (\<lambda>db. db_runs db = R) (so_upsert ops d run c)"
    and relate_runs: "preserves (\<lambda>db. db_runs db = R) (so_relate ops p ch k)"
    and event_runs: "preserves (\<lambda>db. db_runs db = R) (so_event ops run a cls coll st n err)"
    and create_row: "inv db \<Longrightarrow> so_create_run ops None specs w db = (Inr run, db') \<Longrightarrow>
          run \<noteq> [] \<and> (\<exists>t. run_row run db' = Some (fresh_run run specs t))"
    and discovered_row: "run_row run db = Some r \<Longrightarrow>
          \<exists>k. run_row run (snd (so_discovered ops run n w db)) = Some (r\<lparr>rn_discovered := k\<rparr>)"
    and finish_row: "run_row run db = Some r \<Longrightarrow> so_finish ops run st n [] w db = (Inr (), db') \<Longrightarrow>
          \<exists>t. run_row run db' =
            Some (r\<lparr>rn_finished := Some t, rn_status := st, rn_found := n, rn_error := None\<rparr>)"
    and finish_fails: "so_finish ops run st n err w db = (Inl e, db') \<Longrightarrow> db_runs db' = db_runs db"
begin

lemma recordEvent_runs: "db_runs (recordEvent ops run hr w db) = db_runs db"
  using preservesD [OF event_runs, OF HOL.refl] by (auto simp: recordEvent_def split: prod.splits)

lemma store_related_runs: "db_runs (store_related ops run parent rels w db) = db_runs db"
proof (induction rels arbitrary: db)
  case Nil
  then show ?case by simp
next
  case (Cons rel rels)
  obtain r db1 where u: "so_upsert ops (rel_device rel) run True w db = (r, db1)" by fastforce
  from preservesD [OF upsert_runs, OF HOL.refl, of "rel_device rel" run True w db] u
  have "db_runs db1 = db_runs db" by simp
  with Cons.IH preservesD [OF relate_runs, OF HOL.refl] u show ?case
    by (cases r) (auto split: prod.splits)
qed

lemma processHost_runs: "db_runs (snd (processHost ops reg run h creds w db)) = db_runs db"
proof -
  obtain dev rels name errs where c: "run_collectors (w_errtext w)
      (registry_for reg (ClassifyByPorts (h_ports h)))
      \<lparr>tg_addr = h_addr h, tg_hostname = addr_string (h_addr h),
       tg_class = ClassifyByPorts (h_ports h), tg_creds = creds\<rparr> (base_device h) [] = (dev, rels, name, errs)"
    by (metis prod_cases4)
  obtain r db1 where u: "so_upsert ops dev run (name \<noteq> []) w db = (r, db1)" by fastforce
  from preservesD [OF upsert_runs, OF HOL.refl, of dev run "name \<noteq> []" w db] u
  have "db_runs db1 = db_runs db" by simp
  with u show ?thesis
    by (cases r) (auto simp: processHost_def Let_def c u recordEvent_runs store_related_runs split: prod.splits)
qed

lemma host_jobs_runs:
  "jobs_keep (\<lambda>db. db_runs db = R) (\<lambda>_. True) (host_jobs ops reg run live creds w)"
  using processHost_runs by (auto simp: jobs_keep_def host_jobs_def split: prod.splits) (metis snd_conv)

lemma host_pool_runs:
  assumes "valid_order (length live) order"
    and "pool_outcome (host_jobs ops reg run live creds w) zero_result order db = (results, db')"
  shows "db_runs db' = db_runs db"
proof -
  have len: "length (host_jobs ops reg run live creds w) = length live" by (simp add: host_jobs_def)
  note keeps = pool_outcome_keeps [OF host_jobs_runs [of "db_runs db" reg run live creds w],
      of order db zero_result]
  from assms keeps show ?thesis by (simp only: len) simp
qed

text \<open>A run that has got as far as its row ends with that row finished, or still running.\<close>

lemma Run_row:
  assumes "inv db" and "scan_orders env opts" and "Run ops reg env opts w db = Some ((smy, err), db')"
    and "sm_run smy \<noteq> []"
  shows "\<exists>r. run_row (sm_run smy) db' = Some r \<and> rn_targets r = sp_specs opts \<and>
    (case err of
       None \<Rightarrow> rn_status r = ''ok'' \<and> rn_found r = sm_persisted smy \<and> rn_finished r \<noteq> None
     | Some e \<Rightarrow> rn_status r = ''running'' \<and> rn_finished r = None)"
proof -
  from RunE [OF assms] obtain addrs run db1 live db2 results db3 where
    c: "so_create_run ops None (sp_specs opts) w db = (Inr run, db1)"
    and d: "db2 = snd (so_discovered ops run (int (length live)) w db1)"
    and p: "pool_outcome (host_jobs ops reg run live (sp_creds opts) w) zero_result
           (se_coll_order env) db2 = (results, db3)"
    and v: "valid_order (length live) (se_coll_order env)"
    and s: "smy = summarize results (zero_summary\<lparr>sm_run := run, sm_discovered := int (length live)\<rparr>)"
    and f: "so_finish ops run ''ok'' (sm_persisted smy) [] w db3 =
           (case err of None \<Rightarrow> Inr () | Some e \<Rightarrow> Inl e, db')"
    by metis
  have run: "sm_run smy = run" by (simp add: s summarize_counts)
  from create_row [OF assms(1) c] obtain t where "run_row run db1 = Some (fresh_run run (sp_specs opts) t)" by blast
  from discovered_row [OF this] obtain k
    where "run_row run db2 = Some ((fresh_run run (sp_specs opts) t)\<lparr>rn_discovered := k\<rparr>)"
    unfolding d by blast
  moreover have "db_runs db3 = db_runs db2" by (rule host_pool_runs [OF v p])
  ultimately have r3: "run_row run db3 = Some ((fresh_run run (sp_specs opts) t)\<lparr>rn_discovered := k\<rparr>)"
    by (simp add: run_row_def)
  show ?thesis
  proof (cases err)
    case None
    with finish_row [OF r3] f show ?thesis by (fastforce simp: run fresh_run_def)
  next
    case (Some e)
    with finish_fails f have "db_runs db' = db_runs db3" by simp
    with r3 Some show ?thesis by (simp add: run run_row_def fresh_run_def)
  qed
qed

end

section \<open>The PostgreSQL store\<close>

interpretation scan_frame: db_invariant "\<lambda>db. (db_runs db, db_events db) = L" for L
  by unfold_locales simp

lemma device_stmts_frame:
  "preserves (\<lambda>db. (db_runs db, db_events db) = L) (insert_device d now)"
  "preserves (\<lambda>db. (db_runs db, db_events db) = L) (update_device did d now)"
  "preserves (\<lambda>db. (db_runs db, db_events db) = L) (clear_ifaces did)"
  "preserves (\<lambda>db. (db_runs db, db_events db) = L) (clear_sw did)"
  "preserves (\<lambda>db. (db_runs db, db_events db) = L) (clear_users did)"
  "preserves (\<lambda>db. (db_runs db, db_events db) = L) (insert_iface did ifc)"
  "preserves (\<lambda>db. (db_runs db, db_events db) = L) (upsert_os did os)"
  "preserves (\<lambda>db. (db_runs db, db_events db) = L) (upsert_hw did hw)"
  "preserves (\<lambda>db. (db_runs db, db_events db) = L) (insert_sw did sw)"
  "preserves (\<lambda>db. (db_runs db, db_events db) = L) (insert_user did u)"
  "preserves (\<lambda>db. (db_runs db, db_events db) = L) (insert_change did run ts ch)"
  unfolding insert_device_def update_device_def clear_ifaces_def clear_sw_def clear_users_def
    insert_iface_def upsert_os_def upsert_hw_def insert_sw_def insert_user_def insert_change_def
  by (rule scan_frame.stmt_preserves, auto simp: Let_def split: sum.splits if_splits)+

lemma lookup_frame:
  "preserves (\<lambda>db. (db_runs db, db_events db) = L) (run_attempts (attempts d))"
  by (rule run_attempts_inv)
     (auto simp: attempts_def Let_def id_by_serial_def id_by_guid_def id_by_macs_def
                 id_by_hostname_def id_by_ip_def intro!: scan_frame.query_preserves)

lemma UpsertDevice_frame: "preserves (\<lambda>db. (db_runs db, db_events db) = L) (UpsertDevice d run c)"
  unfolding UpsertDevice_def write_device_def resolveDevice_def replaceChildren_def
    load_existing_def load_os_def
  by (intro scan_frame.tx_preserves inv_intros device_stmts_frame lookup_frame scan_frame.query_preserves)

lemma CreateRelationship_frame:
  "preserves (\<lambda>db. (db_runs db, db_events db) = L) (CreateRelationship p ch k)"
  unfolding CreateRelationship_def
  by (intro preserves_if preserves_return scan_frame.stmt_preserves) (auto simp: Let_def split: if_splits)

lemma frame_runs:
  "(\<And>L. preserves (\<lambda>db. (db_runs db, db_events db) = L) m) \<Longrightarrow> preserves (\<lambda>db. db_runs db = R) m"
  by (auto simp: preserves_def)

lemma find_append: "find P (xs @ ys) = (case find P xs of None \<Rightarrow> find P ys | Some x \<Rightarrow> Some x)"
  by (induction xs) auto

lemma find_absent [simp]: "k \<notin> key ` set rows \<Longrightarrow> find (\<lambda>r. key r = k) rows = None"
  by (auto simp: find_None_iff)

interpretation pg: scan_store pg_ops db_inv
  by unfold_locales
     (auto simp: pg_ops_def upsert_spec_def intro!: inv_intros dest: UpsertDevice_spec)

interpretation pg: scan_journal pg_ops db_inv
proof unfold_locales
  show "preserves (\<lambda>db. db_runs db = R) (so_upsert pg_ops d run c)" for R d run c
    using frame_runs [OF UpsertDevice_frame] by (simp add: pg_ops_def)
  show "preserves (\<lambda>db. db_runs db = R) (so_relate pg_ops p ch k)" for R p ch k
    using frame_runs [OF CreateRelationship_frame] by (simp add: pg_ops_def)
  show "preserves (\<lambda>db. db_runs db = R) (so_event pg_ops run a cls coll st n err)"
    for R run a cls coll st n err
    by (auto simp: preserves_def pg_ops_def InsertScanEvent_def stmt_def Let_def
             split: option.splits sum.splits if_splits)
  show "run \<noteq> [] \<and> (\<exists>t. run_row run db' = Some (fresh_run run specs t))"
    if "so_create_run pg_ops None specs w db = (Inr run, db')" for db specs w run db'
    using that
    by (auto simp: pg_ops_def CreateScanRun_def run_row_def fresh_run_def find_append Let_def
             elim!: stmt_InrE split: if_splits)
  show "\<exists>k. run_row run (snd (so_discovered pg_ops run n w db)) = Some (r\<lparr>rn_discovered := k\<rparr>)"
    if "run_row run db = Some r" for run db r n w
    using that
    by (auto simp: pg_ops_def SetScanDiscovered_def run_row_def stmt_def Let_def find_update_where
             split: option.splits if_splits intro: exI [of _ "rn_discovered r"])
  show "\<exists>t. run_row run db' =
      Some (r\<lparr>rn_finished := Some t, rn_status := st, rn_found := n, rn_error := None\<rparr>)"
    if "run_row run db = Some r" and "so_finish pg_ops run st n [] w db = (Inr (), db')" for run db r st n w db'
    using that
    by (auto simp: pg_ops_def FinishScanRun_def run_row_def find_update_where nullif_empty_def
             elim!: stmt_InrE split: if_splits intro!: exI [of _ "w_now w (db_tick db)"])
  show "db_runs db' = db_runs db" if "so_finish pg_ops run st n err w db = (Inl e, db')"
    for run st n err w db e db'
    using that
    by (auto simp: pg_ops_def FinishScanRun_def stmt_def Let_def split: option.splits if_splits)
qed

section \<open>Properties of a run\<close>

text \<open>
  A scan run keeps the schema's constraints, whatever the network, the collectors, the
  interleaving of the hosts and the failures of the database are.
\<close>

theorem Run_keeps_schema:
  assumes "db_inv db" and "scan_orders env opts"
    and "Run pg_ops reg env opts w db = Some ((smy, err), db')"
  shows "db_inv db'"
  by (rule pg.Run_inv [OF assms])


text \<open>
  The counts of a summary add up: one result per live host, and collected hosts are
  persisted hosts, which are discovered hosts.
\<close>

theorem Run_counts:
  assumes "db_inv db" and "scan_orders env opts"
    and "Run pg_ops reg env opts w db = Some ((smy, err), db')" and "sm_run smy \<noteq> []"
  shows "int (length (sm_hosts smy)) = sm_discovered smy \<and>
    0 \<le> sm_collected smy \<and> sm_collected smy \<le> sm_persisted smy \<and>
    sm_persisted smy \<le> sm_discovered smy"
proof (rule pg.RunE [OF assms])
  fix addrs run db1 live db2 results db3
  assume "\<forall>r \<in> set results. counted (fst r)" and "length results = length live"
    and "smy = summarize results (zero_summary\<lparr>sm_run := run, sm_discovered := int (length live)\<rparr>)"
  then have q: "\<forall>r \<in> set results. counted (fst r)" and len: "length results = length live"
    and s: "smy = (zero_summary\<lparr>sm_run := run, sm_discovered := int (length live)\<rparr>)\<lparr>
      sm_hosts := map fst results,
      sm_collected := int (length (filter (\<lambda>r. hr_collector (fst r) \<noteq> [] \<and> hr_err (fst r) = None) results)),
      sm_persisted := int (length (filter (\<lambda>r. hr_device (fst r) \<noteq> []) results))\<rparr>"
    by (simp_all add: summarize_counts zero_summary_def)
  have "length (filter (\<lambda>r. hr_device (fst r) \<noteq> []) results) \<le> length live"
    using length_filter_le [of "\<lambda>r. hr_device (fst r) \<noteq> []" results] len by simp
  with collected_le_persisted [OF q] show ?thesis by (simp add: s zero_summary_def len)
qed

section \<open>One event per host\<close>

definition event_facts :: "event_row \<Rightarrow> string \<times> string \<times> string option \<times> string option \<times> string \<times> int \<times> string option" where
  "event_facts e = (ev_run e, ev_addr e, ev_class e, ev_collector e, ev_status e, ev_changes e, ev_error e)"

definition result_facts :: "world \<Rightarrow> string \<Rightarrow> host_result \<Rightarrow> string \<times> string \<times> string option \<times> string option \<times> string \<times> int \<times> string option" where
  "result_facts w run hr =
     (run, hr_addr hr, Some (hr_class hr), Some (hr_collector hr), fst (event_status (w_errtext w) hr),
      hr_changes hr, nullif_empty (snd (event_status (w_errtext w) hr)))"

lemma add_change_length:
  "length ch \<le> n \<Longrightarrow> length (add_change f old new ch) \<le> Suc n"
  "length ch \<le> n \<Longrightarrow> length (if b then add_change f old new ch else ch) \<le> Suc n"
  by (simp_all add: add_change_def)

lemma diffDevice_length: "length (diffDevice ex d) \<le> Suc (Suc (Suc (Suc (Suc (Suc 0)))))"
proof (cases "d_os d")
  case None
  then show ?thesis
    unfolding diffDevice_def Let_def by (simp only: option.case) (intro le_SucI add_change_length, simp)
next
  case (Some os)
  then show ?thesis
    unfolding diffDevice_def Let_def by (simp only: option.case) (intro add_change_length, simp)
qed

lemma frame_events:
  "(\<And>L. preserves (\<lambda>db. (db_runs db, db_events db) = L) m) \<Longrightarrow> preserves (\<lambda>db. db_events db = R) m"
  by (auto simp: preserves_def)

lemma store_related_events: "db_events (store_related pg_ops run parent rels w db) = db_events db"
proof (induction rels arbitrary: db)
  case Nil
  then show ?case by simp
next
  case (Cons rel rels)
  obtain r db1 where u: "UpsertDevice (rel_device rel) run True w db = (r, db1)" by fastforce
  from preservesD [OF frame_events [OF UpsertDevice_frame], OF HOL.refl, of "rel_device rel" run True w db] u
  have "db_events db1 = db_events db" by simp
  with Cons.IH preservesD [OF frame_events [OF CreateRelationship_frame], OF HOL.refl] u show ?case
    by (cases r) (auto simp: pg_ops_def split: prod.splits)
qed

lemma recordEvent_facts:
  assumes "quiet w" and "run \<in> rn_id ` set (db_runs db)" and "0 \<le> hr_changes hr" and "hr_changes hr \<le> 6"
  shows "map event_facts (db_events (recordEvent pg_ops run hr w db)) =
    map event_facts (db_events db) @ [result_facts w run hr]"
proof -
  have "int4_ok (Some (hr_changes hr))" using assms(3,4) by (simp add: int4_ok_def)
  with assms(1,2) show ?thesis
    by (simp add: recordEvent_def pg_ops_def InsertScanEvent_def stmt_quiet event_facts_def
                  result_facts_def split: prod.splits)
qed

lemma processHost_event:
  assumes "quiet w" and "db_inv db" and "run \<in> rn_id ` set (db_runs db)"
    and "processHost pg_ops reg run h creds w db = (hr, db')"
  shows "map event_facts (db_events db') = map event_facts (db_events db) @ [result_facts w run hr]"
proof -
  obtain dev rels name errs where c: "run_collectors (w_errtext w)
      (registry_for reg (ClassifyByPorts (h_ports h)))
      \<lparr>tg_addr = h_addr h, tg_hostname = addr_string (h_addr h),
       tg_class = ClassifyByPorts (h_ports h), tg_creds = creds\<rparr> (base_device h) [] = (dev, rels, name, errs)"
    by (metis prod_cases4)
  obtain r db1 where u: "UpsertDevice dev run (name \<noteq> []) w db = (r, db1)" by fastforce
  from preservesD [OF UpsertDevice_frame, OF HOL.refl, of dev run "name \<noteq> []" w db] u
  have same: "db_runs db1 = db_runs db" "db_events db1 = db_events db" by simp_all
  show ?thesis
  proof (cases r)
    case (Inl e)
    with assms(4) have "db' = recordEvent pg_ops run hr w db1" and "hr_changes hr = 0"
      by (simp_all only: processHost_def Let_def c u Inl prod.case sum.case Pair_inject pg_ops_def
            scan_ops.simps) (auto simp: zero_result_def)
    with recordEvent_facts [OF assms(1), of run db1 hr] assms(3) same show ?thesis by simp
  next
    case (Inr x)
    obtain did chs where x: "x = (did, chs)" by (cases x)
    from UpsertDevice_spec [OF assms(2) u [unfolded Inr x]] have "length chs \<le> 6"
      using diffDevice_length [of "snapshot db did" dev]
      by (auto simp: upsert_spec_def)
    moreover from assms(4) have db': "db' = store_related pg_ops run did rels w (recordEvent pg_ops run hr w db1)"
      and "hr_changes hr = int (length chs)"
      by (simp_all only: processHost_def Let_def c u Inr x prod.case sum.case Pair_inject pg_ops_def
            scan_ops.simps) (auto simp: pg_ops_def)
    ultimately show ?thesis
      using recordEvent_facts [OF assms(1), of run db1 hr] assms(3) same
      by (simp add: db' store_related_events)
  qed
qed

lemma run_order_events:
  assumes "quiet w" and "set (map fst order) \<subseteq> {..<length live}"
    and "db_inv db" and "run \<in> rn_id ` set (db_runs db)"
    and "run_order (host_jobs pg_ops reg run live creds w) order db = (m, db')"
  shows "map event_facts (db_events db') =
    map event_facts (db_events db) @ map (\<lambda>(i, r). result_facts w run (fst r)) m"
  using assms(2-)
proof (induction order arbitrary: db m)
  case Nil
  then show ?case by simp
next
  case (Cons o1 order)
  obtain i b where o1: "o1 = (i, b)" by (cases o1)
  with Cons.prems have i: "i < length live" by simp
  obtain hr db1 where p: "processHost pg_ops reg run (live ! i) creds w db = (hr, db1)" by fastforce
  with i have j: "(host_jobs pg_ops reg run live creds w ! i) b db = ((hr, None), db1)"
    by (simp add: host_jobs_def)
  obtain m' where r: "run_order (host_jobs pg_ops reg run live creds w) order db1 = (m', db')"
    and m: "m = (i, (hr, None)) # m'"
    using Cons.prems(4) by (auto simp: o1 j Let_def split: prod.splits)
  have "db_inv db1" using pg.processHost_inv [OF Cons.prems(2) p] by simp
  moreover have "db_runs db1 = db_runs db" using pg.processHost_runs [of reg run "live ! i" creds w db] p by simp
  ultimately have "map event_facts (db_events db') =
      map event_facts (db_events db1) @ map (\<lambda>(i, r). result_facts w run (fst r)) m'"
    using Cons.IH [OF _ _ _ r] Cons.prems(1,3) by simp
  with processHost_event [OF assms(1) Cons.prems(2,3) p] show ?case by (simp add: m)
qed

lemma outcome_mset:
  assumes "run_order jobs order s = (m, s')" and "valid_order (length jobs) order"
    and "length order = length jobs"
  shows "mset (fst (pool_outcome jobs zero order s)) = mset (map snd m)"
proof -
  have fst_m: "map fst m = map fst order" using fst_run_order [of jobs order s] assms(1) by simp
  with assms(2,3) have d: "distinct (map fst m)" and "set (map fst m) = {0..<length jobs}"
    by (simp_all add: valid_order_def)
  then have "mset (map fst m) = mset [0..<length jobs]"
    using set_eq_iff_mset_eq_distinct [of "map fst m" "[0..<length jobs]"] by simp
  then have all: "mset (map f [0..<length jobs]) = mset (map (f \<circ> fst) m)" for f :: "nat \<Rightarrow> 'a job_result"
    by (metis map_map mset_map)
  have "map ((\<lambda>i. case map_of m i of Some r \<Rightarrow> r | None \<Rightarrow> (zero, Some ctx_err)) \<circ> fst) m = map snd m"
    using d by (auto intro!: map_cong)
  then show ?thesis unfolding pool_outcome_def assms(1) by (simp only: Let_def prod.case fst_conv all)
qed

lemma journal_keeps_events:
  "preserves (\<lambda>db. db_events db = R) (CreateScanRun tgt specs)"
  "preserves (\<lambda>db. db_events db = R) (SetScanDiscovered run n)"
  "preserves (\<lambda>db. db_events db = R) (FinishScanRun run st n err)"
  unfolding CreateScanRun_def SetScanDiscovered_def FinishScanRun_def Let_def
  by (auto simp: preserves_def stmt_def Let_def split: option.splits sum.splits if_splits)

lemma CreateScanRun_fresh:
  assumes "CreateScanRun tgt specs w db = (Inr run, db')"
  shows "run \<notin> rn_id ` set (db_runs db)" and "run \<in> rn_id ` set (db_runs db')"
  using assms unfolding CreateScanRun_def
  by (auto elim!: stmt_InrE simp: Let_def split: if_splits sum.splits)

lemma SetScanDiscovered_ids:
  "rn_id ` set (db_runs (snd (SetScanDiscovered run n w db))) = rn_id ` set (db_runs db)"
proof -
  have "map rn_id (db_runs (snd (SetScanDiscovered run n w db))) = map rn_id (db_runs db)"
    by (auto simp: SetScanDiscovered_def stmt_def Let_def update_where_def split: option.splits)
  then show ?thesis by (metis set_map)
qed

lemma filter_facts:
  "map event_facts (filter (\<lambda>e. ev_run e = run) es) = filter (\<lambda>f. fst f = run) (map event_facts es)"
  by (induction es) (auto simp: event_facts_def)


section \<open>A small network\<close>

text \<open>One host with an open SSH port, and a collector that logs in.\<close>

definition demo_ssh :: collector where
  "demo_ssh = \<lparr>co_name = ''ssh'', co_supports = (\<lambda>c. c = ClassLinux),
     co_collect = (\<lambda>t. Inr \<lparr>rs_target = t, rs_device = demo_device, rs_related = []\<rparr>)\<rparr>"

definition demo_env :: scan_env where
  "demo_env = \<lparr>se_dial = (\<lambda>a p. p = 22), se_done = (\<lambda>_ _. False), se_probe = None,
     se_disc_order = [(0, False)], se_coll_order = [(0, False)]\<rparr>"

definition demo_scan :: scan_options where
  "demo_scan = \<lparr>sp_specs = [''10.0.0.5''], sp_creds = [],
     sp_discovery = \<lparr>do_ports = [], do_timeout = 0, do_concurrency = 0, do_rate = 0, do_jitter = 0\<rparr>,
     sp_workers = 0\<rparr>"

lemma demo_expand: "Expand (sp_specs demo_scan) = Some (Inr [A4 0x0A000005])"
  by (simp add: demo_scan_def Expand_def expand_spec_def addr_eval add_unseen_def)

lemma demo_live: "live_hosts_of demo_env demo_scan [A4 0x0A000005] = [\<lparr>h_addr = A4 0x0A000005, h_ports = [22]\<rparr>]"
  by (simp add: live_hosts_of_def demo_env_def demo_scan_def Discover_def discover_jobs_def
                pool_outcome_def withDefaults_def DefaultTCPPorts_def probe_def mergeHosts_def Let_def
                second_def)

definition demo_result :: "(summary \<times> go_error option) \<times> db" where
  "demo_result = the (Run pg_ops [demo_ssh] demo_env demo_scan demo_world empty_db)"

lemma demo_orders: "scan_orders demo_env demo_scan"
  unfolding scan_orders_def demo_expand
  by (simp add: demo_live) (simp add: demo_env_def valid_order_code)

text \<open>The run on an empty database, without evaluating the collector or the upsert.\<close>

lemma demo_created:
  "CreateScanRun None [''10.0.0.5''] demo_world empty_db =
     (Inr (new_uuid demo_world 0), empty_db\<lparr>db_tick := 1,
        db_runs := [fresh_run (new_uuid demo_world 0) [''10.0.0.5''] 0]\<rparr>)"
  by (simp add: CreateScanRun_def stmt_quiet tick_def empty_db_def fresh_run_def Let_def)

lemma demo_run:
  "Run pg_ops [demo_ssh] demo_env demo_scan demo_world empty_db = Some demo_result"
  "sm_run (fst (fst demo_result)) = new_uuid demo_world 0"
  "length (sm_hosts (fst (fst demo_result))) = 1"
proof -
  obtain results db3 where p: "pool_outcome (host_jobs pg_ops [demo_ssh] (new_uuid demo_world 0)
      [\<lparr>h_addr = A4 0x0A000005, h_ports = [22]\<rparr>] [] demo_world) zero_result [(0, False)]
      (snd (SetScanDiscovered (new_uuid demo_world 0) 1 demo_world (empty_db\<lparr>db_tick := 1,
        db_runs := [fresh_run (new_uuid demo_world 0) [''10.0.0.5''] 0]\<rparr>))) = (results, db3)"
    by fastforce
  with length_pool_outcome have len: "length results = 1"
    by (metis (no_types, lifting) fst_conv length_Cons length_map list.size(3) host_jobs_def One_nat_def)
  have creds: "sp_creds demo_scan = []" and ord: "se_coll_order demo_env = [(0, False)]"
    and specs: "sp_specs demo_scan = [''10.0.0.5'']"
    by (simp_all add: demo_scan_def demo_env_def)
  have ops: "so_create_run pg_ops = CreateScanRun" "so_discovered pg_ops = SetScanDiscovered"
    by (simp_all add: pg_ops_def)
  obtain f db4 where f: "so_finish pg_ops (new_uuid demo_world 0) ''ok''
      (sm_persisted (summarize results (zero_summary\<lparr>sm_run := new_uuid demo_world 0, sm_discovered := 1\<rparr>)))
      [] demo_world db3 = (f, db4)" by fastforce
  have "Run pg_ops [demo_ssh] demo_env demo_scan demo_world empty_db =
     Some ((summarize results (zero_summary\<lparr>sm_run := new_uuid demo_world 0, sm_discovered := 1\<rparr>),
            case f of Inl e \<Rightarrow> Some e | Inr _ \<Rightarrow> None), db4)"
    using p f
    by (simp add: Run_def demo_expand [unfolded specs] demo_live ops demo_created creds ord specs Let_def
             split: sum.splits)
  then show "Run pg_ops [demo_ssh] demo_env demo_scan demo_world empty_db = Some demo_result"
    "sm_run (fst (fst demo_result)) = new_uuid demo_world 0"
    "length (sm_hosts (fst (fst demo_result))) = 1"
    using len by (simp_all add: demo_result_def summarize_counts zero_summary_def)
qed

lemma demo_run_parts: "Run pg_ops [demo_ssh] demo_env demo_scan demo_world empty_db =
    Some ((fst (fst demo_result), snd (fst demo_result)), snd demo_result)"
  by (simp add: demo_run(1))

lemma Run_keeps_schema_witness: "db_inv (snd demo_result)"
  by (rule Run_keeps_schema [OF db_inv_empty demo_orders demo_run_parts])


lemma Run_counts_witness:
  "sm_discovered (fst (fst demo_result)) = 1 \<and> sm_persisted (fst (fst demo_result)) \<le> 1"
proof -
  have "int (length (sm_hosts (fst (fst demo_result)))) = sm_discovered (fst (fst demo_result)) \<and>
    0 \<le> sm_collected (fst (fst demo_result)) \<and>
    sm_collected (fst (fst demo_result)) \<le> sm_persisted (fst (fst demo_result)) \<and>
    sm_persisted (fst (fst demo_result)) \<le> sm_discovered (fst (fst demo_result))"
    by (rule Run_counts [OF db_inv_empty demo_orders demo_run_parts]) (simp add: demo_run(2))
  then show ?thesis by (simp add: demo_run(3))
qed


text \<open>A hypervisor and one machine it hosts, known from a scan of its own.\<close>

definition demo_vm :: related where
  "demo_vm = \<lparr>rel_device = empty_device\<lparr>d_type := TypeVM, d_hostname := ''web1'', d_source := ''proxmox''\<rparr>,
     rel_kind = ''hosts-vm''\<rparr>"

definition demo_hypervisor :: device_row where
  "demo_hypervisor = \<lparr>dr_id = ''h1'', dr_type = TypeHypervisor, dr_hostname = Some ''pve'',
     dr_ip = Some ''10.0.0.9'', dr_serial = None, dr_tag = None, dr_guid = None,
     dr_source = Some ''proxmox'', dr_first = 4, dr_last = 4, dr_updated = 4\<rparr>"

definition demo_cluster :: db where
  "demo_cluster = demo_db\<lparr>db_devices := demo_hypervisor # db_devices demo_db\<rparr>"

lemma demo_id_other [simp]: "demo_id \<noteq> ''h1''" "''h1'' \<noteq> demo_id"
proof -
  have len: "length demo_id = 36" by (simp add: demo_id_def new_uuid_def uuid_text_def Let_def)
  show "demo_id \<noteq> ''h1''"
  proof
    assume "demo_id = ''h1''"
    then have "length demo_id = length ''h1''" by (rule arg_cong)
    then show False by (simp only: len) simp
  qed
  then show "''h1'' \<noteq> demo_id" by (rule not_sym)
qed

lemmas vm_eval = demo_cluster_def demo_hypervisor_def demo_vm_def demo_eval to_lower_def lower_char_def

lemma demo_vm_kind: "rel_kind demo_vm = ''hosts-vm''"
  by (simp add: demo_vm_def)

lemma pg_simps: "so_upsert pg_ops = UpsertDevice" "so_relate pg_ops = CreateRelationship"
  by (simp_all add: pg_ops_def)

lemma vm_upsert:
  "fst (UpsertDevice (rel_device demo_vm) [] True demo_world demo_cluster) =
     Inr (demo_id, [\<lparr>ce_field = ''device_type'', ce_old = ''linux'', ce_new = ''vm''\<rparr>])"
  "db_sw (snd (UpsertDevice (rel_device demo_vm) [] True demo_world demo_cluster)) = []"
  "map (\<lambda>r. (dr_id r, dr_type r)) (db_devices (snd (UpsertDevice (rel_device demo_vm) [] True demo_world demo_cluster))) =
     [(''h1'', ''hypervisor''), (demo_id, ''vm'')]"
  unfolding demo_cluster_def by (subst demo_db_eval, simp add: vm_eval)+

text \<open>
  A hypervisor scan erases what a scan of the virtual machine itself found. The engine
  stores every related device as collected although only the hypervisor was asked: a machine
  known by host name from its own scan (here with its software) is matched, loses its software
  rows and becomes of type vm; the comment on \<open>UpsertDevice\<close> promises that a shallow pass never
  erases inventory from a deep scan.
\<close>

theorem vm_listing_erases_inventory:
  "map sr_name (db_sw demo_cluster) = [''nginx''] \<and>
   (let db' = store_related pg_ops [] ''h1'' [demo_vm] demo_world demo_cluster
    in db_sw db' = [] \<and>
       map (\<lambda>r. (dr_id r, dr_type r)) (db_devices db') = [(''h1'', ''hypervisor''), (demo_id, ''vm'')])"
proof -
  obtain chs db1 where u: "UpsertDevice (rel_device demo_vm) [] True demo_world demo_cluster = (Inr (demo_id, chs), db1)"
    using vm_upsert(1) by (metis prod.collapse)
  have "db_sw (snd (CreateRelationship ''h1'' demo_id ''hosts-vm'' demo_world db)) = db_sw db \<and>
      db_devices (snd (CreateRelationship ''h1'' demo_id ''hosts-vm'' demo_world db)) = db_devices db" for db
    by (auto simp: CreateRelationship_def stmt_def Let_def split: option.splits if_splits)
  then have "db_sw (store_related pg_ops [] ''h1'' [demo_vm] demo_world demo_cluster) = db_sw db1 \<and>
      db_devices (store_related pg_ops [] ''h1'' [demo_vm] demo_world demo_cluster) = db_devices db1"
    by (simp only: store_related.simps u pg_simps prod.case sum.case demo_vm_kind simp_thms)
  moreover have "map sr_name (db_sw demo_cluster) = [''nginx'']"
    unfolding demo_cluster_def by (subst demo_db_eval) simp
  ultimately show ?thesis using vm_upsert(2,3) by (simp only: u Let_def snd_conv simp_thms)
qed

end
