(* ===== verification/Ssh.thy ===== *)
theory Ssh
  imports Model
begin

text \<open>
  \<open>internal/collector/ssh\<close>: the parsers of the commands' outputs (\<open>parse.go\<close>), the OS
  profiles (\<open>profile.go\<close>, \<open>profile_nixos.go\<close>) and \<open>Collect\<close> (\<open>ssh.go\<close>). The remote host
  is a parameter, \<open>ssh_net\<close>: whether the key parses, the dial and the handshake succeed, and
  what each command prints.
\<close>

section \<open>Lines\<close>

definition newline :: char where [simp]: "newline = CHR 0x0A"
definition tab :: char where [simp]: "tab = CHR 0x09"

definition lines :: "string \<Rightarrow> string list" where
  "lines s = split_on newline s"

fun first_nonempty :: "string list \<Rightarrow> string" where
  "first_nonempty [] = []"
| "first_nonempty (l # ls) = (let line = trim_space l in if line \<noteq> [] then line else first_nonempty ls)"

definition firstLine :: "string \<Rightarrow> string" where
  "firstLine s = first_nonempty (lines s)"

section \<open>Parsers\<close>

fun os_release_kv :: "string list \<Rightarrow> (string \<rightharpoonup> string) \<Rightarrow> string \<rightharpoonup> string" where
  "os_release_kv [] kv = kv"
| "os_release_kv (l # ls) kv =
     (let (k, v, ok) = cut (CHR ''='') (trim_space l)
      in os_release_kv ls (if \<not> ok then kv else kv(k \<mapsto> trim_set (trim_space v) [CHR 0x22, CHR 0x27])))"

definition kv_get :: "(string \<rightharpoonup> string) \<Rightarrow> string \<Rightarrow> string" where
  "kv_get kv k = (case kv k of None \<Rightarrow> [] | Some v \<Rightarrow> v)"

definition parseOSRelease :: "string \<Rightarrow> string \<times> string \<times> string" where
  "parseOSRelease content =
     (let kv = os_release_kv (lines content) Map.empty;
          pretty = kv_get kv ''PRETTY_NAME'';
          name = (if pretty = [] then kv_get kv ''NAME'' else pretty)
      in (name, kv_get kv ''VERSION_ID'', to_lower (kv_get kv ''ID'')))"

text \<open>Each loop over the lines appends what one line gives: nothing, or one element.\<close>

definition tabbed_line :: "string \<Rightarrow> software list" where
  "tabbed_line l =
     (let line = trim_space l
      in if line = [] then []
         else (let (name0, ver, _) = cut tab line; name = trim_space name0
               in if name = [] then []
                  else [empty_software\<lparr>sw_name := name, sw_version := trim_space ver\<rparr>]))"

definition parseTabbed :: "string \<Rightarrow> software list" where
  "parseTabbed out = concat (map tabbed_line (lines out))"

definition apk_line :: "string \<Rightarrow> software list" where
  "apk_line l =
     (let line = trim_space l
      in if line = [] then []
         else (let parts = split_on (CHR ''-'') line; n = length parts
               in if 3 \<le> n
                  then [empty_software\<lparr>sw_name := join ''-'' (take (n - 2) parts),
                          sw_version := parts ! (n - 2) @ ''-'' @ parts ! (n - 1)\<rparr>]
                  else [empty_software\<lparr>sw_name := line\<rparr>]))"

definition parseApk :: "string \<Rightarrow> software list" where
  "parseApk out = concat (map apk_line (lines out))"

definition normalizeIfName :: "string \<Rightarrow> string" where
  "normalizeIfName f0 =
     (let f = trim_suffix f0 '':''
      in case index_byte f (CHR ''@'') of None \<Rightarrow> f | Some i \<Rightarrow> take i f)"

text \<open>The loop over the fields of a line: the second field, and the field after a keyword.\<close>

fun scan_fields :: "string list \<Rightarrow> nat \<Rightarrow> string list \<Rightarrow> string \<times> string \<Rightarrow> string \<times> string" where
  "scan_fields keys i [] acc = acc"
| "scan_fields keys i (f # rest) (name, val) =
     scan_fields keys (Suc i) rest
       (if i = 1 then normalizeIfName f else name,
        if f \<in> set keys then (case rest of [] \<Rightarrow> val | v # _ \<Rightarrow> v) else val)"

definition link_line :: "string \<Rightarrow> iface list" where
  "link_line l =
     (let line = trim_space l
      in if line = [] then []
         else (let (name, mac) = scan_fields [''link/ether''] 0 (GoStrings.fields line) ([], [])
               in if name = [] \<or> name = ''lo'' \<or> mac = [] then []
                  else [empty_iface\<lparr>if_name := name, if_mac := mac\<rparr>]))"

definition parseIPLink :: "string \<Rightarrow> iface list" where
  "parseIPLink out = concat (map link_line (lines out))"

text \<open>\<open>byName\<close> maps a name to the last interface that has it.\<close>

fun last_named :: "string \<Rightarrow> nat \<Rightarrow> iface list \<Rightarrow> nat option" where
  "last_named name i [] = None"
| "last_named name i (ifc # ifcs) =
     (case last_named name (Suc i) ifcs of
        Some j \<Rightarrow> Some j
      | None \<Rightarrow> if if_name ifc = name then Some i else None)"

definition apply_addr :: "string \<Rightarrow> iface list \<Rightarrow> iface list" where
  "apply_addr l ifaces =
     (let (name, cidr) = scan_fields [''inet'', ''inet6''] 0 (GoStrings.fields (trim_space l)) ([], [])
      in case last_named name 0 ifaces of
           None \<Rightarrow> ifaces
         | Some i \<Rightarrow>
             if cidr = [] \<or> is_valid (if_ip (ifaces ! i)) then ifaces
             else (case parse_prefix cidr of
                     None \<Rightarrow> ifaces
                   | Some pfx \<Rightarrow> ifaces[i := (ifaces ! i)\<lparr>if_ip := cidr_addr pfx\<rparr>]))"

definition applyIPAddrs :: "iface list \<Rightarrow> string \<Rightarrow> iface list" where
  "applyIPAddrs ifaces out = fold apply_addr (lines out) ifaces"

definition maxUID :: int where
  "maxUID = 65000"

definition passwd_line :: "int \<Rightarrow> string \<Rightarrow> user_account list" where
  "passwd_line minUID l =
     (let line = trim_space l
      in if line = [] then []
         else (let f = split_on (CHR '':'') line
               in if length f < 7 then []
                  else (case atoi (f ! 2) of
                          None \<Rightarrow> []
                        | Some uid \<Rightarrow>
                            if uid \<noteq> 0 \<and> (uid < minUID \<or> maxUID \<le> uid) then []
                            else (let full = (case index_byte (f ! 4) (CHR '','') of
                                                None \<Rightarrow> f ! 4 | Some i \<Rightarrow> take i (f ! 4))
                                  in [\<lparr>ua_username = f ! 0, ua_fullname = trim_space full,
                                       ua_lastlogon = None, ua_local = True\<rparr>]))))"

definition parsePasswd :: "string \<Rightarrow> int \<Rightarrow> user_account list" where
  "parsePasswd out minUID = concat (map (passwd_line minUID) (lines out))"

fun mem_total :: "string list \<Rightarrow> int" where
  "mem_total [] = 0"
| "mem_total (line # ls) =
     (if \<not> has_prefix line ''MemTotal:'' then mem_total ls
      else (let fs = GoStrings.fields line
            in if 2 \<le> length fs
               then (case atoi (fs ! 1) of Some kb \<Rightarrow> wrap64 (kb * 1024) | None \<Rightarrow> mem_total ls)
               else mem_total ls))"

definition parseMemTotalBytes :: "string \<Rightarrow> int" where
  "parseMemTotalBytes out = mem_total (lines out)"

fun cpu_lines :: "string list \<Rightarrow> string \<times> int \<Rightarrow> string \<times> int" where
  "cpu_lines [] acc = acc"
| "cpu_lines (line # ls) (modelName, cores) =
     (let (key0, val, ok) = cut (CHR '':'') line
      in if \<not> ok then cpu_lines ls (modelName, cores)
         else (let key = trim_space key0
               in if key = ''processor'' then cpu_lines ls (modelName, cores + 1)
                  else if key = ''model name'' \<or> key = ''Model''
                  then cpu_lines ls (if modelName = [] then trim_space val else modelName, cores)
                  else cpu_lines ls (modelName, cores)))"

definition parseCPUInfo :: "string \<Rightarrow> string \<times> int" where
  "parseCPUInfo out = cpu_lines (lines out) ([], 0)"

section \<open>NixOS store paths\<close>

text \<open>
  The three regular expressions: \<open>^[a-z0-9]{32}-(.+)$\<close> as a test of a 33-byte head; the lazy
  \<open>^(.+?)-([0-9][a-zA-Z0-9.+_~-]*)$\<close> as the first dash, after at least one byte, whose
  rest is a version; \<open>-(bin|man|\<dots>)$\<close> as a suffix to drop.
\<close>

definition in_range :: "char \<Rightarrow> char \<Rightarrow> char \<Rightarrow> bool" where
  "in_range lo hi c \<longleftrightarrow> (of_char lo :: nat) \<le> of_char c \<and> (of_char c :: nat) \<le> of_char hi"

definition hash_char :: "char \<Rightarrow> bool" where
  "hash_char c \<longleftrightarrow> in_range (CHR ''a'') (CHR ''z'') c \<or> is_digit c"

definition version_char :: "char \<Rightarrow> bool" where
  "version_char c \<longleftrightarrow> in_range (CHR ''a'') (CHR ''z'') c \<or> in_range (CHR ''A'') (CHR ''Z'') c \<or>
     is_digit c \<or> c \<in> set ''.+_~-''"

definition nix_hash :: "string \<Rightarrow> string option" where
  "nix_hash b =
     (if 33 < length b \<and> list_all hash_char (take 32 b) \<and> b ! 32 = CHR ''-''
      then Some (drop 33 b) else None)"

definition version_text :: "string \<Rightarrow> bool" where
  "version_text v \<longleftrightarrow> v \<noteq> [] \<and> is_digit (hd v) \<and> list_all version_char (tl v)"

fun nix_split :: "string \<Rightarrow> string \<Rightarrow> (string \<times> string) option" where
  "nix_split name [] = None"
| "nix_split name (c # cs) =
     (if name \<noteq> [] \<and> c = CHR ''-'' \<and> version_text cs then Some (rev name, cs)
      else nix_split (c # name) cs)"

definition nix_outputs :: "string list" where
  "nix_outputs = [''-bin'', ''-man'', ''-dev'', ''-devdoc'', ''-doc'', ''-info'', ''-lib'', ''-out'',
                  ''-static'', ''-debug'']"

definition strip_output :: "string \<Rightarrow> string" where
  "strip_output v = (case find (has_suffix v) nix_outputs of None \<Rightarrow> v | Some x \<Rightarrow> trim_suffix v x)"

text \<open>\<open>line[strings.LastIndexByte(line, '/')+1:]\<close>\<close>

definition base_name :: "string \<Rightarrow> string" where
  "base_name s = last (split_on (CHR ''/'') s)"

definition nix_package :: "string \<Rightarrow> (string \<times> string) option" where
  "nix_package line =
     (case nix_hash (base_name line) of
        None \<Rightarrow> None
      | Some m \<Rightarrow> (case nix_split [] m of
                     None \<Rightarrow> Some (m, [])
                   | Some (name, v) \<Rightarrow> Some (name, strip_output v)))"

fun nix_lines :: "string list \<Rightarrow> string set \<Rightarrow> software list \<Rightarrow> software list" where
  "nix_lines [] seen sw = sw"
| "nix_lines (l # ls) seen sw =
     (let line = trim_space l
      in if line = [] then nix_lines ls seen sw
         else (case nix_package line of
                 None \<Rightarrow> nix_lines ls seen sw
               | Some (name, version) \<Rightarrow>
                   (let key = name @ [CHR 0x00] @ version
                    in if key \<in> seen then nix_lines ls seen sw
                       else nix_lines ls (insert key seen)
                              (sw @ [empty_software\<lparr>sw_name := name, sw_version := version\<rparr>]))))"

definition parseNixStorePackages :: "string \<Rightarrow> software list" where
  "parseNixStorePackages out = nix_lines (lines out) {} []"

section \<open>Profiles\<close>

type_synonym runner = "string \<Rightarrow> string"

record os_facts =
  of_id :: string
  of_name :: string
  of_version :: string
  of_kernel :: string
  of_arch :: string
  of_uname :: string

record profile =
  pf_name :: string
  pf_match :: "os_facts \<Rightarrow> bool"
  pf_software :: "runner \<Rightarrow> software list"

text \<open>The commands; a quote and a backslash are spelt by their codes.\<close>

definition quoted :: "string \<Rightarrow> string" where
  "quoted s = [CHR 0x27] @ s @ [CHR 0x27]"

definition cmd_nix :: string where
  "cmd_nix = ''/run/current-system/sw/bin/nix-store -q --references /run/current-system/sw 2>/dev/null''"

definition cmd_dpkg :: string where
  "cmd_dpkg = ''command -v dpkg-query >/dev/null 2>&1 && dpkg-query -W -f='' @
     quoted (''${Package}'' @ [CHR 0x5C] @ ''t${Version}'' @ [CHR 0x5C] @ ''n'') @ '' 2>/dev/null''"

definition cmd_rpm :: string where
  "cmd_rpm = ''command -v rpm >/dev/null 2>&1 && rpm -qa --qf '' @
     quoted (''%{NAME}'' @ [CHR 0x5C] @ ''t%{VERSION}-%{RELEASE}'' @ [CHR 0x5C] @ ''n'') @ '' 2>/dev/null''"

definition cmd_apk :: string where
  "cmd_apk = ''command -v apk >/dev/null 2>&1 && apk info -v 2>/dev/null''"

definition nixosProfile :: profile where
  "nixosProfile = \<lparr>pf_name = ''nixos'', pf_match = (\<lambda>f. of_id f = ''nixos''),
     pf_software = (\<lambda>run. parseNixStorePackages (run cmd_nix))\<rparr>"

definition generic_software :: "runner \<Rightarrow> software list" where
  "generic_software run =
     (let dpkg = run cmd_dpkg; sw1 = parseTabbed dpkg
      in if dpkg \<noteq> [] \<and> 0 < length sw1 then sw1
         else (let rpm = run cmd_rpm; sw2 = parseTabbed rpm
               in if rpm \<noteq> [] \<and> 0 < length sw2 then sw2
                  else (let apk = run cmd_apk; sw3 = parseApk apk
                        in if apk \<noteq> [] \<and> 0 < length sw3 then sw3 else [])))"

definition genericProfile :: profile where
  "genericProfile = \<lparr>pf_name = ''generic'', pf_match = (\<lambda>f. True), pf_software = generic_software\<rparr>"

definition profiles :: "profile list" where
  "profiles = [nixosProfile]"

definition selectProfile :: "os_facts \<Rightarrow> profile" where
  "selectProfile f = (case find (\<lambda>p. pf_match p f) profiles of None \<Rightarrow> genericProfile | Some p \<Rightarrow> p)"

definition familyFor :: "os_facts \<Rightarrow> string" where
  "familyFor f = (if contains (of_uname f) ''FreeBSD'' then ''freebsd''
                  else if contains (of_uname f) ''Darwin'' then ''macos'' else ''linux'')"

definition typeFor :: "os_facts \<Rightarrow> device_type" where
  "typeFor f = (if familyFor f = ''macos'' then TypeMac else TypeLinux)"

section \<open>Collecting\<close>

definition ssh_collectHardware :: "runner \<Rightarrow> hardware option" where
  "ssh_collectHardware run =
     (let (cpu, cores) = parseCPUInfo (run ''cat /proc/cpuinfo 2>/dev/null'');
          hw = \<lparr>hw_vendor = firstLine (run ''cat /sys/class/dmi/id/sys_vendor 2>/dev/null''),
                hw_model = firstLine (run ''cat /sys/class/dmi/id/product_name 2>/dev/null''),
                hw_serial = firstLine (run ''cat /sys/class/dmi/id/product_serial 2>/dev/null''),
                hw_cpu = cpu, hw_cores = cores,
                hw_ram = parseMemTotalBytes (run ''cat /proc/meminfo 2>/dev/null'')\<rparr>
      in if hw_vendor hw = [] \<and> hw_model hw = [] \<and> hw_serial hw = [] \<and> hw_cpu hw = [] \<and> hw_ram hw = 0
         then None else Some hw)"

text \<open>The session: what the library answers to a key, a dial, a handshake and a command.\<close>

record ssh_net =
  sn_key :: "string \<Rightarrow> go_error option"
  sn_dial :: "addr \<Rightarrow> int \<Rightarrow> go_error option"
  sn_handshake :: "addr \<Rightarrow> credential \<Rightarrow> go_error option"
  sn_run :: "addr \<Rightarrow> credential \<Rightarrow> runner"

record ssh_collector =
  ssh_port :: int
  ssh_min_uid :: int

definition ssh_New :: ssh_collector where
  "ssh_New = \<lparr>ssh_port = 22, ssh_min_uid = 1000\<rparr>"

definition ssh_pickCredential :: "credential list \<Rightarrow> credential option" where
  "ssh_pickCredential creds = pick_kind [''ssh-password'', ''ssh-key''] creds"

definition ssh_Supports :: "device_class \<Rightarrow> bool" where
  "ssh_Supports c \<longleftrightarrow> c = ClassLinux \<or> c = ClassMac \<or> c = ClassUnknown"

definition authMethod :: "ssh_net \<Rightarrow> credential \<Rightarrow> go_error option" where
  "authMethod net cred =
     (if cr_kind cred = ''ssh-key''
      then map_option (ErrWrap ''parse ssh key: '') (sn_key net (cr_secret cred))
      else if cr_kind cred = ''ssh-password'' then None
      else Some (ErrText (''unsupported ssh credential kind '' @ [CHR 0x22] @ cr_kind cred @ [CHR 0x22])))"

text \<open>The device an open session gives.\<close>

definition ssh_device :: "ssh_collector \<Rightarrow> runner \<Rightarrow> addr \<Rightarrow> device" where
  "ssh_device c run a =
     (let h = firstLine (run ''hostname -f 2>/dev/null || hostname'');
          (name, version, did) = parseOSRelease (run ''cat /etc/os-release 2>/dev/null'');
          facts = \<lparr>of_id = did, of_name = name, of_version = version,
                   of_kernel = firstLine (run ''uname -r''), of_arch = firstLine (run ''uname -m''),
                   of_uname = firstLine (run ''uname -s'')\<rparr>
      in empty_device\<lparr>d_type := typeFor facts, d_ip := a, d_source := ''ssh'', d_hostname := h,
           d_os := Some \<lparr>os_family = familyFor facts, os_name = name, os_version = version,
                         os_build = of_kernel facts, os_arch = of_arch facts\<rparr>,
           d_ifaces := applyIPAddrs (parseIPLink (run ''ip -o link show 2>/dev/null''))
                         (run ''ip -o addr show 2>/dev/null''),
           d_sw := pf_software (selectProfile facts) run,
           d_users := parsePasswd (run ''getent passwd 2>/dev/null || cat /etc/passwd'') (ssh_min_uid c),
           d_hw := ssh_collectHardware run\<rparr>)"

definition ssh_Collect :: "ssh_collector \<Rightarrow> ssh_net \<Rightarrow> target \<Rightarrow> go_error + result" where
  "ssh_Collect c net t =
     (case ssh_pickCredential (tg_creds t) of
        None \<Rightarrow> Inl ErrNoCredential
      | Some cred \<Rightarrow>
          (case authMethod net cred of
             Some e \<Rightarrow> Inl e
           | None \<Rightarrow>
               (let port = (if ssh_port c = 0 then 22 else ssh_port c)
                in case sn_dial net (tg_addr t) port of
                     Some e \<Rightarrow> Inl (ErrWrap ''dial: '' e)
                   | None \<Rightarrow>
                       (case sn_handshake net (tg_addr t) cred of
                          Some e \<Rightarrow> Inl (ErrWrap ''ssh handshake: '' e)
                        | None \<Rightarrow> Inr \<lparr>rs_target = t,
                                       rs_device = ssh_device c (sn_run net (tg_addr t) cred) (tg_addr t),
                                       rs_related = []\<rparr>))))"

definition ssh_collector_of :: "ssh_net \<Rightarrow> collector" where
  "ssh_collector_of net =
     \<lparr>co_name = ''ssh'', co_supports = ssh_Supports, co_collect = ssh_Collect ssh_New net\<rparr>"

end
