(* ===== verification/SshSpec.thy ===== *)
theory SshSpec
  imports Ssh
begin

text \<open>
  What the SSH parsers guarantee: package lists and account lists that are printed the way
  the tools print them are read back exactly, NixOS packages are listed once, addresses are
  assigned without touching names or MACs.
\<close>

section \<open>Printed lists\<close>

definition unlines :: "string list \<Rightarrow> string" where
  "unlines ls = concat (map (\<lambda>l. l @ [newline]) ls)"

lemma lines_unlines: "\<forall>l \<in> set ls. newline \<notin> set l \<Longrightarrow> lines (unlines ls) = ls @ [[]]"
  by (induction ls) (auto simp: lines_def unlines_def split_on_append)

definition tidy :: "string \<Rightarrow> bool" where
  "tidy s \<longleftrightarrow> s = [] \<or> (plain_char (hd s) \<and> plain_char (last s))"

lemma tidy_trim: "tidy s \<Longrightarrow> trim_space s = s"
  by (rule trim_space_plain) (auto simp: tidy_def)

lemma tidy_ends: "tidy a \<Longrightarrow> tidy b \<Longrightarrow> a \<noteq> [] \<Longrightarrow> b \<noteq> [] \<Longrightarrow> tidy (a @ m @ b)"
  by (auto simp: tidy_def)

subsection \<open>Packages\<close>

definition package_ok :: "software \<Rightarrow> bool" where
  "package_ok s \<longleftrightarrow> sw_name s \<noteq> [] \<and> tidy (sw_name s) \<and> tidy (sw_version s) \<and>
     tab \<notin> set (sw_name s) \<and> newline \<notin> set (sw_name s) \<and> newline \<notin> set (sw_version s) \<and>
     sw_vendor s = [] \<and> sw_date s = []"

text \<open>A line of \<open>dpkg-query\<close> or \<open>rpm\<close> with the formats of \<open>profile.go\<close>.\<close>

definition print_package :: "software \<Rightarrow> string" where
  "print_package s = sw_name s @ [tab] @ sw_version s"

lemma trim_name_tab:
  assumes "tidy name" and "name \<noteq> []" and "tidy ver"
  shows "trim_space (name @ [tab] @ ver) = (if ver = [] then name else name @ [tab] @ ver)"
proof (cases "ver = []")
  case True
  have "trim_left (name @ [tab]) = name @ [tab]"
    using assms(1,2) plain_char_space_len [OF _ utf8_spaces_not_plain, of "hd name" "tl name @ [tab]"]
    by (cases name) (auto simp: trim_left_def strip_lead_stop tidy_def)
  moreover have "trim_right (name @ [tab]) = trim_right name"
    by (simp add: trim_right_def strip_lead_space ascii_space_def)
  moreover have "trim_right name = name"
  proof -
    have "trim_space name = name" by (rule tidy_trim [OF assms(1)])
    moreover have "trim_left name = name"
      using assms(1,2) plain_char_space_len [OF _ utf8_spaces_not_plain, of "hd name" "tl name"]
      by (cases name) (auto simp: trim_left_def strip_lead_stop tidy_def)
    ultimately show ?thesis by (simp add: trim_space_def)
  qed
  ultimately show ?thesis by (simp add: True trim_space_def)
next
  case False
  with assms show ?thesis using tidy_trim [OF tidy_ends [of name ver "[tab]"]] by simp
qed

lemma tabbed_line_print:
  assumes "package_ok s"
  shows "tabbed_line (print_package s) = [s]"
proof -
  have s: "s = empty_software\<lparr>sw_name := sw_name s, sw_version := sw_version s\<rparr>"
    using assms by (cases s) (simp add: package_ok_def empty_software_def)
  have "tabbed_line (print_package s) = [empty_software\<lparr>sw_name := sw_name s, sw_version := sw_version s\<rparr>]"
    using assms trim_name_tab [of "sw_name s" "sw_version s"] cut_append [of tab "sw_name s" "sw_version s"]
      cut_none [of tab "sw_name s"]
    by (auto simp: tabbed_line_def print_package_def package_ok_def Let_def tidy_trim)
  with s show ?thesis by simp
qed

lemma tabbed_line_Nil [simp]: "tabbed_line [] = []"
  by (simp add: tabbed_line_def)

text \<open>
  (C38) Package lists are read back exactly: for any packages with a name (names and versions
  that neither start nor end with white space, names without a tab), the lines the package
  manager prints for them parse to the same packages, in order.
\<close>

theorem parseTabbed_roundtrip:
  assumes "\<forall>s \<in> set sws. package_ok s"
  shows "parseTabbed (unlines (map print_package sws)) = sws"
proof -
  have "\<forall>l \<in> set (map print_package sws). newline \<notin> set l"
    using assms by (auto simp: print_package_def package_ok_def)
  then have "parseTabbed (unlines (map print_package sws)) =
      concat (map tabbed_line (map print_package sws))"
    by (simp add: parseTabbed_def lines_unlines)
  also have "\<dots> = sws" using assms by (induction sws) (simp_all add: tabbed_line_print)
  finally show ?thesis .
qed

lemma parseTabbed_roundtrip_witness:
  "parseTabbed (unlines (map print_package
     [empty_software\<lparr>sw_name := ''openssl'', sw_version := ''3.0.11-1~deb12u2''\<rparr>,
      empty_software\<lparr>sw_name := ''base-files''\<rparr>])) =
     [empty_software\<lparr>sw_name := ''openssl'', sw_version := ''3.0.11-1~deb12u2''\<rparr>,
      empty_software\<lparr>sw_name := ''base-files''\<rparr>]"
  by (rule parseTabbed_roundtrip) (simp add: package_ok_def tidy_def plain_char_def empty_software_def)

subsection \<open>Accounts\<close>

record passwd_entry =
  pe_name :: string
  pe_uid :: int
  pe_full :: string
  pe_home :: string
  pe_shell :: string

definition print_entry :: "passwd_entry \<Rightarrow> string" where
  "print_entry e = join '':'' [pe_name e, ''x'', itoa (pe_uid e), ''100'', pe_full e, pe_home e, pe_shell e]"

definition field_ok :: "string \<Rightarrow> bool" where
  "field_ok s \<longleftrightarrow> CHR '':'' \<notin> set s \<and> newline \<notin> set s"

definition entry_ok :: "passwd_entry \<Rightarrow> bool" where
  "entry_ok e \<longleftrightarrow> pe_name e \<noteq> [] \<and> plain_char (hd (pe_name e)) \<and> field_ok (pe_name e) \<and>
     - (2 ^ 63) \<le> pe_uid e \<and> pe_uid e < 2 ^ 63 \<and>
     field_ok (pe_full e) \<and> tidy (pe_full e) \<and> CHR '','' \<notin> set (pe_full e) \<and>
     field_ok (pe_home e) \<and> field_ok (pe_shell e) \<and> pe_shell e \<noteq> [] \<and> plain_char (last (pe_shell e))"

definition visible :: "int \<Rightarrow> passwd_entry \<Rightarrow> bool" where
  "visible minUID e \<longleftrightarrow> pe_uid e = 0 \<or> (minUID \<le> pe_uid e \<and> pe_uid e < 65000)"

definition entry_user :: "passwd_entry \<Rightarrow> user_account" where
  "entry_user e = \<lparr>ua_username = pe_name e, ua_fullname = pe_full e, ua_lastlogon = None, ua_local = True\<rparr>"

lemma itoa_field: "field_ok (itoa i)"
proof -
  have "CHR '':'' \<notin> set (nat_str n)" and "newline \<notin> set (nat_str n)" for n
    using nat_str_chars [of "CHR '':''" n] nat_str_chars [of newline n] by (auto simp: is_digit_def)
  then show ?thesis by (simp add: field_ok_def itoa_def)
qed

lemma print_entry_fields:
  assumes "entry_ok e"
  shows "split_on (CHR '':'') (print_entry e) =
    [pe_name e, ''x'', itoa (pe_uid e), ''100'', pe_full e, pe_home e, pe_shell e]"
proof -
  have "\<forall>w \<in> set [pe_name e, ''x'', itoa (pe_uid e), ''100'', pe_full e, pe_home e, pe_shell e]. CHR '':'' \<notin> set w"
    using assms itoa_field [of "pe_uid e"] by (auto simp: entry_ok_def field_ok_def)
  from split_on_join [OF _ this] show ?thesis by (simp add: print_entry_def)
qed

lemma print_entry_ends:
  assumes "entry_ok e"
  shows "print_entry e \<noteq> []" and "trim_space (print_entry e) = print_entry e"
    and "newline \<notin> set (print_entry e)"
proof -
  have p: "print_entry e = pe_name e @ CHR '':'' # join '':'' [''x'', itoa (pe_uid e), ''100'', pe_full e, pe_home e] @
      CHR '':'' # pe_shell e"
    by (simp add: print_entry_def)
  show "print_entry e \<noteq> []" using assms by (simp add: p entry_ok_def)
  show "trim_space (print_entry e) = print_entry e"
    by (rule trim_space_plain) (use assms in \<open>auto simp: p entry_ok_def\<close>)
  show "newline \<notin> set (print_entry e)"
    using assms itoa_field [of "pe_uid e"] by (auto simp: p entry_ok_def field_ok_def)
qed

lemma passwd_line_print:
  assumes "entry_ok e"
  shows "passwd_line minUID (print_entry e) = (if visible minUID e then [entry_user e] else [])"
proof -
  have "atoi (itoa (pe_uid e)) = Some (pe_uid e)"
    using assms by (intro atoi_itoa) (simp_all add: entry_ok_def)
  moreover have "index_byte (pe_full e) (CHR '','') = None"
    using assms by (simp add: index_byte_None entry_ok_def)
  moreover have "trim_space (pe_full e) = pe_full e"
    using assms by (simp add: tidy_trim entry_ok_def)
  ultimately show ?thesis
    using print_entry_ends [OF assms]
    by (auto simp: passwd_line_def print_entry_fields [OF assms] Let_def visible_def entry_user_def maxUID_def)
qed

text \<open>
  Accounts are reported exactly: of the accounts in a well-formed \<open>passwd\<close> listing, those
  with uid 0 or a uid from the minimum up to 64999, each with its user name and full name,
  in order, and no other.
\<close>

theorem parsePasswd_exact:
  assumes "\<forall>e \<in> set es. entry_ok e"
  shows "parsePasswd (unlines (map print_entry es)) minUID = map entry_user (filter (visible minUID) es)"
proof -
  have "\<forall>l \<in> set (map print_entry es). newline \<notin> set l" using assms print_entry_ends(3) by auto
  then have "parsePasswd (unlines (map print_entry es)) minUID =
      concat (map (passwd_line minUID) (map print_entry es))"
    by (simp add: parsePasswd_def lines_unlines passwd_line_def [of minUID "[]"])
  also have "\<dots> = map entry_user (filter (visible minUID) es)"
    using assms by (induction es) (simp_all add: passwd_line_print)
  finally show ?thesis .
qed

lemma parsePasswd_exact_witness:
  "parsePasswd (unlines (map print_entry
     [\<lparr>pe_name = ''root'', pe_uid = 0, pe_full = ''root'', pe_home = ''/root'', pe_shell = ''/bin/sh''\<rparr>,
      \<lparr>pe_name = ''sshd'', pe_uid = 74, pe_full = [], pe_home = ''/var'', pe_shell = ''/sbin/nologin''\<rparr>,
      \<lparr>pe_name = ''nobody'', pe_uid = 65534, pe_full = [], pe_home = ''/'', pe_shell = ''/sbin/nologin''\<rparr>])) 1000 =
   [\<lparr>ua_username = ''root'', ua_fullname = ''root'', ua_lastlogon = None, ua_local = True\<rparr>]"
  by (subst parsePasswd_exact)
     (simp_all add: entry_ok_def field_ok_def tidy_def plain_char_def visible_def entry_user_def)

section \<open>NixOS packages\<close>

lemma nix_lines_distinct:
  assumes "distinct (map (\<lambda>s. (sw_name s, sw_version s)) sw)"
    and "\<forall>s \<in> set sw. sw_name s @ [CHR 0x00] @ sw_version s \<in> seen"
  shows "distinct (map (\<lambda>s. (sw_name s, sw_version s)) (nix_lines ls seen sw))"
  using assms
proof (induction ls arbitrary: seen sw)
  case Nil
  then show ?case by simp
next
  case (Cons l ls)
  show ?case
  proof (cases "trim_space l = [] \<or> nix_package (trim_space l) = None")
    case True
    with Cons show ?thesis by (auto simp: Let_def)
  next
    case False
    then obtain name version where p: "nix_package (trim_space l) = Some (name, version)" by auto
    show ?thesis
    proof (cases "name @ [CHR 0x00] @ version \<in> seen")
      case True
      with Cons False p show ?thesis by (auto simp: Let_def)
    next
      case new: False
      let ?sw = "sw @ [empty_software\<lparr>sw_name := name, sw_version := version\<rparr>]"
      have "distinct (map (\<lambda>s. (sw_name s, sw_version s)) ?sw)"
        using Cons.prems new by auto
      with Cons.IH [of ?sw "insert (name @ [CHR 0x00] @ version) seen"] Cons.prems(2) False p new
      show ?thesis by (simp add: Let_def)
    qed
  qed
qed

text \<open>On NixOS every package is reported once per version, whatever \<open>nix-store\<close> prints.\<close>

theorem parseNixStorePackages_distinct:
  "distinct (map (\<lambda>s. (sw_name s, sw_version s)) (parseNixStorePackages out))"
  unfolding parseNixStorePackages_def by (rule nix_lines_distinct) simp_all

section \<open>Addresses\<close>

lemma map_update_same: "f y = f (xs ! i) \<Longrightarrow> map f (xs[i := y]) = map f xs"
  by (cases "i < length xs") (simp_all add: map_update list_update_beyond, metis list_update_id nth_map)

lemma apply_addr_keeps:
  "map (\<lambda>i. (if_name i, if_mac i, if_speed i, if_vlan i)) (apply_addr l ifaces) =
   map (\<lambda>i. (if_name i, if_mac i, if_speed i, if_vlan i)) ifaces"
  by (simp add: apply_addr_def Let_def map_update_same split: prod.splits option.splits)

text \<open>\<open>ip -o addr\<close> adds addresses and changes no interface otherwise.\<close>

lemma applyIPAddrs_keeps:
  "map (\<lambda>i. (if_name i, if_mac i, if_speed i, if_vlan i)) (applyIPAddrs ifaces out) =
   map (\<lambda>i. (if_name i, if_mac i, if_speed i, if_vlan i)) ifaces"
proof -
  have "map (\<lambda>i. (if_name i, if_mac i, if_speed i, if_vlan i)) (fold apply_addr ls ifs) =
     map (\<lambda>i. (if_name i, if_mac i, if_speed i, if_vlan i)) ifs" for ls ifs
    by (induction ls arbitrary: ifs) (simp_all add: apply_addr_keeps)
  then show ?thesis by (simp add: applyIPAddrs_def)
qed

text \<open>
  The RAM of a host is a product in 64 bits: exact up to \<open>2^53\<close> kB, wrapped to a negative
  number above.
\<close>

lemma mem_total_exact:
  assumes "has_prefix line ''MemTotal:''" and "2 \<le> length (GoStrings.fields line)"
    and "atoi (GoStrings.fields line ! 1) = Some kb" and "0 \<le> kb" and "kb < 2 ^ 53"
  shows "mem_total (line # ls) = kb * 1024"
  using assms by (simp add: Let_def wrap64_id)

end
