(* ===== verification/Json.thy ===== *)
theory Json
  imports GoStrings
begin

text \<open>
  What the program uses of \<open>encoding/json\<close>: the grammar of a JSON text (\<open>json_parse\<close>, with
  the replacement of invalid UTF-8 the decoder makes), and the decoding of a value into a Go
  variable that already has a value (\<open>json.Unmarshal\<close>): \<open>null\<close> leaves it alone, a struct
  takes the keys that are its fields, ignoring case where no name matches exactly, and any
  type mismatch is an error.
\<close>

section \<open>Texts\<close>

definition json_space :: "char \<Rightarrow> bool" where
  "json_space c \<longleftrightarrow> c = CHR 0x20 \<or> c = CHR 0x09 \<or> c = CHR 0x0A \<or> c = CHR 0x0D"

definition skip_ws :: "string \<Rightarrow> string" where
  "skip_ws s = dropWhile json_space s"

text \<open>The length of the UTF-8 sequence a string starts with, 0 where it is not valid.\<close>

definition cont_byte :: "nat \<Rightarrow> bool" where
  "cont_byte b \<longleftrightarrow> 0x80 \<le> b \<and> b \<le> 0xBF"

definition utf8_width :: "string \<Rightarrow> nat" where
  "utf8_width s =
     (case map of_char s of
        [] \<Rightarrow> 0
      | b0 # bs \<Rightarrow>
          if b0 < 0x80 then 1
          else if 0xC2 \<le> b0 \<and> b0 \<le> 0xDF
          then (case bs of b1 # _ \<Rightarrow> if cont_byte b1 then 2 else 0 | _ \<Rightarrow> 0)
          else if 0xE0 \<le> b0 \<and> b0 \<le> 0xEF
          then (case bs of b1 # b2 # _ \<Rightarrow>
                  if cont_byte b1 \<and> cont_byte b2 \<and> (b0 = 0xE0 \<longrightarrow> 0xA0 \<le> b1) \<and> (b0 = 0xED \<longrightarrow> b1 \<le> 0x9F)
                  then 3 else 0 | _ \<Rightarrow> 0)
          else if 0xF0 \<le> b0 \<and> b0 \<le> 0xF4
          then (case bs of b1 # b2 # b3 # _ \<Rightarrow>
                  if cont_byte b1 \<and> cont_byte b2 \<and> cont_byte b3 \<and> (b0 = 0xF0 \<longrightarrow> 0x90 \<le> b1) \<and>
                     (b0 = 0xF4 \<longrightarrow> b1 \<le> 0x8F)
                  then 4 else 0 | _ \<Rightarrow> 0)
          else (0::nat))"

definition utf8_encode :: "nat \<Rightarrow> string" where
  "utf8_encode r =
     map char_of
       (if r < 0x80 then [r]
        else if r < 0x800 then [0xC0 + r div 64, 0x80 + r mod 64]
        else if r < 0x10000 then [0xE0 + r div 4096, 0x80 + r div 64 mod 64, 0x80 + r mod 64]
        else [0xF0 + r div 262144, 0x80 + r div 4096 mod 64, 0x80 + r div 64 mod 64, 0x80 + r mod 64])"

definition replacement :: string where
  "replacement = utf8_encode 0xFFFD"

text \<open>Four hexadecimal digits after \<open>\u\<close>.\<close>

fun hex4 :: "nat \<Rightarrow> nat \<Rightarrow> string \<Rightarrow> (nat \<times> string) option" where
  "hex4 0 acc s = Some (acc, s)"
| "hex4 (Suc n) acc [] = None"
| "hex4 (Suc n) acc (c # cs) =
     (case hex_val c of None \<Rightarrow> None | Some d \<Rightarrow> hex4 n (16 * acc + d) cs)"

lemma hex4_length: "hex4 n acc s = Some (r, rest) \<Longrightarrow> length rest \<le> length s"
  by (induction n acc s arbitrary: r rest rule: hex4.induct) (auto split: option.splits dest: le_SucI)

text \<open>The rune of an escape \<open>\uXXXX\<close>, with the second half of a surrogate pair if there is one.\<close>

definition u_escape :: "string \<Rightarrow> (string \<times> string) option" where
  "u_escape s =
     (case hex4 4 0 s of
        None \<Rightarrow> None
      | Some (r, rest) \<Rightarrow>
          if \<not> (0xD800 \<le> r \<and> r < 0xE000) then Some (utf8_encode r, rest)
          else (case rest of
                  b # u # rest1 \<Rightarrow>
                    if b = CHR 0x5C \<and> u = CHR ''u'' then
                      (case hex4 4 0 rest1 of
                         Some (r1, rest2) \<Rightarrow>
                           if r < 0xDC00 \<and> 0xDC00 \<le> r1 \<and> r1 < 0xE000
                           then Some (utf8_encode ((r - 0xD800) * 1024 + (r1 - 0xDC00) + 0x10000), rest2)
                           else Some (replacement, rest)
                       | None \<Rightarrow> Some (replacement, rest))
                    else Some (replacement, rest)
                | _ \<Rightarrow> Some (replacement, rest)))"

lemma u_escape_length: "u_escape s = Some (t, rest) \<Longrightarrow> length rest \<le> length s"
  by (auto simp: u_escape_def dest!: hex4_length split: option.splits if_splits list.splits)

definition simple_escape :: "char \<Rightarrow> char option" where
  "simple_escape c =
     map_of [(CHR 0x22, CHR 0x22), (CHR 0x5C, CHR 0x5C), (CHR ''/'', CHR ''/''), (CHR ''b'', CHR 0x08),
             (CHR ''f'', CHR 0x0C), (CHR ''n'', CHR 0x0A), (CHR ''r'', CHR 0x0D), (CHR ''t'', CHR 0x09)] c"

text \<open>The string literal after its opening quote, and what follows the closing one.\<close>

function json_string :: "string \<Rightarrow> string \<Rightarrow> (string \<times> string) option" where
  "json_string acc [] = None"
| "json_string acc (c # cs) =
     (if c = CHR 0x22 then Some (acc, cs)
      else if (of_char c :: nat) < 0x20 then None
      else if c = CHR 0x5C then
        (case cs of
           [] \<Rightarrow> None
         | e # rest \<Rightarrow>
             if e = CHR ''u'' then
               (case u_escape rest of None \<Rightarrow> None | Some (t, rest1) \<Rightarrow> json_string (acc @ t) rest1)
             else (case simple_escape e of None \<Rightarrow> None | Some x \<Rightarrow> json_string (acc @ [x]) rest))
      else if utf8_width (c # cs) = 0 then json_string (acc @ replacement) cs
      else json_string (acc @ take (utf8_width (c # cs)) (c # cs)) (drop (utf8_width (c # cs) - 1) cs))"
  by pat_completeness auto
termination by (relation "measure (\<lambda>(acc, s). length s)") (auto dest: u_escape_length)

text \<open>A number literal, kept as text.\<close>

definition digits1 :: "string \<Rightarrow> (string \<times> string) option" where
  "digits1 s = (let d = takeWhile is_digit s in if d = [] then None else Some (d, dropWhile is_digit s))"

definition json_frac :: "string \<Rightarrow> (string \<times> string) option" where
  "json_frac s =
     (case s of
        c # cs \<Rightarrow> if c = CHR ''.'' then map_option (\<lambda>(d, r). (c # d, r)) (digits1 cs) else Some ([], s)
      | [] \<Rightarrow> Some ([], s))"

definition json_exp :: "string \<Rightarrow> (string \<times> string) option" where
  "json_exp s =
     (case s of
        c # cs \<Rightarrow>
          if c = CHR ''e'' \<or> c = CHR ''E'' then
            (let (sg, cs') = (case cs of
                               x # xs \<Rightarrow> if x = CHR ''+'' \<or> x = CHR ''-'' then ([x], xs) else ([], cs)
                             | [] \<Rightarrow> ([], cs))
             in map_option (\<lambda>(d, r). (c # sg @ d, r)) (digits1 cs'))
          else Some ([], s)
      | [] \<Rightarrow> Some ([], s))"

definition json_int :: "string \<Rightarrow> (string \<times> string) option" where
  "json_int s =
     (let (sg, s1) = (case s of c # cs \<Rightarrow> if c = CHR ''-'' then ([c], cs) else ([], s) | [] \<Rightarrow> ([], s))
      in case s1 of
           [] \<Rightarrow> None
         | c # cs \<Rightarrow> if c = CHR ''0'' then Some (sg @ [c], cs)
                    else map_option (\<lambda>(d, r). (sg @ d, r)) (digits1 s1))"

definition json_number :: "string \<Rightarrow> (string \<times> string) option" where
  "json_number s =
     (case json_int s of
        None \<Rightarrow> None
      | Some (a, r1) \<Rightarrow>
          (case json_frac r1 of
             None \<Rightarrow> None
           | Some (b, r2) \<Rightarrow> (case json_exp r2 of None \<Rightarrow> None | Some (c, r3) \<Rightarrow> Some (a @ b @ c, r3))))"

text \<open>Values; the fuel bounds the steps, two per byte are enough (\<open>json_fuel\<close> in \<open>JsonText\<close>).\<close>

fun json_value :: "nat \<Rightarrow> string \<Rightarrow> (json \<times> string) option"
and json_items :: "nat \<Rightarrow> json list \<Rightarrow> string \<Rightarrow> (json \<times> string) option"
and json_members :: "nat \<Rightarrow> (string \<times> json) list \<Rightarrow> string \<Rightarrow> (json \<times> string) option" where
  "json_value 0 s = None"
| "json_value (Suc n) s =
     (case skip_ws s of
        [] \<Rightarrow> None
      | c # cs \<Rightarrow>
          if c = CHR 0x22 then map_option (\<lambda>(t, r). (JStr t, r)) (json_string [] cs)
          else if c = CHR ''['' then
            (case skip_ws cs of
               d # r \<Rightarrow> if d = CHR '']'' then Some (JList [], r) else json_items n [] cs
             | [] \<Rightarrow> None)
          else if c = CHR ''{'' then
            (case skip_ws cs of
               d # r \<Rightarrow> if d = CHR ''}'' then Some (JObj [], r) else json_members n [] cs
             | [] \<Rightarrow> None)
          else if has_prefix (c # cs) ''true'' then Some (JBool True, drop 4 (c # cs))
          else if has_prefix (c # cs) ''false'' then Some (JBool False, drop 5 (c # cs))
          else if has_prefix (c # cs) ''null'' then Some (JNull, drop 4 (c # cs))
          else map_option (\<lambda>(t, r). (JNum t, r)) (json_number (c # cs)))"
| "json_items 0 acc s = None"
| "json_items (Suc n) acc s =
     (case json_value n s of
        None \<Rightarrow> None
      | Some (v, r) \<Rightarrow>
          (case skip_ws r of
             c # r1 \<Rightarrow> if c = CHR '','' then json_items n (acc @ [v]) r1
                       else if c = CHR '']'' then Some (JList (acc @ [v]), r1) else None
           | [] \<Rightarrow> None))"
| "json_members 0 acc s = None"
| "json_members (Suc n) acc s =
     (case skip_ws s of
        [] \<Rightarrow> None
      | q # cs \<Rightarrow>
          if q \<noteq> CHR 0x22 then None
          else (case json_string [] cs of
                  None \<Rightarrow> None
                | Some (key, r) \<Rightarrow>
                    (case skip_ws r of
                       [] \<Rightarrow> None
                     | c # r1 \<Rightarrow>
                         if c \<noteq> CHR '':'' then None
                         else (case json_value n r1 of
                                 None \<Rightarrow> None
                               | Some (v, r2) \<Rightarrow>
                                   (case skip_ws r2 of
                                      c # r3 \<Rightarrow> if c = CHR '','' then json_members n (acc @ [(key, v)]) r3
                                                else if c = CHR ''}'' then Some (JObj (acc @ [(key, v)]), r3)
                                                else None
                                    | [] \<Rightarrow> None)))))"

definition json_parse :: "string \<Rightarrow> json option" where
  "json_parse s =
     (case json_value (2 * length s + 1) s of
        Some (v, r) \<Rightarrow> if skip_ws r = [] then Some v else None
      | None \<Rightarrow> None)"

section \<open>Decoding\<close>

type_synonym 'a decoder = "json \<Rightarrow> 'a \<Rightarrow> 'a option"

fun dec_str :: "string decoder" where
  "dec_str JNull cur = Some cur"
| "dec_str (JStr s) cur = Some s"
| "dec_str v cur = None"

fun dec_int :: "int decoder" where
  "dec_int JNull cur = Some cur"
| "dec_int (JNum t) cur = atoi t"
| "dec_int v cur = None"

fun dec_bool :: "bool decoder" where
  "dec_bool JNull cur = Some cur"
| "dec_bool (JBool b) cur = Some b"
| "dec_bool v cur = None"

text \<open>\<open>json.Number\<close>: a number's text, or a string that is one.\<close>

fun dec_number :: "string decoder" where
  "dec_number JNull cur = Some cur"
| "dec_number (JNum t) cur = Some t"
| "dec_number (JStr s) cur =
     (case json_number s of Some (t, r) \<Rightarrow> if r = [] then Some s else None | None \<Rightarrow> None)"
| "dec_number v cur = None"

text \<open>\<open>json.RawMessage\<close> keeps the value itself.\<close>

fun dec_raw :: "json option decoder" where
  "dec_raw v cur = Some (Some v)"

fun dec_all :: "'a decoder \<Rightarrow> 'a \<Rightarrow> json list \<Rightarrow> 'a list option" where
  "dec_all d zero [] = Some []"
| "dec_all d zero (v # vs) =
     (case d v zero of
        None \<Rightarrow> None
      | Some x \<Rightarrow> (case dec_all d zero vs of None \<Rightarrow> None | Some xs \<Rightarrow> Some (x # xs)))"

fun dec_slice :: "'a decoder \<Rightarrow> 'a \<Rightarrow> 'a list decoder" where
  "dec_slice d zero JNull cur = Some []"
| "dec_slice d zero (JList vs) cur = dec_all d zero vs"
| "dec_slice d zero v cur = None"

text \<open>A struct: for each key in order the field of that name, else the first that matches folded.\<close>

type_synonym 'r fields_of = "(string \<times> 'r decoder) list"

definition find_field :: "'r fields_of \<Rightarrow> string \<Rightarrow> 'r decoder option" where
  "find_field fs k =
     (case map_of fs k of
        Some d \<Rightarrow> Some d
      | None \<Rightarrow> map_option snd (find (\<lambda>(n, d). equal_fold n k) fs))"

fun dec_members :: "'r fields_of \<Rightarrow> (string \<times> json) list \<Rightarrow> 'r \<Rightarrow> 'r option" where
  "dec_members fs [] r = Some r"
| "dec_members fs ((k, v) # kvs) r =
     (case find_field fs k of
        None \<Rightarrow> dec_members fs kvs r
      | Some d \<Rightarrow> (case d v r of None \<Rightarrow> None | Some r' \<Rightarrow> dec_members fs kvs r'))"

fun dec_struct :: "'r fields_of \<Rightarrow> 'r decoder" where
  "dec_struct fs JNull r = Some r"
| "dec_struct fs (JObj kvs) r = dec_members fs kvs r"
| "dec_struct fs v r = None"

text \<open>The decoder of a field that is reached through a getter and a setter.\<close>

definition at_field :: "('r \<Rightarrow> 'a) \<Rightarrow> ('a \<Rightarrow> 'r \<Rightarrow> 'r) \<Rightarrow> 'a decoder \<Rightarrow> 'r decoder" where
  "at_field get put d = (\<lambda>v r. case d v (get r) of None \<Rightarrow> None | Some x \<Rightarrow> Some (put x r))"

definition unmarshal :: "'a decoder \<Rightarrow> 'a \<Rightarrow> string \<Rightarrow> 'a option" where
  "unmarshal d zero text = (case json_parse text of None \<Rightarrow> None | Some v \<Rightarrow> d v zero)"

end
