(* ===== verification/Windows.thy ===== *)
theory Windows
  imports Model Json
begin

text \<open>
  The two Windows collectors: \<open>internal/collector/winrm\<close> (a PowerShell script whose JSON
  answer \<open>parse.go\<close> reads) and \<open>internal/collector/wmi\<close> (a Python sidecar). The remote run
  and the child process are parameters; the JSON they print is read by \<open>Json\<close>.
\<close>

section \<open>Shared\<close>

fun firstNonEmpty :: "string list \<Rightarrow> string" where
  "firstNonEmpty [] = []"
| "firstNonEmpty (v # vs) = (let s = trim_space v in if s \<noteq> [] then s else firstNonEmpty vs)"

text \<open>\<open>parseInt64\<close> and \<open>toInt64\<close>: anything that is not a 64-bit integer counts as 0.\<close>

definition parseInt64 :: "string \<Rightarrow> int" where
  "parseInt64 n = (if n = [] then 0 else (case atoi n of None \<Rightarrow> 0 | Some v \<Rightarrow> v))"

text \<open>The loop that takes the first IPv4 address of a list of texts.\<close>

fun first_ipv4 :: "string list \<Rightarrow> addr" where
  "first_ipv4 [] = no_addr"
| "first_ipv4 (ip # ips) =
     (case parse_addr (trim_space ip) of
        Some a \<Rightarrow> if is4 a then a else first_ipv4 ips
      | None \<Rightarrow> first_ipv4 ips)"

section \<open>The WinRM inventory\<close>

record cim_os =
  co_caption :: string
  co_version :: string
  co_build :: string
  co_arch :: string

record cim_computer =
  cc_name :: string
  cc_domain :: string
  cc_maker :: string
  cc_model :: string
  cc_memory :: string

record cim_cpu =
  cp_name :: string
  cp_cores :: int

record cim_net =
  cn_descr :: string
  cn_mac :: string
  cn_ips :: "string list"

record cim_software =
  cs_name :: string
  cs_version :: string
  cs_publisher :: string
  cs_date :: string

record cim_user =
  cu_name :: string
  cu_full :: string

record inventory =
  iv_os :: cim_os
  iv_computer :: cim_computer
  iv_bios :: string
  iv_cpu :: cim_cpu
  iv_net :: "json option"
  iv_sw :: "json option"
  iv_users :: "json option"

definition dec_cim_os :: "cim_os decoder" where
  "dec_cim_os = dec_struct
     [(''Caption'', at_field co_caption (\<lambda>x r. r\<lparr>co_caption := x\<rparr>) dec_str),
      (''Version'', at_field co_version (\<lambda>x r. r\<lparr>co_version := x\<rparr>) dec_str),
      (''BuildNumber'', at_field co_build (\<lambda>x r. r\<lparr>co_build := x\<rparr>) dec_str),
      (''OSArchitecture'', at_field co_arch (\<lambda>x r. r\<lparr>co_arch := x\<rparr>) dec_str)]"

definition dec_cim_computer :: "cim_computer decoder" where
  "dec_cim_computer = dec_struct
     [(''Name'', at_field cc_name (\<lambda>x r. r\<lparr>cc_name := x\<rparr>) dec_str),
      (''Domain'', at_field cc_domain (\<lambda>x r. r\<lparr>cc_domain := x\<rparr>) dec_str),
      (''Manufacturer'', at_field cc_maker (\<lambda>x r. r\<lparr>cc_maker := x\<rparr>) dec_str),
      (''Model'', at_field cc_model (\<lambda>x r. r\<lparr>cc_model := x\<rparr>) dec_str),
      (''TotalPhysicalMemory'', at_field cc_memory (\<lambda>x r. r\<lparr>cc_memory := x\<rparr>) dec_number)]"

definition dec_cim_bios :: "string decoder" where
  "dec_cim_bios = dec_struct [(''SerialNumber'', dec_str)]"

definition dec_cim_cpu :: "cim_cpu decoder" where
  "dec_cim_cpu = dec_struct
     [(''Name'', at_field cp_name (\<lambda>x r. r\<lparr>cp_name := x\<rparr>) dec_str),
      (''NumberOfLogicalProcessors'', at_field cp_cores (\<lambda>x r. r\<lparr>cp_cores := x\<rparr>) dec_int)]"

text \<open>\<open>stringList.UnmarshalJSON\<close>\<close>

fun dec_string_list :: "string list decoder" where
  "dec_string_list JNull cur = Some cur"
| "dec_string_list (JList vs) cur = dec_all dec_str [] vs"
| "dec_string_list v cur = (case dec_str v [] of None \<Rightarrow> None | Some s \<Rightarrow> Some [s])"

definition dec_cim_net :: "cim_net decoder" where
  "dec_cim_net = dec_struct
     [(''Description'', at_field cn_descr (\<lambda>x r. r\<lparr>cn_descr := x\<rparr>) dec_str),
      (''MACAddress'', at_field cn_mac (\<lambda>x r. r\<lparr>cn_mac := x\<rparr>) dec_str),
      (''IPAddress'', at_field cn_ips (\<lambda>x r. r\<lparr>cn_ips := x\<rparr>) dec_string_list)]"

definition dec_cim_software :: "cim_software decoder" where
  "dec_cim_software = dec_struct
     [(''DisplayName'', at_field cs_name (\<lambda>x r. r\<lparr>cs_name := x\<rparr>) dec_str),
      (''DisplayVersion'', at_field cs_version (\<lambda>x r. r\<lparr>cs_version := x\<rparr>) dec_str),
      (''Publisher'', at_field cs_publisher (\<lambda>x r. r\<lparr>cs_publisher := x\<rparr>) dec_str),
      (''InstallDate'', at_field cs_date (\<lambda>x r. r\<lparr>cs_date := x\<rparr>) dec_str)]"

definition dec_cim_user :: "cim_user decoder" where
  "dec_cim_user = dec_struct
     [(''Name'', at_field cu_name (\<lambda>x r. r\<lparr>cu_name := x\<rparr>) dec_str),
      (''FullName'', at_field cu_full (\<lambda>x r. r\<lparr>cu_full := x\<rparr>) dec_str)]"

definition dec_inventory :: "inventory decoder" where
  "dec_inventory = dec_struct
     [(''OS'', at_field iv_os (\<lambda>x r. r\<lparr>iv_os := x\<rparr>) dec_cim_os),
      (''Computer'', at_field iv_computer (\<lambda>x r. r\<lparr>iv_computer := x\<rparr>) dec_cim_computer),
      (''BIOS'', at_field iv_bios (\<lambda>x r. r\<lparr>iv_bios := x\<rparr>) dec_cim_bios),
      (''CPU'', at_field iv_cpu (\<lambda>x r. r\<lparr>iv_cpu := x\<rparr>) dec_cim_cpu),
      (''Network'', at_field iv_net (\<lambda>x r. r\<lparr>iv_net := x\<rparr>) dec_raw),
      (''Software'', at_field iv_sw (\<lambda>x r. r\<lparr>iv_sw := x\<rparr>) dec_raw),
      (''Users'', at_field iv_users (\<lambda>x r. r\<lparr>iv_users := x\<rparr>) dec_raw)]"

definition empty_cim_net :: cim_net where
  "empty_cim_net = \<lparr>cn_descr = [], cn_mac = [], cn_ips = []\<rparr>"

definition empty_cim_software :: cim_software where
  "empty_cim_software = \<lparr>cs_name = [], cs_version = [], cs_publisher = [], cs_date = []\<rparr>"

definition empty_cim_user :: cim_user where
  "empty_cim_user = \<lparr>cu_name = [], cu_full = []\<rparr>"

definition empty_inventory :: inventory where
  "empty_inventory =
     \<lparr>iv_os = \<lparr>co_caption = [], co_version = [], co_build = [], co_arch = []\<rparr>,
      iv_computer = \<lparr>cc_name = [], cc_domain = [], cc_maker = [], cc_model = [], cc_memory = []\<rparr>,
      iv_bios = [], iv_cpu = \<lparr>cp_name = [], cp_cores = 0\<rparr>, iv_net = None, iv_sw = None, iv_users = None\<rparr>"

fun toObjects :: "json option \<Rightarrow> json list" where
  "toObjects None = []"
| "toObjects (Some JNull) = []"
| "toObjects (Some (JList vs)) = vs"
| "toObjects (Some v) = [v]"

definition net_iface :: "json \<Rightarrow> iface list" where
  "net_iface raw =
     (case dec_cim_net raw empty_cim_net of
        None \<Rightarrow> []
      | Some n \<Rightarrow>
          (let ifc = empty_iface\<lparr>if_name := cn_descr n, if_mac := trim_space (cn_mac n),
                       if_ip := first_ipv4 (cn_ips n)\<rparr>
           in if if_name ifc = [] \<and> if_mac ifc = [] then [] else [ifc]))"

definition cim_software_of :: "json \<Rightarrow> software list" where
  "cim_software_of raw =
     (case dec_cim_software raw empty_cim_software of
        None \<Rightarrow> []
      | Some s \<Rightarrow>
          (let name = trim_space (cs_name s)
           in if name = [] then []
              else [\<lparr>sw_name = name, sw_version = trim_space (cs_version s),
                     sw_vendor = trim_space (cs_publisher s), sw_date = trim_space (cs_date s)\<rparr>]))"

definition cim_user_of :: "json \<Rightarrow> user_account list" where
  "cim_user_of raw =
     (case dec_cim_user raw empty_cim_user of
        None \<Rightarrow> []
      | Some u \<Rightarrow>
          if trim_space (cu_name u) = [] then []
          else [\<lparr>ua_username = cu_name u, ua_fullname = trim_space (cu_full u),
                 ua_lastlogon = None, ua_local = True\<rparr>])"

definition unmarshal_error :: go_error where
  "unmarshal_error = ErrText ''json: cannot unmarshal''"

definition winrm_parseInventory :: "string \<Rightarrow> go_error + device" where
  "winrm_parseInventory b =
     (case unmarshal dec_inventory empty_inventory b of
        None \<Rightarrow> Inl unmarshal_error
      | Some doc \<Rightarrow> Inr
          (empty_device\<lparr>d_type := TypeWindows, d_source := ''winrm'',
             d_hostname := cc_name (iv_computer doc), d_serial := trim_space (iv_bios doc),
             d_os := Some \<lparr>os_family = ''windows'', os_name = co_caption (iv_os doc),
                           os_version = co_version (iv_os doc), os_build = co_build (iv_os doc),
                           os_arch = co_arch (iv_os doc)\<rparr>,
             d_hw := Some \<lparr>hw_vendor = cc_maker (iv_computer doc), hw_model = cc_model (iv_computer doc),
                           hw_serial = trim_space (iv_bios doc), hw_cpu = trim_space (cp_name (iv_cpu doc)),
                           hw_cores = cp_cores (iv_cpu doc),
                           hw_ram = parseInt64 (cc_memory (iv_computer doc))\<rparr>,
             d_ifaces := concat (map net_iface (toObjects (iv_net doc))),
             d_sw := concat (map cim_software_of (toObjects (iv_sw doc))),
             d_users := concat (map cim_user_of (toObjects (iv_users doc)))\<rparr>))"

section \<open>The WinRM collector\<close>

record winrm_collector =
  wr_port :: int
  wr_https :: bool
  wr_insecure :: bool
  wr_auth :: string

definition winrm_New :: winrm_collector where
  "winrm_New = \<lparr>wr_port = 5985, wr_https = False, wr_insecure = False, wr_auth = ''ntlm''\<rparr>"

text \<open>
  The library: building a client for an endpoint (with NTLM or not), and running a script.
\<close>

record winrm_net =
  wn_client :: "addr \<Rightarrow> int \<Rightarrow> bool \<Rightarrow> credential \<Rightarrow> go_error option"
  wn_run :: "addr \<Rightarrow> int \<Rightarrow> bool \<Rightarrow> credential \<Rightarrow> go_error + (string \<times> string \<times> int)"

definition winrm_pickCredential :: "credential list \<Rightarrow> credential option" where
  "winrm_pickCredential creds = pick_kind [''winrm''] creds"

definition winrm_Collect :: "winrm_collector \<Rightarrow> winrm_net \<Rightarrow> target \<Rightarrow> go_error + result" where
  "winrm_Collect c net t =
     (case winrm_pickCredential (tg_creds t) of
        None \<Rightarrow> Inl ErrNoCredential
      | Some cred \<Rightarrow>
          (let port = (if wr_port c = 0 then (if wr_https c then 5986 else 5985) else wr_port c);
               ntlm = (wr_auth c \<noteq> ''basic'')
           in case wn_client net (tg_addr t) port ntlm cred of
                Some e \<Rightarrow> Inl (ErrWrap ''winrm client: '' e)
              | None \<Rightarrow>
                  (case wn_run net (tg_addr t) port ntlm cred of
                     Inl e \<Rightarrow> Inl (ErrWrap ''winrm run: '' e)
                   | Inr (out, err, code) \<Rightarrow>
                       if code \<noteq> 0
                       then Inl (ErrText (''powershell exit '' @ itoa code @ '': '' @ err))
                       else (case winrm_parseInventory out of
                               Inl e \<Rightarrow> Inl (ErrWrap ''parse inventory: '' e)
                             | Inr dev \<Rightarrow>
                                 Inr \<lparr>rs_target = t,
                                      rs_device = (if is_valid (d_ip dev) then dev else dev\<lparr>d_ip := tg_addr t\<rparr>),
                                      rs_related = []\<rparr>))))"

definition winrm_Supports :: "device_class \<Rightarrow> bool" where
  "winrm_Supports c \<longleftrightarrow> c = ClassWindows"

definition winrm_collector_of :: "winrm_net \<Rightarrow> collector" where
  "winrm_collector_of net =
     \<lparr>co_name = ''winrm'', co_supports = winrm_Supports, co_collect = winrm_Collect winrm_New net\<rparr>"

section \<open>The WMI inventory\<close>

record wmi_inventory =
  wi_os :: cim_os
  wi_csname :: string
  wi_cs :: cim_computer
  wi_bios :: string
  wi_cpu :: cim_cpu
  wi_net :: "cim_net list"
  wi_users :: "cim_user list"
  wi_sw :: "cim_software list"

definition empty_wmi :: wmi_inventory where
  "empty_wmi =
     \<lparr>wi_os = \<lparr>co_caption = [], co_version = [], co_build = [], co_arch = []\<rparr>, wi_csname = [],
      wi_cs = \<lparr>cc_name = [], cc_domain = [], cc_maker = [], cc_model = [], cc_memory = []\<rparr>,
      wi_bios = [], wi_cpu = \<lparr>cp_name = [], cp_cores = 0\<rparr>, wi_net = [], wi_users = [], wi_sw = []\<rparr>"

definition dec_wmi_os :: "(cim_os \<times> string) decoder" where
  "dec_wmi_os = dec_struct
     [(''Caption'', at_field (co_caption \<circ> fst) (\<lambda>x r. ((fst r)\<lparr>co_caption := x\<rparr>, snd r)) dec_str),
      (''Version'', at_field (co_version \<circ> fst) (\<lambda>x r. ((fst r)\<lparr>co_version := x\<rparr>, snd r)) dec_str),
      (''BuildNumber'', at_field (co_build \<circ> fst) (\<lambda>x r. ((fst r)\<lparr>co_build := x\<rparr>, snd r)) dec_str),
      (''OSArchitecture'', at_field (co_arch \<circ> fst) (\<lambda>x r. ((fst r)\<lparr>co_arch := x\<rparr>, snd r)) dec_str),
      (''CSName'', at_field snd (\<lambda>x r. (fst r, x)) dec_str)]"

definition dec_wmi_cs :: "cim_computer decoder" where
  "dec_wmi_cs = dec_struct
     [(''Name'', at_field cc_name (\<lambda>x r. r\<lparr>cc_name := x\<rparr>) dec_str),
      (''Manufacturer'', at_field cc_maker (\<lambda>x r. r\<lparr>cc_maker := x\<rparr>) dec_str),
      (''Model'', at_field cc_model (\<lambda>x r. r\<lparr>cc_model := x\<rparr>) dec_str),
      (''TotalPhysicalMemory'', at_field cc_memory (\<lambda>x r. r\<lparr>cc_memory := x\<rparr>) dec_number)]"

definition dec_wmi_net :: "cim_net decoder" where
  "dec_wmi_net = dec_struct
     [(''Description'', at_field cn_descr (\<lambda>x r. r\<lparr>cn_descr := x\<rparr>) dec_str),
      (''MACAddress'', at_field cn_mac (\<lambda>x r. r\<lparr>cn_mac := x\<rparr>) dec_str),
      (''IPAddress'', at_field cn_ips (\<lambda>x r. r\<lparr>cn_ips := x\<rparr>) (dec_slice dec_str []))]"

definition dec_wmi_software :: "cim_software decoder" where
  "dec_wmi_software = dec_struct
     [(''name'', at_field cs_name (\<lambda>x r. r\<lparr>cs_name := x\<rparr>) dec_str),
      (''version'', at_field cs_version (\<lambda>x r. r\<lparr>cs_version := x\<rparr>) dec_str),
      (''publisher'', at_field cs_publisher (\<lambda>x r. r\<lparr>cs_publisher := x\<rparr>) dec_str)]"

definition dec_wmi :: "wmi_inventory decoder" where
  "dec_wmi = dec_struct
     [(''os'', at_field (\<lambda>r. (wi_os r, wi_csname r)) (\<lambda>x r. r\<lparr>wi_os := fst x, wi_csname := snd x\<rparr>) dec_wmi_os),
      (''cs'', at_field wi_cs (\<lambda>x r. r\<lparr>wi_cs := x\<rparr>) dec_wmi_cs),
      (''bios'', at_field wi_bios (\<lambda>x r. r\<lparr>wi_bios := x\<rparr>) dec_cim_bios),
      (''cpu'', at_field wi_cpu (\<lambda>x r. r\<lparr>wi_cpu := x\<rparr>) dec_cim_cpu),
      (''net'', at_field wi_net (\<lambda>x r. r\<lparr>wi_net := x\<rparr>) (dec_slice dec_wmi_net empty_cim_net)),
      (''users'', at_field wi_users (\<lambda>x r. r\<lparr>wi_users := x\<rparr>) (dec_slice dec_cim_user empty_cim_user)),
      (''software'', at_field wi_sw (\<lambda>x r. r\<lparr>wi_sw := x\<rparr>) (dec_slice dec_wmi_software empty_cim_software))]"

definition wmi_iface :: "cim_net \<Rightarrow> iface list" where
  "wmi_iface n =
     (let ifc = empty_iface\<lparr>if_name := cn_descr n, if_mac := trim_space (cn_mac n),
                  if_ip := first_ipv4 (cn_ips n)\<rparr>
      in if if_name ifc = [] \<and> if_mac ifc = [] then [] else [ifc])"

definition wmi_user :: "cim_user \<Rightarrow> user_account list" where
  "wmi_user u =
     (if trim_space (cu_name u) = [] then []
      else [\<lparr>ua_username = cu_name u, ua_fullname = trim_space (cu_full u), ua_lastlogon = None,
             ua_local = True\<rparr>])"

definition wmi_software :: "cim_software \<Rightarrow> software list" where
  "wmi_software s =
     (if trim_space (cs_name s) = [] then []
      else [\<lparr>sw_name = cs_name s, sw_version = trim_space (cs_version s),
             sw_vendor = trim_space (cs_publisher s), sw_date = []\<rparr>])"

definition wmi_parseInventory :: "string \<Rightarrow> go_error + device" where
  "wmi_parseInventory b =
     (case unmarshal dec_wmi empty_wmi b of
        None \<Rightarrow> Inl unmarshal_error
      | Some doc \<Rightarrow> Inr
          (empty_device\<lparr>d_type := TypeWindows, d_source := ''wmi'',
             d_hostname := firstNonEmpty [cc_name (wi_cs doc), wi_csname doc],
             d_serial := trim_space (wi_bios doc),
             d_os := Some \<lparr>os_family = ''windows'', os_name = co_caption (wi_os doc),
                           os_version = co_version (wi_os doc), os_build = co_build (wi_os doc),
                           os_arch = co_arch (wi_os doc)\<rparr>,
             d_hw := Some \<lparr>hw_vendor = cc_maker (wi_cs doc), hw_model = cc_model (wi_cs doc),
                           hw_serial = trim_space (wi_bios doc), hw_cpu = trim_space (cp_name (wi_cpu doc)),
                           hw_cores = cp_cores (wi_cpu doc), hw_ram = parseInt64 (cc_memory (wi_cs doc))\<rparr>,
             d_ifaces := concat (map wmi_iface (wi_net doc)),
             d_users := concat (map wmi_user (wi_users doc)),
             d_sw := concat (map wmi_software (wi_sw doc))\<rparr>))"

section \<open>The WMI collector\<close>

definition index_any :: "string \<Rightarrow> string \<Rightarrow> nat option" where
  "index_any s cs = (let i = length (takeWhile (\<lambda>c. c \<notin> set cs) s) in if i < length s then Some i else None)"

definition splitDomainUser :: "string \<Rightarrow> string \<Rightarrow> string \<times> string" where
  "splitDomainUser username0 fallback =
     (let username = trim_space username0
      in case index_any username [CHR 0x5C, CHR ''/''] of
           Some i \<Rightarrow> (drop (i + 1) username, take i username)
         | None \<Rightarrow>
             (case index_byte username (CHR ''@'') of
                Some i \<Rightarrow> (take i username, drop (i + 1) username)
              | None \<Rightarrow> (username, trim_space fallback)))"

definition oneLine :: "string \<Rightarrow> string" where
  "oneLine s0 = (let s = trim_space s0
                 in case index_byte s (CHR 0x0A) of Some i \<Rightarrow> take i s | None \<Rightarrow> s)"

text \<open>What running the sidecar with its environment can come to.\<close>

record wmi_env =
  we_addr :: string
  we_user :: string
  we_pass :: string
  we_domain :: string

datatype exec_result = ExecOk string | ExecExit int string | ExecFail string

record wmi_collector =
  wm_python :: string

definition wmi_New :: "string \<Rightarrow> wmi_collector" where
  "wmi_New env_python = \<lparr>wm_python = (if env_python = [] then ''python3'' else env_python)\<rparr>"

definition wmi_pickCredential :: "credential list \<Rightarrow> credential option" where
  "wmi_pickCredential creds = pick_kind [''wmi''] creds"

definition wmi_Collect :: "wmi_collector \<Rightarrow> (wmi_env \<Rightarrow> exec_result) \<Rightarrow> target \<Rightarrow> go_error + result" where
  "wmi_Collect c exec t =
     (case wmi_pickCredential (tg_creds t) of
        None \<Rightarrow> Inl ErrNoCredential
      | Some cred \<Rightarrow>
          (let (user, domain) = splitDomainUser (cr_username cred) (cr_lookup cred ''domain'')
           in case exec \<lparr>we_addr = addr_string (tg_addr t), we_user = user, we_pass = cr_secret cred,
                         we_domain = domain\<rparr> of
                ExecExit code err \<Rightarrow>
                  Inl (ErrText (''wmi sidecar exit '' @ itoa code @ '': '' @ oneLine err))
              | ExecFail msg \<Rightarrow>
                  Inl (ErrText (''wmi sidecar: '' @ msg @ '' (is '' @ wm_python c @ '' + impacket installed?)''))
              | ExecOk out \<Rightarrow>
                  (case wmi_parseInventory out of
                     Inl e \<Rightarrow> Inl (ErrWrap ''parse wmi inventory: '' e)
                   | Inr dev \<Rightarrow> Inr \<lparr>rs_target = t, rs_device = dev\<lparr>d_ip := tg_addr t\<rparr>, rs_related = []\<rparr>)))"

definition wmi_Supports :: "device_class \<Rightarrow> bool" where
  "wmi_Supports c \<longleftrightarrow> c = ClassWindows"

definition wmi_collector_of :: "string \<Rightarrow> (wmi_env \<Rightarrow> exec_result) \<Rightarrow> collector" where
  "wmi_collector_of env_python exec =
     \<lparr>co_name = ''wmi'', co_supports = wmi_Supports, co_collect = wmi_Collect (wmi_New env_python) exec\<rparr>"

end
