(* ===== verification/Base64.thy ===== *)
theory Base64
  imports GoStrings
begin

text \<open>
  \<open>encoding/base64\<close> as the program uses it: \<open>StdEncoding\<close> (padded) for keys and sealed secrets,
  \<open>RawURLEncoding\<close> (unpadded) for tokens. Decoding skips line breaks and, not being strict,
  ignores the unused low bits of the last digit. A byte sequence is a \<open>string\<close>. Both
  encodings are instances of the locale \<open>byte_codec\<close>.
\<close>

section \<open>Digits\<close>

definition b64_char :: "char \<Rightarrow> char \<Rightarrow> nat \<Rightarrow> char" where
  "b64_char c62 c63 n =
     (if n < 26 then char_of (65 + n) else if n < 52 then char_of (71 + n)
      else if n < 62 then char_of (n - 4) else if n = 62 then c62 else c63)"

definition b64_val :: "char \<Rightarrow> char \<Rightarrow> char \<Rightarrow> nat option" where
  "b64_val c62 c63 c =
     (let n = of_char c :: nat
      in if 65 \<le> n \<and> n \<le> 90 then Some (n - 65)
         else if 97 \<le> n \<and> n \<le> 122 then Some (n - 71)
         else if 48 \<le> n \<and> n \<le> 57 then Some (n + 4)
         else if c = c62 then Some 62 else if c = c63 then Some 63 else None)"

fun b64_encode :: "bool \<Rightarrow> char \<Rightarrow> char \<Rightarrow> string \<Rightarrow> string" where
  "b64_encode pad x y [] = []"
| "b64_encode pad x y [a] =
     (let n = of_char a :: nat
      in [b64_char x y (n div 4), b64_char x y (n mod 4 * 16)] @ (if pad then ''=='' else []))"
| "b64_encode pad x y [a, b] =
     (let n = of_char a :: nat; m = of_char b :: nat
      in [b64_char x y (n div 4), b64_char x y (n mod 4 * 16 + m div 16), b64_char x y (m mod 16 * 4)] @
         (if pad then ''='' else []))"
| "b64_encode pad x y (a # b # c # rest) =
     (let n = of_char a :: nat; m = of_char b :: nat; k = of_char c :: nat
      in [b64_char x y (n div 4), b64_char x y (n mod 4 * 16 + m div 16),
          b64_char x y (m mod 16 * 4 + k div 64), b64_char x y (k mod 64)] @ b64_encode pad x y rest)"

text \<open>One, two or three bytes from two, three or four digits.\<close>

definition byte1 :: "nat \<Rightarrow> nat \<Rightarrow> char" where "byte1 p q = char_of (p * 4 + q div 16)"
definition byte2 :: "nat \<Rightarrow> nat \<Rightarrow> char" where "byte2 q r = char_of (q mod 16 * 16 + r div 4)"
definition byte3 :: "nat \<Rightarrow> nat \<Rightarrow> char" where "byte3 r s = char_of (r mod 4 * 64 + s)"

fun b64_quanta :: "bool \<Rightarrow> char \<Rightarrow> char \<Rightarrow> string \<Rightarrow> string option" where
  "b64_quanta pad x y [] = Some []"
| "b64_quanta pad x y [a] = None"
| "b64_quanta pad x y [a, b] =
     (if pad then None
      else (case (b64_val x y a, b64_val x y b) of (Some p, Some q) \<Rightarrow> Some [byte1 p q] | _ \<Rightarrow> None))"
| "b64_quanta pad x y [a, b, c] =
     (if pad then None
      else (case (b64_val x y a, b64_val x y b, b64_val x y c) of
              (Some p, Some q, Some r) \<Rightarrow> Some [byte1 p q, byte2 q r] | _ \<Rightarrow> None))"
| "b64_quanta pad x y (a # b # c # d # rest) =
     (case (b64_val x y a, b64_val x y b) of
        (Some p, Some q) \<Rightarrow>
          (case b64_val x y c of
             Some r \<Rightarrow>
               (case b64_val x y d of
                  Some s \<Rightarrow> map_option (\<lambda>bs. byte1 p q # byte2 q r # byte3 r s # bs) (b64_quanta pad x y rest)
                | None \<Rightarrow> if pad \<and> d = CHR ''='' \<and> rest = [] then Some [byte1 p q, byte2 q r] else None)
           | None \<Rightarrow>
               if pad \<and> c = CHR ''='' \<and> d = CHR ''='' \<and> rest = [] then Some [byte1 p q] else None)
      | _ \<Rightarrow> None)"

definition b64_decode :: "bool \<Rightarrow> char \<Rightarrow> char \<Rightarrow> string \<Rightarrow> string option" where
  "b64_decode pad x y s = b64_quanta pad x y (filter (\<lambda>c. c \<noteq> CHR 0x0A \<and> c \<noteq> CHR 0x0D) s)"

definition std_encode :: "string \<Rightarrow> string" where
  "std_encode = b64_encode True (CHR ''+'') (CHR ''/'')"

definition std_decode :: "string \<Rightarrow> string option" where
  "std_decode = b64_decode True (CHR ''+'') (CHR ''/'')"

definition url_encode :: "string \<Rightarrow> string" where
  "url_encode = b64_encode False (CHR ''-'') (CHR ''_'')"

definition url_decode :: "string \<Rightarrow> string option" where
  "url_decode = b64_decode False (CHR ''-'') (CHR ''_'')"

section \<open>Round trips\<close>

text \<open>The two extra digits of an alphabet: not among the other 62, not a pad, not a line break.\<close>

definition extra_digit :: "char \<Rightarrow> bool" where
  "extra_digit c \<longleftrightarrow> (let n = of_char c :: nat in 32 < n \<and> n < 128 \<and> n \<noteq> 61 \<and> n \<noteq> 46 \<and>
     \<not> (65 \<le> n \<and> n \<le> 90) \<and> \<not> (97 \<le> n \<and> n \<le> 122) \<and> \<not> (48 \<le> n \<and> n \<le> 57))"

definition alphabet_ok :: "char \<Rightarrow> char \<Rightarrow> bool" where
  "alphabet_ok x y \<longleftrightarrow> x \<noteq> y \<and> extra_digit x \<and> extra_digit y"

lemma digit_code:
  "n < 26 \<Longrightarrow> (of_char (b64_char x y n) :: nat) = 65 + n"
  "26 \<le> n \<Longrightarrow> n < 52 \<Longrightarrow> (of_char (b64_char x y n) :: nat) = 71 + n"
  "52 \<le> n \<Longrightarrow> n < 62 \<Longrightarrow> (of_char (b64_char x y n) :: nat) = n - 4"
  "b64_char x y 62 = x" "62 < n \<Longrightarrow> b64_char x y n = y"
  by (simp_all add: b64_char_def)

lemma digit_cases:
  assumes "n < (64::nat)"
  obtains "n < 26" | "26 \<le> n" "n < 52" | "52 \<le> n" "n < 62" | "n = 62" | "62 < n" "n = 63"
  using assms by linarith

lemma extra_val:
  assumes "alphabet_ok x y"
  shows "b64_val x y x = Some 62" and "b64_val x y y = Some 63"
  using assms unfolding alphabet_ok_def extra_digit_def b64_val_def Let_def by (simp_all only: if_False) auto

lemma b64_val_char:
  assumes "alphabet_ok x y" and "n < 64"
  shows "b64_val x y (b64_char x y n) = Some n"
  using assms(2)
proof (cases rule: digit_cases)
  case 1
  then show ?thesis by (simp add: b64_val_def digit_code)
next
  case 2
  then show ?thesis by (simp add: b64_val_def digit_code)
next
  case 3
  then have "48 \<le> n - 4" and "n - 4 \<le> 57" by linarith+
  with 3 show ?thesis by (simp add: b64_val_def digit_code Let_def)
next
  case 4
  then show ?thesis by (simp add: digit_code extra_val [OF assms(1)])
next
  case 5
  then show ?thesis by (simp add: digit_code extra_val [OF assms(1)])
qed

definition clean :: "char \<Rightarrow> bool" where
  "clean c \<longleftrightarrow> c \<noteq> CHR ''.'' \<and> c \<noteq> CHR 0x0A \<and> c \<noteq> CHR 0x0D"

lemma clean_code: "32 < (of_char c :: nat) \<Longrightarrow> (of_char c :: nat) \<noteq> 46 \<Longrightarrow> clean c"
  by (auto simp: clean_def)

lemma b64_char_clean:
  assumes "alphabet_ok x y" and "n < 64"
  shows "clean (b64_char x y n)"
  using assms(2)
proof (cases rule: digit_cases)
  case 1
  then show ?thesis by (intro clean_code) (simp_all add: digit_code)
next
  case 2
  then show ?thesis by (intro clean_code) (simp_all add: digit_code)
next
  case 3
  then have "48 \<le> n - 4" and "n - 4 \<le> 57" by linarith+
  with 3 have "32 < n - 4" and "n - 4 \<noteq> 46" by linarith+
  with 3 show ?thesis by (intro clean_code) (simp_all only: digit_code not_False_eq_True)
next
  case 4
  then show ?thesis using assms(1)
    by (intro clean_code) (simp_all add: digit_code alphabet_ok_def extra_digit_def Let_def)
next
  case 5
  then show ?thesis using assms(1)
    by (intro clean_code) (simp_all add: digit_code alphabet_ok_def extra_digit_def Let_def)
qed

lemma of_char_bound: "(of_char c :: nat) < 256"
  by (metis nat_of_char_less_256)

lemma sextets_nat:
  fixes n m :: nat
  assumes "n < 256" and "m < 256"
  shows "n div 4 < 64" "n mod 4 * 16 < 64" "n mod 4 * 16 + m div 16 < 64"
    "n mod 16 * 4 < 64" "n mod 16 * 4 + m div 64 < 64" "n mod 64 < 64" "m div 16 < 16" "m div 64 < 4"
proof -
  have d: "n div 4 < 64" "m div 16 < 16" "m div 64 < 4"
    using assms less_mult_imp_div_less [of n 64 4] less_mult_imp_div_less [of m 16 16]
      less_mult_imp_div_less [of m 4 64] by simp_all
  have e: "n mod 4 < 4" "n mod 16 < 16" by simp_all
  show "n div 4 < 64" "m div 16 < 16" "m div 64 < 4" by (rule d)+
  show "n mod 4 * 16 < 64" "n mod 16 * 4 < 64" "n mod 64 < 64" using e by simp_all
  show "n mod 4 * 16 + m div 16 < 64" using d(2) e(1) by linarith
  show "n mod 16 * 4 + m div 64 < 64" using d(3) e(2) by linarith
qed

lemmas sextets = sextets_nat [OF of_char_bound of_char_bound]

lemma bytes_back:
  "byte1 (of_char a div 4) (of_char a mod 4 * 16) = a"
  "byte1 (of_char a div 4) (of_char a mod 4 * 16 + of_char b div 16) = a"
  "byte2 (of_char a mod 4 * 16 + of_char b div 16) (of_char b mod 16 * 4) = b"
  "byte2 (of_char a mod 4 * 16 + of_char b div 16) (of_char b mod 16 * 4 + of_char c div 64) = b"
  "byte3 (of_char b mod 16 * 4 + of_char c div 64) (of_char c mod 64) = c"
proof -
  have bd: "(of_char b :: nat) div 16 < 16" "(of_char c :: nat) div 64 < 4"
    by (rule sextets)+
  have "(of_char a div 4 * 4 + of_char a mod 4 * 16 div 16 :: nat) = of_char a" by simp
  then show "byte1 (of_char a div 4) (of_char a mod 4 * 16) = a" by (simp add: byte1_def)
  have "(of_char a mod 4 * 16 + of_char b div 16) div 16 = (of_char a mod 4 :: nat)" using bd by simp
  then have "(of_char a div 4 * 4 + (of_char a mod 4 * 16 + of_char b div 16) div 16 :: nat) = of_char a" by simp
  then show "byte1 (of_char a div 4) (of_char a mod 4 * 16 + of_char b div 16) = a" by (simp add: byte1_def)
  have m: "of_char b div 16 mod 16 = (of_char b div 16 :: nat)" using bd by simp
  have "(of_char b div 16 * 16 + of_char b mod 16 * 4 div 4 :: nat) = of_char b" by simp
  then show "byte2 (of_char a mod 4 * 16 + of_char b div 16) (of_char b mod 16 * 4) = b"
    by (simp add: byte2_def m)
  have "(of_char b mod 16 * 4 + of_char c div 64) div 4 = (of_char b mod 16 :: nat)" using bd by simp
  then have "(of_char b div 16 * 16 + (of_char b mod 16 * 4 + of_char c div 64) div 4 :: nat) = of_char b" by simp
  then show "byte2 (of_char a mod 4 * 16 + of_char b div 16) (of_char b mod 16 * 4 + of_char c div 64) = b"
    by (simp add: byte2_def m)
  have m4: "of_char c div 64 mod 4 = (of_char c div 64 :: nat)" using bd by simp
  have "(of_char b mod 16 * 4 + of_char c div 64) mod 4 = (of_char c div 64 mod 4 :: nat)"
    using mod_mult_self3 [of "of_char b mod 16" 4 "of_char c div 64 :: nat"] by simp
  then show "byte3 (of_char b mod 16 * 4 + of_char c div 64) (of_char c mod 64) = c"
    by (simp add: byte3_def m4)
qed

lemma pad_no_digit:
  assumes "alphabet_ok x y"
  shows "b64_val x y (CHR ''='') = None"
proof -
  have "CHR ''='' \<noteq> x" and "CHR ''='' \<noteq> y"
    using assms by (auto simp: alphabet_ok_def extra_digit_def Let_def)
  then show ?thesis by (simp add: b64_val_def)
qed

lemma b64_quanta_encode: "alphabet_ok x y \<Longrightarrow> b64_quanta pad x y (b64_encode pad x y bs) = Some bs"
  by (induction pad x y bs rule: b64_encode.induct)
     (simp_all add: Let_def b64_val_char sextets bytes_back pad_no_digit)

lemma b64_encode_clean: "alphabet_ok x y \<Longrightarrow> list_all clean (b64_encode pad x y bs)"
  by (induction pad x y bs rule: b64_encode.induct)
     (simp_all add: Let_def b64_char_clean sextets clean_def [of "CHR ''=''"])

lemma b64_decode_encode:
  assumes "alphabet_ok x y"
  shows "b64_decode pad x y (b64_encode pad x y bs) = Some bs"
proof -
  have "filter (\<lambda>c. c \<noteq> CHR 0x0A \<and> c \<noteq> CHR 0x0D) (b64_encode pad x y bs) = b64_encode pad x y bs"
    using b64_encode_clean [OF assms, of pad bs] by (auto simp: filter_id_conv list_all_iff clean_def)
  then show ?thesis by (simp add: b64_decode_def b64_quanta_encode [OF assms])
qed

lemma b64_no_dot: "alphabet_ok x y \<Longrightarrow> CHR ''.'' \<notin> set (b64_encode pad x y bs)"
  using b64_encode_clean [of x y pad bs] by (auto simp: list_all_iff clean_def)

section \<open>The interface\<close>

text \<open>What the clients rely on: decoding inverts encoding, and an encoding has no dot.\<close>

locale byte_codec =
  fixes enc :: "string \<Rightarrow> string" and dec :: "string \<Rightarrow> string option"
  assumes dec_enc: "dec (enc bs) = Some bs"
    and no_dot: "CHR ''.'' \<notin> set (enc bs)"
begin

lemma enc_inject: "enc a = enc b \<longleftrightarrow> a = b"
  by (metis dec_enc option.inject)

lemma split_pair: "cut (CHR ''.'') (enc a @ CHR ''.'' # s) = (enc a, s, True)"
  by (rule cut_append) (rule no_dot)

lemma index_pair: "index_byte (enc a @ CHR ''.'' # s) (CHR ''.'') = Some (length (enc a))"
  by (rule index_byte_append) (rule no_dot)

end

lemma alphabets: "alphabet_ok (CHR ''+'') (CHR ''/'')" "alphabet_ok (CHR ''-'') (CHR ''_'')"
  by (simp_all add: alphabet_ok_def extra_digit_def Let_def)

interpretation std64: byte_codec std_encode std_decode
  by unfold_locales
     (simp_all add: std_encode_def std_decode_def b64_decode_encode [OF alphabets(1)] b64_no_dot [OF alphabets(1)])

interpretation url64: byte_codec url_encode url_decode
  by unfold_locales
     (simp_all add: url_encode_def url_decode_def b64_decode_encode [OF alphabets(2)] b64_no_dot [OF alphabets(2)])

end
