(* ===== verification/ApiCollectors.thy ===== *)
theory ApiCollectors
  imports Windows Base64
begin

text \<open>
  The collectors that read an HTTP interface: \<open>internal/collector/proxmox\<close>, \<open>fortigate\<close>,
  \<open>opnsense\<close> and \<open>fritzbox\<close>. What a request answers is a parameter, \<open>http\<close>: an error, or a
  status and a body.
\<close>

section \<open>Requests\<close>

type_synonym http = "string \<Rightarrow> string \<Rightarrow> go_error + (int \<times> string)"

definition body_limit :: nat where
  "body_limit = 8 * 2 ^ 20"

text \<open>
  The three collectors with a token make the same request, with their own \<open>Authorization\<close>
  header: \<open>apiGet\<close>, \<open>apiGetBearer\<close> and \<open>apiGetBasic\<close> below.
\<close>

definition http_get :: "http \<Rightarrow> string \<Rightarrow> string \<Rightarrow> go_error + string" where
  "http_get net url auth =
     (case net url auth of
        Inl e \<Rightarrow> Inl e
      | Inr (status, body) \<Rightarrow>
          if status \<noteq> 200 then Inl (ErrText (''http '' @ itoa status)) else Inr (take body_limit body))"

definition apiGet :: "http \<Rightarrow> string \<Rightarrow> string \<Rightarrow> go_error + string" where
  "apiGet net url authHeader = http_get net url authHeader"

definition apiGetBearer :: "http \<Rightarrow> string \<Rightarrow> string \<Rightarrow> go_error + string" where
  "apiGetBearer net url token = http_get net url (''Bearer '' @ token)"

definition basic_auth :: "string \<Rightarrow> string \<Rightarrow> string" where
  "basic_auth user pass = ''Basic '' @ std_encode (user @ '':'' @ pass)"

definition apiGetBasic :: "http \<Rightarrow> string \<Rightarrow> string \<Rightarrow> string \<Rightarrow> go_error + string" where
  "apiGetBasic net url user pass = http_get net url (basic_auth user pass)"

definition base_url :: "addr \<Rightarrow> int \<Rightarrow> string" where
  "base_url a port = ''https://'' @ addr_string a @ '':'' @ itoa port"

section \<open>Proxmox\<close>

record node_info =
  ni_node :: string
  ni_status :: string
  ni_cpu :: int
  ni_mem :: int

record vm_info =
  vi_id :: int
  vi_name :: string
  vi_node :: string
  vi_type :: string
  vi_status :: string
  vi_mem :: int
  vi_cpu :: int

definition dec_version :: "string decoder" where
  "dec_version = dec_struct [(''data'', (\<lambda>v r. map_option fst
     (dec_struct [(''version'', at_field fst (\<lambda>x p. (x, snd p)) dec_str),
                  (''release'', at_field (fst \<circ> snd) (\<lambda>x p. (fst p, x, snd (snd p))) dec_str),
                  (''repoid'', at_field (snd \<circ> snd) (\<lambda>x p. (fst p, fst (snd p), x)) dec_str)] v (r, [], []))))]"

definition empty_node :: node_info where
  "empty_node = \<lparr>ni_node = [], ni_status = [], ni_cpu = 0, ni_mem = 0\<rparr>"

definition dec_node :: "node_info decoder" where
  "dec_node = dec_struct
     [(''node'', at_field ni_node (\<lambda>x r. r\<lparr>ni_node := x\<rparr>) dec_str),
      (''status'', at_field ni_status (\<lambda>x r. r\<lparr>ni_status := x\<rparr>) dec_str),
      (''maxcpu'', at_field ni_cpu (\<lambda>x r. r\<lparr>ni_cpu := x\<rparr>) dec_int),
      (''maxmem'', at_field ni_mem (\<lambda>x r. r\<lparr>ni_mem := x\<rparr>) dec_int)]"

definition dec_nodes :: "node_info list decoder" where
  "dec_nodes = dec_struct [(''data'', dec_slice dec_node empty_node)]"

definition empty_vm :: vm_info where
  "empty_vm = \<lparr>vi_id = 0, vi_name = [], vi_node = [], vi_type = [], vi_status = [], vi_mem = 0, vi_cpu = 0\<rparr>"

definition dec_vm :: "vm_info decoder" where
  "dec_vm = dec_struct
     [(''vmid'', at_field vi_id (\<lambda>x r. r\<lparr>vi_id := x\<rparr>) dec_int),
      (''name'', at_field vi_name (\<lambda>x r. r\<lparr>vi_name := x\<rparr>) dec_str),
      (''node'', at_field vi_node (\<lambda>x r. r\<lparr>vi_node := x\<rparr>) dec_str),
      (''type'', at_field vi_type (\<lambda>x r. r\<lparr>vi_type := x\<rparr>) dec_str),
      (''status'', at_field vi_status (\<lambda>x r. r\<lparr>vi_status := x\<rparr>) dec_str),
      (''maxmem'', at_field vi_mem (\<lambda>x r. r\<lparr>vi_mem := x\<rparr>) dec_int),
      (''maxcpu'', at_field vi_cpu (\<lambda>x r. r\<lparr>vi_cpu := x\<rparr>) dec_int)]"

definition dec_vms :: "vm_info list decoder" where
  "dec_vms = dec_struct [(''data'', dec_slice dec_vm empty_vm)]"

definition buildHypervisor :: "string \<Rightarrow> string \<Rightarrow> go_error + device" where
  "buildHypervisor verRaw nodesRaw =
     (case unmarshal dec_version [] verRaw of
        None \<Rightarrow> Inl unmarshal_error
      | Some version \<Rightarrow>
          (let dev = empty_device\<lparr>d_type := TypeHypervisor, d_source := ''proxmox'',
                       d_os := Some (empty_osinfo\<lparr>os_family := ''proxmox'', os_name := ''Proxmox VE'',
                                                  os_version := version\<rparr>)\<rparr>
           in Inr (case unmarshal dec_nodes [] nodesRaw of
                     Some (n # _) \<Rightarrow>
                       dev\<lparr>d_hostname := ni_node n,
                           d_hw := Some (empty_hardware\<lparr>hw_vendor := ''Proxmox'', hw_cores := ni_cpu n,
                                                        hw_ram := ni_mem n\<rparr>)\<rparr>
                   | _ \<Rightarrow> dev)))"

definition vm_device :: "vm_info \<Rightarrow> related list" where
  "vm_device vm =
     (if vi_name vm = [] then []
      else (let d = empty_device\<lparr>d_type := TypeVM, d_hostname := vi_name vm, d_source := ''proxmox''\<rparr>;
                d = (if 0 < vi_cpu vm \<or> 0 < vi_mem vm
                     then d\<lparr>d_hw := Some (empty_hardware\<lparr>hw_cores := vi_cpu vm, hw_ram := vi_mem vm\<rparr>)\<rparr>
                     else d)
            in [\<lparr>rel_device = d, rel_kind = ''hosts-vm''\<rparr>]))"

definition buildVMs :: "string \<Rightarrow> go_error + related list" where
  "buildVMs vmsRaw =
     (case unmarshal dec_vms [] vmsRaw of
        None \<Rightarrow> Inl unmarshal_error
      | Some vms \<Rightarrow> Inr (concat (map vm_device vms)))"

record api_collector =
  ac_port :: int
  ac_insecure :: bool

definition proxmox_New :: api_collector where
  "proxmox_New = \<lparr>ac_port = 8006, ac_insecure = True\<rparr>"

definition proxmox_pickCredential :: "credential list \<Rightarrow> credential option" where
  "proxmox_pickCredential creds = pick_kind [''proxmox-token''] creds"

definition proxmox_Supports :: "device_class \<Rightarrow> bool" where
  "proxmox_Supports c \<longleftrightarrow> c = ClassHypervisor"

definition proxmox_Collect :: "api_collector \<Rightarrow> http \<Rightarrow> target \<Rightarrow> go_error + result" where
  "proxmox_Collect c net t =
     (case proxmox_pickCredential (tg_creds t) of
        None \<Rightarrow> Inl ErrNoCredential
      | Some cred \<Rightarrow>
          (let port = (if ac_port c = 0 then 8006 else ac_port c);
               base = base_url (tg_addr t) port @ ''/api2/json'';
               auth = ''PVEAPIToken='' @ cr_username cred @ ''='' @ cr_secret cred;
               get = (\<lambda>path. apiGet net (base @ path) auth)
           in case get ''/version'' of
                Inl e \<Rightarrow> Inl (ErrWrap ''proxmox version: '' e)
              | Inr verRaw \<Rightarrow>
                  (case get ''/nodes'' of
                     Inl e \<Rightarrow> Inl (ErrWrap ''proxmox nodes: '' e)
                   | Inr nodesRaw \<Rightarrow>
                       (case buildHypervisor verRaw nodesRaw of
                          Inl e \<Rightarrow> Inl (ErrWrap ''parse proxmox: '' e)
                        | Inr dev \<Rightarrow>
                            (let rels = (case get ''/cluster/resources?type=vm'' of
                                           Inl e \<Rightarrow> []
                                         | Inr vmsRaw \<Rightarrow>
                                             (case buildVMs vmsRaw of Inl e \<Rightarrow> [] | Inr rs \<Rightarrow> rs))
                             in Inr \<lparr>rs_target = t, rs_device = dev\<lparr>d_ip := tg_addr t\<rparr>,
                                     rs_related = rels\<rparr>)))))"

definition proxmox_collector_of :: "http \<Rightarrow> collector" where
  "proxmox_collector_of net = \<lparr>co_name = ''proxmox'', co_supports = proxmox_Supports,
     co_collect = proxmox_Collect proxmox_New net\<rparr>"

section \<open>FortiGate\<close>

record forti_results =
  fr_hostname :: string
  fr_model :: string
  fr_modelname :: string

record system_status =
  ss_serial :: string
  ss_version :: string
  ss_build :: int
  ss_hostname :: string
  ss_model :: string
  ss_results :: forti_results

definition empty_status :: system_status where
  "empty_status = \<lparr>ss_serial = [], ss_version = [], ss_build = 0, ss_hostname = [], ss_model = [],
     ss_results = \<lparr>fr_hostname = [], fr_model = [], fr_modelname = []\<rparr>\<rparr>"

definition dec_results :: "forti_results decoder" where
  "dec_results = dec_struct
     [(''hostname'', at_field fr_hostname (\<lambda>x r. r\<lparr>fr_hostname := x\<rparr>) dec_str),
      (''model'', at_field fr_model (\<lambda>x r. r\<lparr>fr_model := x\<rparr>) dec_str),
      (''model_name'', at_field fr_modelname (\<lambda>x r. r\<lparr>fr_modelname := x\<rparr>) dec_str)]"

definition dec_status :: "system_status decoder" where
  "dec_status = dec_struct
     [(''serial'', at_field ss_serial (\<lambda>x r. r\<lparr>ss_serial := x\<rparr>) dec_str),
      (''version'', at_field ss_version (\<lambda>x r. r\<lparr>ss_version := x\<rparr>) dec_str),
      (''build'', at_field ss_build (\<lambda>x r. r\<lparr>ss_build := x\<rparr>) dec_int),
      (''hostname'', at_field ss_hostname (\<lambda>x r. r\<lparr>ss_hostname := x\<rparr>) dec_str),
      (''model'', at_field ss_model (\<lambda>x r. r\<lparr>ss_model := x\<rparr>) dec_str),
      (''results'', at_field ss_results (\<lambda>x r. r\<lparr>ss_results := x\<rparr>) dec_results)]"

definition parseStatus :: "string \<Rightarrow> go_error + device" where
  "parseStatus raw =
     (case unmarshal dec_status empty_status raw of
        None \<Rightarrow> Inl unmarshal_error
      | Some s \<Rightarrow>
          if ss_serial s = [] \<and> \<not> has_prefix (to_lower (ss_version s)) ''v''
          then Inl (ErrText ''not a FortiGate endpoint'')
          else (let hostname = (if ss_hostname s = [] then fr_hostname (ss_results s) else ss_hostname s);
                    mdl = (if ss_model s = [] then fr_model (ss_results s) else ss_model s);
                    dev = empty_device\<lparr>d_type := TypeFirewall, d_source := ''fortigate'',
                            d_hostname := hostname, d_serial := ss_serial s,
                            d_os := Some (empty_osinfo\<lparr>os_family := ''fortios'', os_name := ''FortiOS'',
                                                       os_version := ss_version s\<rparr>)\<rparr>
                in Inr (if mdl \<noteq> [] \<or> ss_serial s \<noteq> []
                        then dev\<lparr>d_hw := Some (empty_hardware\<lparr>hw_vendor := ''Fortinet'', hw_model := mdl,
                                                              hw_serial := ss_serial s\<rparr>)\<rparr>
                        else dev)))"

definition fortigate_New :: api_collector where
  "fortigate_New = \<lparr>ac_port = 443, ac_insecure = True\<rparr>"

definition fortigate_pickCredential :: "credential list \<Rightarrow> credential option" where
  "fortigate_pickCredential creds = pick_kind [''fortigate-token''] creds"

definition fortigate_Supports :: "device_class \<Rightarrow> bool" where
  "fortigate_Supports c \<longleftrightarrow> c = ClassFirewall \<or> c = ClassUnknown"

definition fortigate_Collect :: "api_collector \<Rightarrow> http \<Rightarrow> target \<Rightarrow> go_error + result" where
  "fortigate_Collect c net t =
     (case fortigate_pickCredential (tg_creds t) of
        None \<Rightarrow> Inl ErrNoCredential
      | Some cred \<Rightarrow>
          (let port = (if ac_port c = 0 then 443 else ac_port c);
               base = base_url (tg_addr t) port
           in case apiGetBearer net (base @ ''/api/v2/monitor/system/status'') (cr_secret cred) of
                Inl e \<Rightarrow> Inl (ErrWrap ''fortigate system status: '' e)
              | Inr raw \<Rightarrow>
                  (case parseStatus raw of
                     Inl e \<Rightarrow> Inl e
                   | Inr dev \<Rightarrow> Inr \<lparr>rs_target = t, rs_device = dev\<lparr>d_ip := tg_addr t\<rparr>, rs_related = []\<rparr>)))"

definition fortigate_collector_of :: "http \<Rightarrow> collector" where
  "fortigate_collector_of net = \<lparr>co_name = ''fortigate'', co_supports = fortigate_Supports,
     co_collect = fortigate_Collect fortigate_New net\<rparr>"

section \<open>OPNsense\<close>

record product =
  pd_name :: string
  pd_version :: string

record firmware_status =
  fw_top :: product
  fw_product :: product

definition dec_product_fields :: "product fields_of" where
  "dec_product_fields =
     [(''product_name'', at_field pd_name (\<lambda>x r. r\<lparr>pd_name := x\<rparr>) dec_str),
      (''product_version'', at_field pd_version (\<lambda>x r. r\<lparr>pd_version := x\<rparr>) dec_str)]"

definition dec_firmware :: "firmware_status decoder" where
  "dec_firmware = dec_struct
     (map (\<lambda>(n, d). (n, at_field fw_top (\<lambda>x r. r\<lparr>fw_top := x\<rparr>) d)) dec_product_fields @
      [(''product'', at_field fw_product (\<lambda>x r. r\<lparr>fw_product := x\<rparr>) (dec_struct dec_product_fields))])"

definition empty_firmware :: firmware_status where
  "empty_firmware = \<lparr>fw_top = \<lparr>pd_name = [], pd_version = []\<rparr>, fw_product = \<lparr>pd_name = [], pd_version = []\<rparr>\<rparr>"

definition firmware_name :: "firmware_status \<Rightarrow> string" where
  "firmware_name f = (if pd_name (fw_product f) \<noteq> [] then pd_name (fw_product f) else pd_name (fw_top f))"

definition firmware_version :: "firmware_status \<Rightarrow> string" where
  "firmware_version f =
     (if pd_version (fw_product f) \<noteq> [] then pd_version (fw_product f) else pd_version (fw_top f))"

definition parseFirmware :: "string \<Rightarrow> go_error + device" where
  "parseFirmware raw =
     (case unmarshal dec_firmware empty_firmware raw of
        None \<Rightarrow> Inl unmarshal_error
      | Some fw \<Rightarrow>
          if \<not> contains (to_lower (firmware_name fw)) ''opnsense''
          then Inl (ErrText ''not an OPNsense endpoint'')
          else Inr (empty_device\<lparr>d_type := TypeFirewall, d_source := ''opnsense'',
                      d_os := Some (empty_osinfo\<lparr>os_family := ''opnsense'', os_name := firmware_name fw,
                                                 os_version := firmware_version fw\<rparr>)\<rparr>))"

definition opnsense_New :: api_collector where
  "opnsense_New = \<lparr>ac_port = 443, ac_insecure = True\<rparr>"

definition opnsense_pickCredential :: "credential list \<Rightarrow> credential option" where
  "opnsense_pickCredential creds = pick_kind [''opnsense-api''] creds"

definition opnsense_Collect :: "api_collector \<Rightarrow> http \<Rightarrow> target \<Rightarrow> go_error + result" where
  "opnsense_Collect c net t =
     (case opnsense_pickCredential (tg_creds t) of
        None \<Rightarrow> Inl ErrNoCredential
      | Some cred \<Rightarrow>
          (let port = (if ac_port c = 0 then 443 else ac_port c);
               base = base_url (tg_addr t) port
           in case apiGetBasic net (base @ ''/api/core/firmware/status'') (cr_username cred) (cr_secret cred) of
                Inl e \<Rightarrow> Inl (ErrWrap ''opnsense firmware status: '' e)
              | Inr raw \<Rightarrow>
                  (case parseFirmware raw of
                     Inl e \<Rightarrow> Inl e
                   | Inr dev \<Rightarrow> Inr \<lparr>rs_target = t, rs_device = dev\<lparr>d_ip := tg_addr t\<rparr>, rs_related = []\<rparr>)))"

definition opnsense_Supports :: "device_class \<Rightarrow> bool" where
  "opnsense_Supports c \<longleftrightarrow> c = ClassFirewall \<or> c = ClassUnknown"

definition opnsense_collector_of :: "http \<Rightarrow> collector" where
  "opnsense_collector_of net = \<lparr>co_name = ''opnsense'', co_supports = opnsense_Supports,
     co_collect = opnsense_Collect opnsense_New net\<rparr>"

section \<open>FRITZ!Box\<close>

text \<open>
  The fields of the device description; reading them from the XML text is \<open>encoding/xml\<close>,
  the parameter \<open>xml\<close> (\<open>None\<close> is a syntax error).
\<close>

record tr64_desc =
  td_display :: string
  td_friendly :: string
  td_maker :: string
  td_modelname :: string
  td_modeldescr :: string
  td_serial :: string

definition TR064Port :: int where
  "TR064Port = 49000"

definition descPath :: string where
  "descPath = ''/tr64desc.xml''"

definition fritz_parseMAC :: "string \<Rightarrow> string option" where
  "fritz_parseMAC s =
     (case parse_mac (trim_space s) of
        None \<Rightarrow> None
      | Some hw \<Rightarrow> if length hw \<noteq> 6 then None else Some (mac_string hw))"

definition parseDesc :: "(string \<Rightarrow> tr64_desc option) \<Rightarrow> string \<Rightarrow> go_error + device" where
  "parseDesc xml raw =
     (case xml raw of
        None \<Rightarrow> Inl ErrNoCredential
      | Some d \<Rightarrow>
          if \<not> equal_fold (trim_space (td_maker d)) ''AVM'' then Inl ErrNoCredential
          else (let name = firstNonEmpty [td_modelname d, td_friendly d, td_modeldescr d];
                    dev = empty_device\<lparr>d_type := TypeRouter, d_source := ''fritzbox'',
                            d_hw := Some (empty_hardware\<lparr>hw_vendor := ''AVM'', hw_model := name,
                                                         hw_serial := trim_space (td_serial d)\<rparr>)\<rparr>;
                    v = trim_space (td_display d);
                    dev = (if v \<noteq> []
                           then dev\<lparr>d_os := Some (empty_osinfo\<lparr>os_family := ''fritzos'', os_name := name,
                                                               os_version := v\<rparr>)\<rparr>
                           else dev)
                in Inr (case fritz_parseMAC (td_serial d) of
                          None \<Rightarrow> dev
                        | Some mac \<Rightarrow>
                            dev\<lparr>d_ifaces := [empty_iface\<lparr>if_name := ''lan'', if_mac := mac\<rparr>]\<rparr>)))"

definition fritz_fetch :: "http \<Rightarrow> string \<Rightarrow> go_error + string" where
  "fritz_fetch net url =
     (case net url [] of
        Inl e \<Rightarrow> Inl e
      | Inr (status, body) \<Rightarrow>
          if status \<noteq> 200 then Inl (ErrText (''http '' @ itoa status)) else Inr (take (2 ^ 20) body))"

text \<open>\<open>net.JoinHostPort\<close>: brackets around a host with a colon.\<close>

definition join_host_port :: "string \<Rightarrow> string \<Rightarrow> string" where
  "join_host_port host port =
     (if CHR '':'' \<in> set host then ''['' @ host @ '']:'' @ port else host @ '':'' @ port)"

definition fritz_Supports :: "device_class \<Rightarrow> bool" where
  "fritz_Supports c \<longleftrightarrow> c = ClassUnknown \<or> c = ClassFirewall"

definition fritz_New :: api_collector where
  "fritz_New = \<lparr>ac_port = TR064Port, ac_insecure = False\<rparr>"

definition fritz_Collect ::
  "api_collector \<Rightarrow> (string \<Rightarrow> tr64_desc option) \<Rightarrow> http \<Rightarrow> target \<Rightarrow> go_error + result" where
  "fritz_Collect c xml net t =
     (let port = (if ac_port c = 0 then TR064Port else ac_port c);
          url = ''http://'' @ join_host_port (addr_string (tg_addr t)) (itoa port) @ descPath
      in case fritz_fetch net url of
           Inl e \<Rightarrow> Inl ErrNoCredential
         | Inr raw \<Rightarrow>
             (case parseDesc xml raw of
                Inl e \<Rightarrow> Inl e
              | Inr dev \<Rightarrow> Inr \<lparr>rs_target = t, rs_device = dev\<lparr>d_ip := tg_addr t\<rparr>, rs_related = []\<rparr>))"

definition fritz_collector_of :: "(string \<Rightarrow> tr64_desc option) \<Rightarrow> http \<Rightarrow> collector" where
  "fritz_collector_of xml net = \<lparr>co_name = ''fritzbox'', co_supports = fritz_Supports,
     co_collect = fritz_Collect fritz_New xml net\<rparr>"

end
