(* ===== verification/Snmp.thy ===== *)
theory Snmp
  imports Ssh Worker Discovery Fingerprint
begin

text \<open>
  \<open>internal/collector/snmp\<close>: the collector for network gear (\<open>snmp.go\<close>) and the liveness
  probe (\<open>probe.go\<close>). The SNMP library is the record \<open>snmp_net\<close>: connecting, a GET, a bulk
  walk (the PDUs it delivered before it ended), and the order in which Go ranges over a map
  of a given size, which the language leaves open.
\<close>

section \<open>Values\<close>

definition oidSysDescr :: string where "oidSysDescr = ''1.3.6.1.2.1.1.1.0''"
definition oidSysObjectID :: string where "oidSysObjectID = ''1.3.6.1.2.1.1.2.0''"
definition oidSysName :: string where "oidSysName = ''1.3.6.1.2.1.1.5.0''"
definition oidSysLocation :: string where "oidSysLocation = ''1.3.6.1.2.1.1.6.0''"
definition oidIfDescr :: string where "oidIfDescr = ''1.3.6.1.2.1.2.2.1.2''"
definition oidIfPhysAddress :: string where "oidIfPhysAddress = ''1.3.6.1.2.1.2.2.1.6''"
definition oidIfSpeed :: string where "oidIfSpeed = ''1.3.6.1.2.1.2.2.1.5''"
definition oidEntPhysMfg :: string where "oidEntPhysMfg = ''1.3.6.1.2.1.47.1.1.1.1.12''"
definition oidEntPhysModel :: string where "oidEntPhysModel = ''1.3.6.1.2.1.47.1.1.1.1.13''"
definition oidEntPhysSerial :: string where "oidEntPhysSerial = ''1.3.6.1.2.1.47.1.1.1.1.11''"

text \<open>The dynamic type of a PDU's value; \<open>VOther\<close> carries what \<open>%v\<close> prints for it.\<close>

datatype snmp_value =
    VBytes string
  | VStr string
  | VInt int
  | VInt64 int
  | VUint int
  | VUint64 int
  | VUint32 int
  | VNil
  | VOther string

record pdu =
  pdu_name :: string
  pdu_value :: snmp_value

fun value_string :: "snmp_value \<Rightarrow> string" where
  "value_string (VBytes b) = trim_right_set b [CHR 0x00]"
| "value_string (VStr s) = s"
| "value_string (VInt i) = itoa i"
| "value_string (VInt64 i) = itoa i"
| "value_string (VUint i) = itoa i"
| "value_string (VUint64 i) = itoa i"
| "value_string (VUint32 i) = itoa i"
| "value_string VNil = []"
| "value_string (VOther s) = s"

definition pduString :: "pdu \<Rightarrow> string" where
  "pduString p = value_string (pdu_value p)"

definition pduUint :: "pdu \<Rightarrow> int" where
  "pduUint p =
     (case pdu_value p of
        VInt i \<Rightarrow> i
      | VInt64 i \<Rightarrow> i
      | VUint i \<Rightarrow> wrap64 i
      | VUint64 i \<Rightarrow> wrap64 i
      | VUint32 i \<Rightarrow> i
      | _ \<Rightarrow> (let s = pduString p
             in if s = [] then 0 else (case atoi s of Some n \<Rightarrow> n | None \<Rightarrow> 0)))"

definition pduMAC :: "pdu \<Rightarrow> string" where
  "pduMAC p =
     (case pdu_value p of
        VBytes b \<Rightarrow>
          if length b \<noteq> 6 then []
          else if list_all (\<lambda>x. x = CHR 0x00) b then []
          else join '':'' (map (\<lambda>x. hex_byte (of_char x)) b)
      | _ \<Rightarrow> [])"

definition osFamily :: "string \<Rightarrow> string" where
  "osFamily sysDescr =
     (let s = to_lower sysDescr
      in if contains s ''linux'' then ''linux''
         else if contains s ''windows'' then ''windows''
         else if contains s ''junos'' then ''junos''
         else if contains s ''ios'' \<or> contains s ''cisco'' then ''cisco-ios''
         else if contains s ''fortios'' \<or> contains s ''fortigate'' then ''fortios''
         else [])"

text \<open>Go's integer division truncates.\<close>

definition go_div :: "int \<Rightarrow> int \<Rightarrow> int" where
  "go_div a b = (if a < 0 then - ((- a) div b) else a div b)"

section \<open>Sessions\<close>

datatype snmp_auth = Community string | UserAuth string string string

record snmp_session =
  se_target :: string
  se_port :: int
  se_auth :: snmp_auth

record snmp_net =
  nt_connect :: "snmp_session \<Rightarrow> go_error option"
  nt_get :: "snmp_session \<Rightarrow> string list \<Rightarrow> go_error + pdu list"
  nt_walk :: "snmp_session \<Rightarrow> string \<Rightarrow> pdu list"
  nt_order :: "nat \<Rightarrow> nat list"

record snmp_collector =
  sp_port :: int

definition snmp_New :: snmp_collector where
  "snmp_New = \<lparr>sp_port = 161\<rparr>"

definition snmp_client :: "snmp_collector \<Rightarrow> snmp_net \<Rightarrow> string \<Rightarrow> credential \<Rightarrow> go_error + snmp_session" where
  "snmp_client c net tgt cred =
     (let port = (if sp_port c = 0 then 161 else sp_port c);
          auth = (if cr_kind cred = ''snmp-v2c'' \<or> cr_kind cred = []
                  then Some (Community (if cr_secret cred = [] then ''public'' else cr_secret cred))
                  else if cr_kind cred = ''snmp-v3''
                  then Some (UserAuth (cr_username cred) (cr_lookup cred ''auth_pass'') (cr_lookup cred ''priv_pass''))
                  else None)
      in case auth of
           None \<Rightarrow> Inl (ErrText (''unsupported snmp credential kind '' @ [CHR 0x22] @ cr_kind cred @ [CHR 0x22]))
         | Some au \<Rightarrow>
             (let g = \<lparr>se_target = tgt, se_port = port, se_auth = au\<rparr>
              in case nt_connect net g of
                   Some e \<Rightarrow> Inl (ErrWrap ''snmp connect: '' e)
                 | None \<Rightarrow> Inr g))"

text \<open>A Go map as the list of its entries, with the order a range visits them in.\<close>

fun map_put :: "string \<Rightarrow> 'a \<Rightarrow> (string \<times> 'a) list \<Rightarrow> (string \<times> 'a) list" where
  "map_put k v [] = [(k, v)]"
| "map_put k v ((k', v') # rest) = (if k' = k then (k, v) # rest else (k', v') # map_put k v rest)"

definition range_map :: "(nat \<Rightarrow> nat list) \<Rightarrow> 'a list \<Rightarrow> 'a list" where
  "range_map order xs =
     (let p = order (length xs) in if sort p = [0..<length xs] then map ((!) xs) p else xs)"

definition row_index :: "string \<Rightarrow> string \<Rightarrow> string" where
  "row_index base name = trim_prefix (trim_prefix (trim_prefix name (''.'' @ base)) base) ''.''"

definition walkColumn :: "snmp_net \<Rightarrow> snmp_session \<Rightarrow> string \<Rightarrow> (string \<times> pdu) list" where
  "walkColumn net g base =
     fold (\<lambda>p out. map_put (row_index base (pdu_name p)) p out) (nt_walk net g base) []"

section \<open>The tables\<close>

definition snmp_iface :: "(string \<times> pdu) list \<Rightarrow> (string \<times> pdu) list \<Rightarrow> string \<times> pdu \<Rightarrow> iface list" where
  "snmp_iface macs speeds r =
     (let (idx, d) = r;
          ifc = empty_iface\<lparr>if_name := pduString d\<rparr>;
          ifc = (case map_of macs idx of Some m \<Rightarrow> ifc\<lparr>if_mac := pduMAC m\<rparr> | None \<Rightarrow> ifc);
          ifc = (case map_of speeds idx of
                   Some s \<Rightarrow> ifc\<lparr>if_speed := go_div (pduUint s) 1000000\<rparr> | None \<Rightarrow> ifc)
      in if if_name ifc = [] \<and> if_mac ifc = [] then [] else [ifc])"

definition collectInterfaces :: "snmp_net \<Rightarrow> snmp_session \<Rightarrow> iface list" where
  "collectInterfaces net g =
     (let descrs = walkColumn net g oidIfDescr;
          macs = walkColumn net g oidIfPhysAddress;
          speeds = walkColumn net g oidIfSpeed
      in concat (map (snmp_iface macs speeds) (range_map (nt_order net) descrs)))"

fun first_serial :: "(string \<times> pdu) list \<Rightarrow> (string \<times> pdu) list \<Rightarrow> (string \<times> pdu) list \<Rightarrow> hardware option" where
  "first_serial models mfgs [] = None"
| "first_serial models mfgs ((idx, s) # rest) =
     (let serial = trim_space (pduString s)
      in if serial = [] then first_serial models mfgs rest
         else Some (empty_hardware\<lparr>hw_serial := serial,
                hw_model := (case map_of models idx of Some m \<Rightarrow> trim_space (pduString m) | None \<Rightarrow> []),
                hw_vendor := (case map_of mfgs idx of Some m \<Rightarrow> trim_space (pduString m) | None \<Rightarrow> [])\<rparr>))"

definition snmp_collectHardware :: "snmp_net \<Rightarrow> snmp_session \<Rightarrow> hardware option" where
  "snmp_collectHardware net g =
     (let serials = walkColumn net g oidEntPhysSerial;
          models = walkColumn net g oidEntPhysModel;
          mfgs = walkColumn net g oidEntPhysMfg
      in first_serial models mfgs (range_map (nt_order net) serials))"

section \<open>Collecting\<close>

definition snmp_pickCredential :: "credential list \<Rightarrow> credential option" where
  "snmp_pickCredential creds = pick_kind [''snmp-v2c'', ''snmp-v3''] creds"

definition snmp_Supports :: "device_class \<Rightarrow> bool" where
  "snmp_Supports c \<longleftrightarrow> c = ClassSNMP \<or> c = ClassFirewall"

text \<open>The loop over the scalars: the description and the name, the last one of each.\<close>

fun scan_scalars :: "pdu list \<Rightarrow> string \<times> string \<Rightarrow> string \<times> string" where
  "scan_scalars [] acc = acc"
| "scan_scalars (p # ps) (descr, name) =
     scan_scalars ps
       (if pdu_name p = ''.'' @ oidSysDescr then (pduString p, name)
        else if pdu_name p = ''.'' @ oidSysName then (descr, pduString p)
        else (descr, name))"

definition snmp_Collect :: "snmp_collector \<Rightarrow> snmp_net \<Rightarrow> target \<Rightarrow> go_error + result" where
  "snmp_Collect c net t =
     (case snmp_pickCredential (tg_creds t) of
        None \<Rightarrow> Inl ErrNoCredential
      | Some cred \<Rightarrow>
          (let tgt = addr_string (tg_addr t)
           in case snmp_client c net tgt cred of
                Inl e \<Rightarrow> Inl e
              | Inr g \<Rightarrow>
                  (case nt_get net g [oidSysDescr, oidSysObjectID, oidSysName, oidSysLocation] of
                     Inl e \<Rightarrow> Inl (ErrWrap ''snmp get: '' e)
                   | Inr scalars \<Rightarrow>
                       (let (descr, name) = scan_scalars scalars ([], []);
                            dev = empty_device\<lparr>d_type := TypeSwitch, d_ip := tg_addr t, d_source := ''snmp'',
                                    d_hostname := name\<rparr>;
                            dev = (if descr \<noteq> []
                                   then dev\<lparr>d_os := Some (empty_osinfo\<lparr>os_family := osFamily descr,
                                                                       os_name := firstLine descr\<rparr>)\<rparr>
                                   else dev)
                        in Inr \<lparr>rs_target = t,
                                rs_device = dev\<lparr>d_ifaces := collectInterfaces net g,
                                                d_hw := snmp_collectHardware net g\<rparr>,
                                rs_related = []\<rparr>))))"

definition snmp_collector_of :: "snmp_net \<Rightarrow> collector" where
  "snmp_collector_of net =
     \<lparr>co_name = ''snmp'', co_supports = snmp_Supports, co_collect = snmp_Collect snmp_New net\<rparr>"

section \<open>The probe\<close>

definition probe_one :: "snmp_collector \<Rightarrow> snmp_net \<Rightarrow> credential \<Rightarrow> addr \<Rightarrow> host option" where
  "probe_one c net cred a =
     (case snmp_client c net (addr_string a) cred of
        Inl e \<Rightarrow> None
      | Inr g \<Rightarrow> (case nt_get net g [oidSysDescr] of
                    Inl e \<Rightarrow> None
                  | Inr _ \<Rightarrow> Some \<lparr>h_addr = a, h_ports = [SNMPPort]\<rparr>))"

definition probe_jobs :: "snmp_collector \<Rightarrow> snmp_net \<Rightarrow> credential \<Rightarrow> addr list \<Rightarrow> (host option, unit) job list" where
  "probe_jobs c net cred addrs = map (\<lambda>a _ s. ((probe_one c net cred a, None), s)) addrs"

fun responders :: "host option job_result list \<Rightarrow> host list" where
  "responders [] = []"
| "responders ((v, _) # rs) = (case v of Some h \<Rightarrow> [h] | None \<Rightarrow> []) @ responders rs"

text \<open>\<open>Probe\<close>, for a finished run of the pool whose jobs ended in \<open>order\<close>.\<close>

definition snmp_Probe :: "snmp_collector \<Rightarrow> snmp_net \<Rightarrow> (nat \<times> bool) list \<Rightarrow> addr list \<Rightarrow> credential \<Rightarrow> host list" where
  "snmp_Probe c net order addrs cred =
     responders (fst (pool_outcome (probe_jobs c net cred addrs) None order ()))"

end
