(* ===== verification/SnmpSpec.thy ===== *)
theory SnmpSpec
  imports Snmp "HOL-Library.Multiset"
begin

text \<open>What the SNMP collector and its probe guarantee, and two places where they do not do
  what the code says.\<close>

section \<open>The probe\<close>

text \<open>A host answers if a session opens and the GET of \<open>sysDescr\<close> succeeds.\<close>

definition snmp_answers :: "snmp_collector \<Rightarrow> snmp_net \<Rightarrow> credential \<Rightarrow> addr \<Rightarrow> bool" where
  "snmp_answers c net cred a \<longleftrightarrow>
     (\<exists>g. snmp_client c net (addr_string a) cred = Inr g \<and> (\<exists>ps. nt_get net g [oidSysDescr] = Inr ps))"

lemma probe_one_answers:
  "probe_one c net cred a = (if snmp_answers c net cred a then Some \<lparr>h_addr = a, h_ports = [SNMPPort]\<rparr> else None)"
  by (auto simp: probe_one_def snmp_answers_def split: sum.splits)

lemma responders_concat:
  "responders rs = concat (map (\<lambda>r. case fst r of Some h \<Rightarrow> [h] | None \<Rightarrow> []) rs)"
  by (induction rs) auto

lemma concat_filter: "concat (map (\<lambda>x. if P x then [f x] else []) xs) = map f (filter P xs)"
  by (induction xs) auto

text \<open>
  (C39) A probe that is not cancelled finds exactly the addresses whose agent answers, once
  each and in the order given, each with the SNMP port as its only open port, whatever the
  order in which the workers finish.
\<close>

theorem Probe_exact:
  assumes "valid_order (length addrs) order" and "length order = length addrs"
  shows "snmp_Probe c net order addrs cred =
    map (\<lambda>a. \<lparr>h_addr = a, h_ports = [SNMPPort]\<rparr>) (filter (snmp_answers c net cred) addrs)"
proof -
  have all: "set (map fst order) = {0..<length addrs}"
    using assms by (simp add: valid_order_def)
  have jobs: "length (probe_jobs c net cred addrs) = length addrs"
      "i < length addrs \<Longrightarrow> (probe_jobs c net cred addrs ! i) b s = ((probe_one c net cred (addrs ! i), None), s)"
    for i b s by (simp_all add: probe_jobs_def)
  have "fst (pool_outcome (probe_jobs c net cred addrs) None order ()) =
      map (\<lambda>i. case map_of order i of
             Some b \<Rightarrow> (probe_one c net cred (addrs ! i), None) | None \<Rightarrow> (None, Some ctx_err))
        [0..<length addrs]"
    using pool_outcome_pure [of "probe_jobs c net cred addrs" "\<lambda>i b. (probe_one c net cred (addrs ! i), None)"
        order None "()"] jobs assms(1) by simp
  also have "\<dots> = map (\<lambda>i. (probe_one c net cred (addrs ! i), None)) [0..<length addrs]"
  proof (rule map_cong [OF HOL.refl])
    fix i assume "i \<in> set [0..<length addrs]"
    then have "i \<in> set (map fst order)" using all by simp
    then show "(case map_of order i of Some b \<Rightarrow> (probe_one c net cred (addrs ! i), None)
        | None \<Rightarrow> (None, Some ctx_err)) = (probe_one c net cred (addrs ! i), None)"
      using map_of_eq_None_iff [of order i] by (cases "map_of order i") auto
  qed
  also have "\<dots> = map (\<lambda>a. (probe_one c net cred a, None)) addrs"
    by (rule nth_equalityI) simp_all
  finally show ?thesis
    by (simp add: snmp_Probe_def responders_concat o_def probe_one_answers if_distrib [of "case_option _ _"]
        concat_filter cong: if_cong)
qed

definition demo_agents :: snmp_net where
  "demo_agents = \<lparr>nt_connect = \<lambda>_. None,
     nt_get = \<lambda>g _. if se_auth g = Community ''public'' then Inr [] else Inl (ErrText ''timeout''),
     nt_walk = \<lambda>_ _. [], nt_order = \<lambda>_. []\<rparr>"

theorem Probe_exact_witness:
  "snmp_Probe snmp_New demo_agents [(1, False), (0, False)] [A4 1, A4 2] (empty_credential\<lparr>cr_kind := ''snmp-v2c''\<rparr>) =
     [\<lparr>h_addr = A4 1, h_ports = [161]\<rparr>, \<lparr>h_addr = A4 2, h_ports = [161]\<rparr>]"
  by (subst Probe_exact)
     (auto simp: valid_order_def snmp_answers_def snmp_client_def demo_agents_def empty_credential_def
        SNMPPort_def Let_def)

section \<open>Values\<close>

text \<open>
  FortiOS devices are taken for Cisco ones: \<open>fortios\<close> contains \<open>ios\<close>, which is looked
  for first, so the branch for FortiOS is never taken by its own name.
\<close>

theorem osFamily_never_fortios:
  assumes "contains (to_lower descr) ''fortios''"
  shows "osFamily descr \<in> {''linux'', ''windows'', ''junos'', ''cisco-ios''}"
proof -
  have "contains (to_lower descr) ''ios''"
    using assms by (auto simp: contains_iff) (metis append.assoc append_Cons append_Nil)
  then show ?thesis by (simp add: osFamily_def Let_def)
qed

theorem osFamily_never_fortios_witness:
  "osFamily ''FortiOS 7.4'' \<in> {''linux'', ''windows'', ''junos'', ''cisco-ios''}"
  by (rule osFamily_never_fortios) code_simp

section \<open>Tables\<close>

text \<open>A walk keeps the last PDU of each row.\<close>

lemma map_of_put: "map_of (map_put k v m) = (map_of m)(k \<mapsto> v)"
  by (induction m) (auto simp: fun_eq_iff)

lemma walkColumn_lookup:
  "map_of (walkColumn net g base) =
     map_of (rev (map (\<lambda>p. (row_index base (pdu_name p), p)) (nt_walk net g base)))"
proof -
  have "map_of (fold (\<lambda>p out. map_put (row_index base (pdu_name p)) p out) ps out) =
      map_of out ++ map_of (rev (map (\<lambda>p. (row_index base (pdu_name p), p)) ps))" for ps out
    by (induction ps arbitrary: out) (auto simp: map_of_put)
  from this [of "nt_walk net g base" "[]"] show ?thesis by (simp add: walkColumn_def)
qed

lemma mset_range_map: "mset (range_map order xs) = mset xs"
proof (cases "sort (order (length xs)) = [0..<length xs]")
  case True
  then have "mset (order (length xs)) = mset [0..<length xs]" by (metis mset_sort)
  then have "mset (map ((!) xs) (order (length xs))) = mset (map ((!) xs) [0..<length xs])"
    by (simp only: mset_map)
  then show ?thesis using True by (simp add: range_map_def Let_def map_nth)
next
  case False
  then show ?thesis by (simp add: range_map_def Let_def)
qed


text \<open>
  The hardware does depend on it: of two chassis rows with a serial, either may be reported,
  where the comment on \<open>collectHardware\<close> promises the first.
\<close>

definition demo_stack :: "(nat \<Rightarrow> nat list) \<Rightarrow> snmp_net" where
  "demo_stack order = \<lparr>nt_connect = \<lambda>_. None, nt_get = \<lambda>_ _. Inr [],
     nt_walk = \<lambda>_ column. if column = oidEntPhysSerial
       then [\<lparr>pdu_name = ''.'' @ column @ ''.1'', pdu_value = VStr ''AAA''\<rparr>,
             \<lparr>pdu_name = ''.'' @ column @ ''.2'', pdu_value = VStr ''BBB''\<rparr>] else [],
     nt_order = order\<rparr>"

lemma hardware_depends_on_order:
  "map_option hw_serial (snmp_collectHardware (demo_stack (\<lambda>n. [0..<n])) g) = Some ''AAA'' \<and>
   map_option hw_serial (snmp_collectHardware (demo_stack (\<lambda>n. rev [0..<n])) g) = Some ''BBB''"
  by (simp add: snmp_collectHardware_def walkColumn_def demo_stack_def range_map_def row_index_def
        oidEntPhysSerial_def oidEntPhysModel_def oidEntPhysMfg_def trim_prefix_def has_prefix_def
        pduString_def trim_space_all_plain plain_char_def upt_rec Let_def)

end
