(* ===== verification/Collectors.thy ===== *)
theory Collectors
  imports Snmp ApiCollectors ScanEngine
begin

text \<open>
  What the engine expects of a collector, as two locales, and the eight collectors of
  \<open>cmd/motzworks/collectors.go\<close> as their interpretations.
\<close>

section \<open>The contract\<close>

text \<open>
  A collector answers for the target it was asked about, under its own name, with a type it
  is meant to recognise.
\<close>

locale inventory_collector =
  fixes collect :: "target \<Rightarrow> go_error + result" and source :: string and types :: "device_type set"
  assumes named: "source \<noteq> []"
    and known: "ty \<in> types \<Longrightarrow> ty \<noteq> [] \<and> ty \<noteq> TypeUnknown"
    and answers: "collect t = Inr r \<Longrightarrow>
          rs_target r = t \<and> d_ip (rs_device r) = tg_addr t \<and> d_source (rs_device r) = source \<and>
          d_type (rs_device r) \<in> types"
begin

lemma answer:
  assumes "collect t = Inr r" and "is_valid (tg_addr t)"
  shows "source \<noteq> [] \<and> mergeDevice base (rs_device r) name = rs_device r \<and>
    d_ip (rs_device r) = tg_addr t \<and> d_source (rs_device r) = source \<and>
    d_type (rs_device r) \<notin> {[], TypeUnknown}"
  using answers [OF assms(1)] known assms(2) named by (auto simp: mergeDevice_def Let_def)

end

text \<open>One that logs in: without a credential of its kinds it declines, which is not a failure.\<close>

locale credentialed_collector = inventory_collector +
  fixes kinds :: "string list"
  assumes declines: "pick_kind kinds (tg_creds t) = None \<Longrightarrow> collect t = Inl ErrNoCredential"
begin

lemma needs_credential:
  "collect t = Inr r \<Longrightarrow> \<exists>c \<in> set (tg_creds t). cr_kind c \<in> set kinds"
  using declines [of t] pick_kind_None [of kinds "tg_creds t"] by fastforce

lemma declines_without: "(\<forall>c \<in> set (tg_creds t). cr_kind c \<notin> set kinds) \<Longrightarrow> collect t = Inl ErrNoCredential"
  by (rule declines) (simp add: pick_kind_None)

end

section \<open>The collectors\<close>

lemma ssh_device_facts:
  "d_ip (ssh_device c run a) = a" "d_source (ssh_device c run a) = ''ssh''"
  "d_type (ssh_device c run a) \<noteq> TypeLinux \<Longrightarrow> d_type (ssh_device c run a) = TypeMac"
  by (simp_all add: ssh_device_def typeFor_def Let_def split_beta split: if_splits)

interpretation ssh: credentialed_collector "ssh_Collect c net" "''ssh''" "{TypeMac, TypeLinux}"
  "[''ssh-password'', ''ssh-key'']"
  using ssh_device_facts(3)
  by unfold_locales
     (auto simp: ssh_Collect_def ssh_pickCredential_def Let_def ssh_device_facts(1,2) split: option.splits)

interpretation snmp: credentialed_collector "snmp_Collect c net" "''snmp''" "{TypeSwitch}"
  "[''snmp-v2c'', ''snmp-v3'']"
  by unfold_locales
     (auto simp: snmp_Collect_def snmp_pickCredential_def Let_def split: option.splits prod.splits sum.splits if_splits)

lemma wmi_parse_device:
  "wmi_parseInventory b = Inr d \<Longrightarrow> d_type d = TypeWindows \<and> d_source d = ''wmi'' \<and> d_ip d = no_addr"
  by (auto simp: wmi_parseInventory_def empty_device_def split: option.splits)

lemma winrm_parse_device:
  "winrm_parseInventory b = Inr d \<Longrightarrow> d_type d = TypeWindows \<and> d_source d = ''winrm'' \<and> d_ip d = no_addr"
  by (auto simp: winrm_parseInventory_def empty_device_def split: option.splits)

interpretation wmi: credentialed_collector "wmi_Collect c exec" "''wmi''" "{TypeWindows}" "[''wmi'']"
  by unfold_locales
     (auto simp: wmi_Collect_def wmi_pickCredential_def dest: wmi_parse_device
        split: option.splits prod.splits sum.splits exec_result.splits)

interpretation winrm: credentialed_collector "winrm_Collect c net" "''winrm''" "{TypeWindows}" "[''winrm'']"
  by unfold_locales
     (auto simp: winrm_Collect_def winrm_pickCredential_def Let_def dest: winrm_parse_device
        split: option.splits prod.splits sum.splits if_splits)

lemma buildHypervisor_device:
  "buildHypervisor v n = Inr d \<Longrightarrow> d_type d = TypeHypervisor \<and> d_source d = ''proxmox''"
  by (auto simp: buildHypervisor_def Let_def split: option.splits list.splits)

interpretation proxmox: credentialed_collector "proxmox_Collect c net" "''proxmox''" "{TypeHypervisor}"
  "[''proxmox-token'']"
  by unfold_locales
     (auto simp: proxmox_Collect_def proxmox_pickCredential_def Let_def dest: buildHypervisor_device
        split: option.splits sum.splits)

lemma parseFirmware_device: "parseFirmware raw = Inr d \<Longrightarrow> d_type d = TypeFirewall \<and> d_source d = ''opnsense''"
  by (auto simp: parseFirmware_def split: option.splits if_splits)

interpretation opnsense: credentialed_collector "opnsense_Collect c net" "''opnsense''" "{TypeFirewall}"
  "[''opnsense-api'']"
  by unfold_locales
     (auto simp: opnsense_Collect_def opnsense_pickCredential_def Let_def dest: parseFirmware_device
        split: option.splits sum.splits)

lemma parseStatus_device: "parseStatus raw = Inr d \<Longrightarrow> d_type d = TypeFirewall \<and> d_source d = ''fortigate''"
  by (auto simp: parseStatus_def Let_def split: option.splits if_splits)

interpretation fortigate: credentialed_collector "fortigate_Collect c net" "''fortigate''" "{TypeFirewall}"
  "[''fortigate-token'']"
  by unfold_locales
     (auto simp: fortigate_Collect_def fortigate_pickCredential_def Let_def dest: parseStatus_device
        split: option.splits sum.splits)

lemma parseDesc_device: "parseDesc xml raw = Inr d \<Longrightarrow> d_type d = TypeRouter \<and> d_source d = ''fritzbox''"
  by (auto simp: parseDesc_def Let_def split: option.splits if_splits)

interpretation fritzbox: inventory_collector "fritz_Collect c xml net" "''fritzbox''" "{TypeRouter}"
  by unfold_locales
     (auto simp: fritz_Collect_def Let_def dest: parseDesc_device split: option.splits sum.splits)

lemma parseDesc_error: "parseDesc xml raw = Inl e \<Longrightarrow> e = ErrNoCredential"
  by (auto simp: parseDesc_def Let_def split: option.splits if_splits)

lemma fritz_never_fails: "fritz_Collect c xml net t = Inl e \<Longrightarrow> e = ErrNoCredential"
  by (auto simp: fritz_Collect_def Let_def dest: parseDesc_error split: sum.splits)

section \<open>The registry of the program\<close>

record collector_env =
  ce_ssh :: ssh_net
  ce_snmp :: snmp_net
  ce_python :: string
  ce_exec :: "wmi_env \<Rightarrow> exec_result"
  ce_winrm :: winrm_net
  ce_http :: http
  ce_xml :: "string \<Rightarrow> tr64_desc option"

definition registerCollectors :: "collector_env \<Rightarrow> registry \<Rightarrow> registry" where
  "registerCollectors env reg =
     (let reg = register (ssh_collector_of (ce_ssh env)) reg;
          reg = register (snmp_collector_of (ce_snmp env)) reg;
          reg = register (wmi_collector_of (ce_python env) (ce_exec env)) reg;
          reg = register (winrm_collector_of (ce_winrm env)) reg;
          reg = register (proxmox_collector_of (ce_http env)) reg;
          reg = register (opnsense_collector_of (ce_http env)) reg;
          reg = register (fortigate_collector_of (ce_http env)) reg
      in register (fritz_collector_of (ce_xml env) (ce_http env)) reg)"

lemmas collector_ofs = ssh_collector_of_def snmp_collector_of_def wmi_collector_of_def
  winrm_collector_of_def proxmox_collector_of_def opnsense_collector_of_def
  fortigate_collector_of_def fritz_collector_of_def

lemma set_registerCollectors:
  "set (registerCollectors env new_registry) =
     {ssh_collector_of (ce_ssh env), snmp_collector_of (ce_snmp env),
      wmi_collector_of (ce_python env) (ce_exec env), winrm_collector_of (ce_winrm env),
      proxmox_collector_of (ce_http env), opnsense_collector_of (ce_http env),
      fortigate_collector_of (ce_http env), fritz_collector_of (ce_xml env) (ce_http env)}"
  by (auto simp: registerCollectors_def register_def new_registry_def)

lemma registered_answers:
  assumes "c \<in> set (registerCollectors env new_registry)" and "co_collect c t = Inr r" and "is_valid (tg_addr t)"
  shows "co_name c \<noteq> [] \<and> mergeDevice base (rs_device r) (co_name c) = rs_device r \<and>
    d_ip (rs_device r) = tg_addr t \<and> d_source (rs_device r) = co_name c \<and>
    d_type (rs_device r) \<notin> {[], TypeUnknown}"
  using assms(1,2)
  by (auto simp only: set_registerCollectors collector_ofs insert_iff empty_iff collector.simps
        dest!: ssh.answer [OF _ assms(3)] snmp.answer [OF _ assms(3)] wmi.answer [OF _ assms(3)]
          winrm.answer [OF _ assms(3)] proxmox.answer [OF _ assms(3)] opnsense.answer [OF _ assms(3)]
          fortigate.answer [OF _ assms(3)] fritzbox.answer [OF _ assms(3)])


lemma registered_declines:
  "c \<in> set (registerCollectors env new_registry) \<Longrightarrow> tg_creds t = [] \<Longrightarrow>
   co_collect c t = Inl ErrNoCredential \<or> c = fritz_collector_of (ce_xml env) (ce_http env)"
  by (auto simp only: set_registerCollectors collector_ofs insert_iff empty_iff collector.simps
        intro!: ssh.declines_without snmp.declines_without wmi.declines_without winrm.declines_without
          proxmox.declines_without opnsense.declines_without fortigate.declines_without; simp)

lemma registered_without:
  assumes "c \<in> set (registerCollectors env new_registry)" and "tg_creds t = []"
  shows "co_collect c t = Inl ErrNoCredential \<or> co_name c = ''fritzbox'' \<and> (\<exists>r. co_collect c t = Inr r)"
proof (cases "co_collect c t")
  case (Inl e)
  with registered_declines [OF assms] show ?thesis
    by (auto simp: fritz_collector_of_def dest: fritz_never_fails)
next
  case (Inr r)
  with registered_declines [OF assms] show ?thesis by (auto simp: fritz_collector_of_def)
qed

section \<open>What a scan makes of them\<close>

text \<open>
  (C28) A device the engine gets from the program's collectors is well formed: it carries the
  address of the host it was read from, the name of the collector that succeeded as its
  source, and a type that is neither empty nor unknown, so nothing of the fingerprint's guess
  is left in it.
\<close>

theorem collected_device_ok:
  assumes "is_valid (tg_addr t)"
    and "run_collectors pgt (registry_for (registerCollectors env new_registry) cls) t base errs =
      (dev, rels, name, errs')" and "name \<noteq> []"
  shows "d_ip dev = tg_addr t \<and> d_source dev = name \<and> d_type dev \<noteq> [] \<and> d_type dev \<noteq> TypeUnknown \<and>
    (\<exists>c \<in> set (registerCollectors env new_registry). co_name c = name \<and> co_supports c cls \<and>
       (\<exists>r. co_collect c t = Inr r \<and> dev = rs_device r \<and> rels = rs_related r))"
proof -
  have "set cs \<subseteq> set (registry_for (registerCollectors env new_registry) cls) \<Longrightarrow>
      run_collectors pgt cs t base errs = (dev, rels, name, errs') \<Longrightarrow>
      \<exists>c \<in> set cs. \<exists>r. co_collect c t = Inr r \<and> dev = mergeDevice base (rs_device r) (co_name c) \<and>
        rels = rs_related r \<and> name = co_name c" for cs
    using assms(3)
    by (induction cs arbitrary: errs) (fastforce split: sum.splits if_splits)+
  from this [OF subset_refl assms(2)] obtain c r where
    c: "c \<in> set (registry_for (registerCollectors env new_registry) cls)" and r: "co_collect c t = Inr r"
    and dev: "dev = mergeDevice base (rs_device r) (co_name c)" "rels = rs_related r" "name = co_name c"
    by blast
  have reg: "c \<in> set (registerCollectors env new_registry)" using c by (simp add: registry_for_def)
  note ok = registered_answers [OF this r assms(1), of base]
  then have dr: "dev = rs_device r" using dev(1) by simp
  have "co_supports c cls" by (rule registry_for_supports [OF c])
  then have "\<exists>c \<in> set (registerCollectors env new_registry). co_name c = name \<and> co_supports c cls \<and>
      (\<exists>r. co_collect c t = Inr r \<and> dev = rs_device r \<and> rels = rs_related r)"
    using reg r dr dev(2,3) by blast
  then show ?thesis using ok dr dev(3) by simp
qed

text \<open>
  Scanning without credentials is never an error: whatever the network answers, no
  collector of the program reports a failure then, and the only one that can succeed is the
  FRITZ!Box one, which needs none.
\<close>

theorem scan_without_credentials:
  assumes "tg_creds t = []"
    and "run_collectors pgt (registry_for (registerCollectors env new_registry) cls) t base [] =
      (dev, rels, name, errs)"
  shows "errs = [] \<and> (name = [] \<and> dev = base \<and> rels = [] \<or> name = ''fritzbox'')"
proof -
  have "set cs \<subseteq> set (registerCollectors env new_registry) \<Longrightarrow>
      run_collectors pgt cs t base [] = (dev, rels, name, errs) \<Longrightarrow>
      errs = [] \<and> (name = [] \<and> dev = base \<and> rels = [] \<or> name = ''fritzbox'')" for cs
  proof (induction cs)
    case (Cons c cs)
    from Cons.prems(1) have "c \<in> set (registerCollectors env new_registry)" by simp
    from registered_without [OF this assms(1)] Cons show ?case by auto
  qed simp
  from this [OF _ assms(2)] show ?thesis by (simp add: registry_for_def)
qed

section \<open>An example\<close>

text \<open>A network with one FRITZ!Box, asked without credentials.\<close>

definition demo_box :: tr64_desc where
  "demo_box = \<lparr>td_display = ''7.57'', td_friendly = ''box'', td_maker = ''AVM'', td_modelname = ''7590'',
     td_modeldescr = [], td_serial = []\<rparr>"

definition demo_network :: collector_env where
  "demo_network = \<lparr>
     ce_ssh = \<lparr>sn_key = \<lambda>_. None, sn_dial = \<lambda>_ _. None, sn_handshake = \<lambda>_ _. None, sn_run = \<lambda>_ _ _. []\<rparr>,
     ce_snmp = \<lparr>nt_connect = \<lambda>_. None, nt_get = \<lambda>_ _. Inr [], nt_walk = \<lambda>_ _. [], nt_order = \<lambda>_. []\<rparr>,
     ce_python = [], ce_exec = \<lambda>_. ExecOk [],
     ce_winrm = \<lparr>wn_client = \<lambda>_ _ _ _. None, wn_run = \<lambda>_ _ _ _. Inr ([], [], 0)\<rparr>,
     ce_http = \<lambda>_ _. Inr (200, []), ce_xml = \<lambda>_. Some demo_box\<rparr>"

definition demo_target :: target where
  "demo_target = \<lparr>tg_addr = A4 0x0A000001, tg_hostname = ''10.0.0.1'', tg_class = ClassUnknown, tg_creds = []\<rparr>"

lemma demo_answer:
  "\<exists>dev rels errs. run_collectors pgt (registry_for (registerCollectors demo_network new_registry) ClassUnknown)
     demo_target base [] = (dev, rels, ''fritzbox'', errs)"
proof -
  have "\<exists>r. fritz_Collect fritz_New (ce_xml demo_network) (ce_http demo_network) demo_target = Inr r"
    by (simp add: fritz_Collect_def fritz_fetch_def parseDesc_def demo_network_def demo_box_def
          equal_fold_def trim_space_all_plain plain_char_def Let_def split: option.splits)
  then show ?thesis
    by (auto simp: registry_for_def registerCollectors_def register_def new_registry_def collector_ofs
        ssh_Supports_def snmp_Supports_def wmi_Supports_def winrm_Supports_def proxmox_Supports_def
        opnsense_Supports_def fortigate_Supports_def fritz_Supports_def
        ssh.declines_without opnsense.declines_without fortigate.declines_without demo_target_def)
qed

text \<open>The FRITZ!Box of the example gives a well-formed router.\<close>

theorem collected_device_ok_witness:
  "\<exists>dev rels errs. run_collectors (\<lambda>_. []) (registry_for (registerCollectors demo_network new_registry) ClassUnknown)
     demo_target empty_device [] = (dev, rels, ''fritzbox'', errs) \<and>
     d_ip dev = A4 0x0A000001 \<and> d_source dev = ''fritzbox'' \<and> d_type dev \<noteq> TypeUnknown"
proof -
  obtain dev rels errs where
    run: "run_collectors (\<lambda>_. []) (registry_for (registerCollectors demo_network new_registry) ClassUnknown)
      demo_target empty_device [] = (dev, rels, ''fritzbox'', errs)"
    using demo_answer by blast
  have "is_valid (tg_addr demo_target)" by (simp add: demo_target_def)
  from collected_device_ok [OF this run] run show ?thesis by (auto simp: demo_target_def)
qed

theorem scan_without_credentials_witness:
  "\<exists>dev rels. run_collectors (\<lambda>_. []) (registry_for (registerCollectors demo_network new_registry) ClassUnknown)
     demo_target empty_device [] = (dev, rels, ''fritzbox'', [])"
proof -
  obtain dev rels errs where
    run: "run_collectors (\<lambda>_. []) (registry_for (registerCollectors demo_network new_registry) ClassUnknown)
      demo_target empty_device [] = (dev, rels, ''fritzbox'', errs)"
    using demo_answer by blast
  have "tg_creds demo_target = []" by (simp add: demo_target_def)
  from scan_without_credentials [OF this run] run show ?thesis by auto
qed

end
