(* ===== verification/JsonText.thy ===== *)
theory JsonText
  imports Json
begin

text \<open>
  Writing JSON as \<open>encoding/json\<close> does, and reading it back: the string literals of
  \<open>json.Marshal\<close>, and the proof that the parser's fuel is enough.
\<close>

section \<open>String literals\<close>

definition backslash :: char where [simp]: "backslash = CHR 0x5C"
definition dquote :: char where [simp]: "dquote = CHR 0x22"

definition u_hex :: "nat \<Rightarrow> string" where
  "u_hex b = [backslash, CHR ''u'', CHR ''0'', CHR ''0'', hex_char (b div 16), hex_char (b mod 16)]"

definition short_escape :: "char \<Rightarrow> char option" where
  "short_escape c =
     map_of [(dquote, dquote), (backslash, backslash), (CHR 0x08, CHR ''b''), (CHR 0x0C, CHR ''f''),
             (CHR 0x0A, CHR ''n''), (CHR 0x0D, CHR ''r''), (CHR 0x09, CHR ''t'')] c"

definition escape_ascii :: "char \<Rightarrow> string" where
  "escape_ascii c =
     (case short_escape c of
        Some e \<Rightarrow> [backslash, e]
      | None \<Rightarrow> if (of_char c :: nat) < 0x20 \<or> c \<in> {CHR ''<'', CHR ''>'', CHR ''&''} then u_hex (of_char c) else [c])"

definition escape_rune :: "string \<Rightarrow> string" where
  "escape_rune u =
     (if u = [CHR 0xE2, CHR 0x80, CHR 0xA8] then backslash # ''u2028''
      else if u = [CHR 0xE2, CHR 0x80, CHR 0xA9] then backslash # ''u2029'' else u)"

function json_escape :: "string \<Rightarrow> string" where
  "json_escape [] = []"
| "json_escape (c # cs) =
     (if (of_char c :: nat) < 0x80 then escape_ascii c @ json_escape cs
      else if utf8_width (c # cs) = 0 then backslash # ''ufffd'' @ json_escape cs
      else escape_rune (take (utf8_width (c # cs)) (c # cs)) @
           json_escape (drop (utf8_width (c # cs) - 1) cs))"
  by pat_completeness auto
termination by (relation "measure length") auto

definition json_quote :: "string \<Rightarrow> string" where
  "json_quote s = dquote # json_escape s @ [dquote]"

function valid_utf8 :: "string \<Rightarrow> bool" where
  "valid_utf8 [] = True"
| "valid_utf8 (c # cs) =
     (utf8_width (c # cs) \<noteq> 0 \<and> valid_utf8 (drop (utf8_width (c # cs) - 1) cs))"
  by pat_completeness auto
termination by (relation "measure length") auto

lemma utf8_width_ascii: "(of_char c :: nat) < 0x80 \<Longrightarrow> utf8_width (c # cs) = 1"
  by (simp add: utf8_width_def)

lemma utf8_width_short:
  "utf8_width [a] = (if (of_char a :: nat) < 0x80 then 1 else 0)"
  "utf8_width [a, b] \<le> 2" "utf8_width [a, b, c] \<le> 3"
  by (simp_all add: utf8_width_def)

lemma utf8_width_le: "utf8_width s \<le> 4"
  by (auto simp: utf8_width_def split: list.split)

lemma utf8_width_le_length: "utf8_width s \<le> length s"
proof (cases "length s < 4")
  case True
  then consider "s = []" | a where "s = [a]" | a b where "s = [a, b]" | a b c where "s = [a, b, c]"
    by (cases s; cases "tl s"; cases "tl (tl s)") auto
  then show ?thesis by cases (simp_all add: utf8_width_def)
next
  case False
  then show ?thesis using utf8_width_le [of s] by linarith
qed

lemma utf8_width_more:
  "utf8_width [a] = k \<Longrightarrow> k \<noteq> 0 \<Longrightarrow> utf8_width (a # t) = k"
  "utf8_width [a, b] = k \<Longrightarrow> k \<noteq> 0 \<Longrightarrow> utf8_width (a # b # t) = k"
  "utf8_width [a, b, c] = k \<Longrightarrow> k \<noteq> 0 \<Longrightarrow> utf8_width (a # b # c # t) = k"
  "utf8_width (a # b # c # d # t) = utf8_width [a, b, c, d]"
  by (simp_all add: utf8_width_def split: if_splits)

lemma utf8_width_fewer:
  "utf8_width (a # t) = 1 \<Longrightarrow> utf8_width [a] = 1"
  "utf8_width (a # b # t) = 2 \<Longrightarrow> utf8_width [a, b] = 2"
  "utf8_width (a # b # c # t) = 3 \<Longrightarrow> utf8_width [a, b, c] = 3"
  by (auto simp: utf8_width_def split: if_splits list.splits)

lemma utf8_width_prefix:
  assumes "utf8_width s \<noteq> 0"
  shows "utf8_width (take (utf8_width s) s @ t) = utf8_width s"
proof -
  note le = utf8_width_le_length [of s]
  have "utf8_width s \<in> {1, 2, 3, 4}" using assms utf8_width_le [of s] by auto
  then consider "utf8_width s = 1" | "utf8_width s = 2" | "utf8_width s = 3" | "utf8_width s = 4" by blast
  then show ?thesis
  proof cases
    case 1
    with le obtain a r where s: "s = a # r" by (cases s) auto
    with utf8_width_more(1) [OF utf8_width_fewer(1)] 1 show ?thesis by simp
  next
    case 2
    with le obtain a b r where s: "s = a # b # r" by (cases s; cases "tl s") auto
    with utf8_width_more(2) [OF utf8_width_fewer(2)] 2 show ?thesis by (simp add: numeral_2_eq_2)
  next
    case 3
    with le obtain a b c r where s: "s = a # b # c # r" by (cases s; cases "tl s"; cases "tl (tl s)") auto
    with utf8_width_more(3) [OF utf8_width_fewer(3)] 3 show ?thesis by (simp add: numeral_3_eq_3)
  next
    case 4
    with le obtain a b c d r where s: "s = a # b # c # d # r"
      by (cases s; cases "tl s"; cases "tl (tl s)"; cases "tl (tl (tl s))") auto
    with 4 show ?thesis by (simp add: utf8_width_more(4) [of a b c d t] utf8_width_more(4) [of a b c d r])
  qed
qed

lemma json_string_plain:
  "(of_char c :: nat) < 0x80 \<Longrightarrow> 0x20 \<le> (of_char c :: nat) \<Longrightarrow> c \<noteq> dquote \<Longrightarrow> c \<noteq> backslash \<Longrightarrow>
   json_string acc (c # cs) = json_string (acc @ [c]) cs"
  by (subst json_string.simps) (simp add: utf8_width_ascii)

lemma json_string_escape:
  "simple_escape e = Some x \<Longrightarrow> json_string acc (backslash # e # cs) = json_string (acc @ [x]) cs"
  by (subst json_string.simps) (auto simp: simple_escape_def split: if_splits)

lemma json_string_u:
  "u_escape s = Some (t, rest) \<Longrightarrow> json_string acc (backslash # CHR ''u'' # s) = json_string (acc @ t) rest"
  by (subst json_string.simps) simp

text \<open>The escape \<open>\u00XX\<close> of a byte below 128.\<close>

lemma hex4_4:
  "hex4 4 0 (a # b # c # d # s) =
     (case (hex_val a, hex_val b, hex_val c, hex_val d) of
        (Some w, Some x, Some y, Some z) \<Rightarrow> Some (16 * (16 * (16 * w + x) + y) + z, s)
      | _ \<Rightarrow> None)"
proof -
  have "(4::nat) = Suc (Suc (Suc (Suc 0)))" by simp
  then show ?thesis by (simp only: hex4.simps) (simp split: option.splits)
qed

lemma u_escape_hex:
  assumes "b < 0x80"
  shows "u_escape (CHR ''0'' # CHR ''0'' # hex_char (b div 16) # hex_char (b mod 16) # s) = Some ([char_of b], s)"
proof -
  have "hex_val (CHR ''0'') = Some 0" by (simp add: hex_val_def)
  moreover have "16 * (b div 16) + b mod 16 = b" by simp
  moreover have "hex_val (hex_char (b div 16)) = Some (b div 16)" "hex_val (hex_char (b mod 16)) = Some (b mod 16)"
    using assms by simp_all
  ultimately have "hex4 4 0 (CHR ''0'' # CHR ''0'' # hex_char (b div 16) # hex_char (b mod 16) # s) = Some (b, s)"
    by (simp add: hex4_4 del: hex_val_hex_char)
  then show ?thesis using assms by (simp add: u_escape_def utf8_encode_def)
qed

lemma short_escape_Some: "short_escape c = Some e \<Longrightarrow> simple_escape e = Some c"
  unfolding short_escape_def by (drule map_of_SomeD) (auto simp: simple_escape_def)

lemma short_escape_None: "short_escape c = None \<Longrightarrow> c \<noteq> dquote \<and> c \<noteq> backslash"
  by (simp add: short_escape_def map_of_eq_None_iff del: map_of.simps)

lemma json_string_escape_ascii:
  assumes "(of_char c :: nat) < 0x80"
  shows "json_string acc (escape_ascii c @ rest) = json_string (acc @ [c]) rest"
proof (cases "short_escape c")
  case (Some e)
  with json_string_escape [OF short_escape_Some [OF Some]] show ?thesis by (simp add: escape_ascii_def)
next
  case None
  have "json_string acc (u_hex (of_char c) @ rest) = json_string (acc @ [c]) rest"
    using json_string_u [OF u_escape_hex [OF assms]] by (simp add: u_hex_def)
  with None show ?thesis
    using json_string_plain [OF assms _ short_escape_None [OF None, THEN conjunct1] short_escape_None [OF None, THEN conjunct2]]
    by (simp add: escape_ascii_def)
qed

lemma u_escape_separators:
  "u_escape (''2028'' @ s) = Some ([CHR 0xE2, CHR 0x80, CHR 0xA8], s)"
  "u_escape (''2029'' @ s) = Some ([CHR 0xE2, CHR 0x80, CHR 0xA9], s)"
proof -
  have v: "hex_val (CHR ''0'') = Some 0" "hex_val (CHR ''2'') = Some 2" "hex_val (CHR ''8'') = Some 8"
      "hex_val (CHR ''9'') = Some 9"
    by (simp_all add: hex_val_def)
  have "hex4 4 0 (''2028'' @ s) = Some (0x2028, s)" "hex4 4 0 (''2029'' @ s) = Some (0x2029, s)"
    by (simp_all add: hex4_4 v)
  moreover have "utf8_encode 0x2028 = [CHR 0xE2, CHR 0x80, CHR 0xA8]" "utf8_encode 0x2029 = [CHR 0xE2, CHR 0x80, CHR 0xA9]"
    by (simp_all add: utf8_encode_def char_of_def bit_Suc_0_iff)
  ultimately show "u_escape (''2028'' @ s) = Some ([CHR 0xE2, CHR 0x80, CHR 0xA8], s)"
    "u_escape (''2029'' @ s) = Some ([CHR 0xE2, CHR 0x80, CHR 0xA9], s)"
    by (simp_all only: u_escape_def option.case prod.case) simp_all
qed

lemma json_string_rune:
  assumes "\<not> (of_char c :: nat) < 0x80" and "utf8_width (c # cs) \<noteq> 0"
  shows "json_string acc (take (utf8_width (c # cs)) (c # cs) @ rest) =
    json_string (acc @ take (utf8_width (c # cs)) (c # cs)) rest"
proof -
  define k where "k = utf8_width (c # cs)"
  obtain m where k: "k = Suc m" using assms(2) by (auto simp: k_def gr0_conv_Suc)
  have len: "length (take m cs) = m" using utf8_width_le_length [of "c # cs"] by (simp add: k k_def [symmetric])
  have cut: "take m (take m cs @ rest) = take m cs" "drop m (take m cs @ rest) = rest"
    using len by (metis append_eq_conv_conj)+
  have w: "utf8_width (c # take m cs @ rest) = Suc m"
    using utf8_width_prefix [OF assms(2), of rest] by (simp add: k k_def [symmetric])
  have "c \<noteq> CHR 0x22" "c \<noteq> CHR 0x5C" using assms(1) by auto
  with assms(1) have "json_string acc (c # take m cs @ rest) = json_string (acc @ c # take m cs) rest"
    by (subst json_string.simps) (simp add: w cut del: take_append drop_append)
  then show ?thesis by (simp add: k k_def [symmetric])
qed

lemma json_string_escape_rune:
  assumes "\<not> (of_char c :: nat) < 0x80" and "utf8_width (c # cs) \<noteq> 0"
  shows "json_string acc (escape_rune (take (utf8_width (c # cs)) (c # cs)) @ rest) =
    json_string (acc @ take (utf8_width (c # cs)) (c # cs)) rest"
  using json_string_rune [OF assms] json_string_u [OF u_escape_separators(1) [of rest]]
    json_string_u [OF u_escape_separators(2) [of rest]]
  by (simp add: escape_rune_def)

text \<open>
  A string literal is read back as the string it was written for.
\<close>

lemma json_string_quote:
  "valid_utf8 s \<Longrightarrow> json_string acc (json_escape s @ dquote # rest) = Some (acc @ s, rest)"
proof (induction s arbitrary: acc rule: json_escape.induct)
  case 1
  then show ?case by (simp add: json_string.simps)
next
  case (2 c cs)
  show ?case
  proof (cases "(of_char c :: nat) < 0x80")
    case True
    with 2 show ?thesis by (simp add: json_string_escape_ascii utf8_width_ascii)
  next
    case False
    from 2 obtain m where m: "utf8_width (c # cs) = Suc m" by (auto simp: gr0_conv_Suc)
    with 2 False json_string_escape_rune [OF False, of cs] show ?thesis by simp
  qed
qed

section \<open>The fuel of the parser\<close>

lemma skip_ws_length: "length (skip_ws s) \<le> length s"
  by (simp add: skip_ws_def length_dropWhile_le)

lemma skip_ws_Cons: "skip_ws s = c # cs \<Longrightarrow> length cs < length s"
  using skip_ws_length [of s] by simp

text \<open>A step of the string lexer ends, fails, or goes on with a shorter text.\<close>

lemma json_string_step:
  obtains t where "json_string acc (c # cs) = Some (t, cs)"
  | "json_string acc (c # cs) = None"
  | acc' rest where "json_string acc (c # cs) = json_string acc' rest" "length rest \<le> length cs"
proof (cases "c = CHR 0x22")
  case True
  with that(1) show ?thesis by (simp add: json_string.simps)
next
  case nq: False
  show ?thesis
  proof (cases "(of_char c :: nat) < 0x20")
    case True
    with nq that(2) show ?thesis by simp
  next
    case np: False
    show ?thesis
    proof (cases "c = CHR 0x5C")
      case True
      show ?thesis
      proof (cases cs)
        case Nil
        with True np that(2) show ?thesis by simp
      next
        case (Cons e rest)
        with True np that(2,3) show ?thesis
          by (cases "u_escape rest"; cases "simple_escape e"; cases "e = CHR ''u''")
             (auto simp: u_escape_length le_SucI split: prod.splits)
      qed
    next
      case False
      with nq np that(3) show ?thesis
        by (cases "utf8_width (c # cs) = 0") (simp_all add: json_string.simps)
    qed
  qed
qed

lemma json_string_length: "json_string acc s = Some (t, r) \<Longrightarrow> length r < length s"
proof (induction s arbitrary: acc rule: length_induct)
  case (1 s)
  show ?case
  proof (cases s)
    case Nil
    with 1 show ?thesis by simp
  next
    case (Cons c cs)
    from json_string_step [of acc c cs] show ?thesis
      using 1 Cons by cases (auto dest: le_less_trans)
  qed
qed

lemma digits1_length: "digits1 s = Some (d, r) \<Longrightarrow> length r < length s"
  by (cases s) (auto simp: digits1_def Let_def length_dropWhile_le le_imp_less_Suc split: if_splits)

lemma json_int_length: "json_int s = Some (d, r) \<Longrightarrow> length r < length s"
  by (auto simp: json_int_def Let_def dest!: digits1_length split: list.splits if_splits)

lemma json_frac_length: "json_frac s = Some (d, r) \<Longrightarrow> length r \<le> length s"
  by (auto simp: json_frac_def dest!: digits1_length split: list.splits if_splits)

lemma json_exp_length: "json_exp s = Some (d, r) \<Longrightarrow> length r \<le> length s"
  by (auto simp: json_exp_def Let_def dest!: digits1_length split: list.splits if_splits)

lemma json_number_length: "json_number s = Some (d, r) \<Longrightarrow> length r < length s"
  by (force simp: json_number_def dest!: json_int_length json_frac_length json_exp_length split: option.splits)

lemma json_value_length:
  "json_value n s = Some (v, r) \<Longrightarrow> length r < length s"
  "json_items n acc s = Some (v, r) \<Longrightarrow> length r < length s"
  "json_members n mems s = Some (v, r) \<Longrightarrow> length r < length s"
proof (induction n s and n acc s and n mems s arbitrary: v r and v r and v r
    rule: json_value_json_items_json_members.induct)
  case (2 n s)
  then obtain c cs where sk: "skip_ws s = c # cs" by (cases "skip_ws s") auto
  have len: "length cs < length s" by (rule skip_ws_Cons [OF sk])
  have lit: "length (drop k (c # cs)) < length s" if "0 < k" for k using len that by (cases k) auto
  show ?case
  proof (cases "c = CHR ''['' \<or> c = CHR ''{''")
    case True
    with 2 sk len show ?thesis
      by (cases "skip_ws cs") (fastforce split: if_splits dest: skip_ws_Cons intro: less_trans)+
  next
    case False
    with "2.prems" sk len lit [of 4] lit [of 5] show ?thesis
      by (auto split: if_splits dest!: json_string_length json_number_length)
  qed
next
  case (4 n acc s)
  from "4.prems" obtain v1 r1 where v: "json_value n s = Some (v1, r1)" by (auto split: option.splits)
  with 4 obtain c r2 where sk: "skip_ws r1 = c # r2" by (cases "skip_ws r1") auto
  show ?case
    using 4 v sk skip_ws_Cons [OF sk] by (fastforce split: if_splits)
next
  case (6 n mems s)
  then obtain c cs where sk: "skip_ws s = c # cs" by (cases "skip_ws s") auto
  with "6.prems" obtain key r0 where q: "c = CHR 0x22" "json_string [] cs = Some (key, r0)"
    by (auto split: if_splits option.splits)
  with "6.prems" sk obtain d r1 where sk1: "skip_ws r0 = d # r1" by (cases "skip_ws r0") auto
  with "6.prems" sk q obtain v1 r2 where v: "d = CHR '':''" "json_value n r1 = Some (v1, r2)"
    by (auto split: if_splits option.splits)
  with "6.prems" sk q sk1 obtain e r3 where sk2: "skip_ws r2 = e # r3" by (cases "skip_ws r2") auto
  have "length r3 < length s"
    using skip_ws_Cons [OF sk] json_string_length [OF q(2)] skip_ws_Cons [OF sk1] skip_ws_Cons [OF sk2]
      "6.IH"(1) [OF sk _ q(2) _ sk1 _ v(2)] q(1) v(1) by auto
  then show ?case
    using "6.prems" "6.IH"(2) [OF sk _ q(2) _ sk1 _ v(2) _ sk2] sk q sk1 v sk2 by (fastforce split: if_splits)
qed simp_all

text \<open>More fuel than two steps per byte changes nothing.\<close>

lemma json_fuel_step:
  "(\<forall>s. 2 * length s + 1 \<le> n \<longrightarrow> json_value (Suc n) s = json_value n s) \<and>
   (\<forall>acc s. 2 * length s + 2 \<le> n \<longrightarrow> json_items (Suc n) acc s = json_items n acc s) \<and>
   (\<forall>acc s. 2 * length s + 2 \<le> n \<longrightarrow> json_members (Suc n) acc s = json_members n acc s)"
proof (induction n)
  case (Suc n)
  then have V: "2 * length s + 1 \<le> n \<Longrightarrow> json_value (Suc n) s = json_value n s"
    and I: "2 * length s + 2 \<le> n \<Longrightarrow> json_items (Suc n) acc s = json_items n acc s"
    and M: "2 * length s + 2 \<le> n \<Longrightarrow> json_members (Suc n) mems s = json_members n mems s" for s acc mems
    by blast+
  have "json_value (Suc (Suc n)) s = json_value (Suc n) s" if "2 * length s + 1 \<le> Suc n" for s
  proof (cases "skip_ws s")
    case (Cons c cs)
    have "2 * length cs + 2 \<le> n" using skip_ws_Cons [OF Cons] that by linarith
    with Cons show ?thesis by (simp only: json_value.simps list.case I M)
  qed simp
  moreover have "json_items (Suc (Suc n)) acc s = json_items (Suc n) acc s"
    if "2 * length s + 2 \<le> Suc n" for acc s
  proof (cases "json_value n s")
    case (Some p)
    obtain v r where p: "p = (v, r)" by (cases p)
    have v: "json_value (Suc n) s = json_value n s" by (rule V) (use that in linarith)
    show ?thesis
    proof (cases "skip_ws r")
      case Nil
      with Some p v show ?thesis by (simp only: json_items.simps option.case prod.case list.case)
    next
      case (Cons c r1)
      have "2 * length r1 + 2 \<le> n"
        using json_value_length(1) [OF Some [unfolded p]] skip_ws_Cons [OF Cons] that by linarith
      with Some p v Cons show ?thesis
        by (simp only: json_items.simps(2) [of "Suc n" acc s] json_items.simps(2) [of n acc s]
              option.case prod.case list.case I)
    qed
  next
    case None
    moreover have "json_value (Suc n) s = json_value n s" by (rule V) (use that in linarith)
    ultimately show ?thesis by (simp only: json_items.simps option.case)
  qed
  moreover have "json_members (Suc (Suc n)) acc s = json_members (Suc n) acc s"
    if "2 * length s + 2 \<le> Suc n" for acc s
  proof -
    have "json_value (Suc n) r1 = json_value n r1 \<and>
        (\<forall>v r2 e r3. json_value n r1 = Some (v, r2) \<longrightarrow> skip_ws r2 = e # r3 \<longrightarrow>
          (\<forall>acc. json_members (Suc n) acc r3 = json_members n acc r3))"
      if "skip_ws s = q # cs" "json_string [] cs = Some (key, r)" "skip_ws r = c # r1" for q cs key r c r1
    proof -
      have len: "length r1 < length s"
        using skip_ws_Cons [OF that(1)] json_string_length [OF that(2)] skip_ws_Cons [OF that(3)] by linarith
      then have "2 * length r1 + 1 \<le> n" using \<open>2 * length s + 2 \<le> Suc n\<close> by linarith
      moreover have "2 * length r3 + 2 \<le> n"
        if "json_value n r1 = Some (v, r2)" "skip_ws r2 = e # r3" for v r2 e r3
        using json_value_length(1) [OF that(1)] skip_ws_Cons [OF that(2)] len
          \<open>2 * length s + 2 \<le> Suc n\<close> by linarith
      ultimately show ?thesis using V M by blast
    qed
    then show ?thesis
      by (simp only: json_members.simps(2) [of "Suc n" acc s] json_members.simps(2) [of n acc s])
         (auto split: list.split option.split simp del: json_members.simps json_value.simps)
  qed
  ultimately show ?case by blast
qed simp

lemma json_fuel:
  assumes "2 * length s + 1 \<le> m" and "m \<le> n"
  shows "json_value n s = json_value m s"
  using assms(2,1) by (induction n rule: dec_induct) (use json_fuel_step in auto)

section \<open>Documents\<close>

text \<open>\<open>json.Marshal\<close> on the JSON value of a Go value: no white space, keys in field order.\<close>

fun json_text :: "json \<Rightarrow> string"
and member_text :: "string \<times> json \<Rightarrow> string" where
  "json_text JNull = ''null''"
| "json_text (JBool b) = (if b then ''true'' else ''false'')"
| "json_text (JNum t) = t"
| "json_text (JStr s) = json_quote s"
| "json_text (JList vs) = ''['' @ join '','' (map json_text vs) @ '']''"
| "json_text (JObj kvs) = ''{'' @ join '','' (map member_text kvs) @ ''}''"
| "member_text (k, v) = json_quote k @ '':'' @ json_text v"

fun json_ok :: "json \<Rightarrow> bool"
and member_ok :: "string \<times> json \<Rightarrow> bool" where
  "json_ok (JNum t) \<longleftrightarrow> (\<exists>i. t = itoa i)"
| "json_ok (JStr s) \<longleftrightarrow> valid_utf8 s"
| "json_ok (JList vs) \<longleftrightarrow> (\<forall>v \<in> set vs. json_ok v)"
| "json_ok (JObj kvs) \<longleftrightarrow> (\<forall>p \<in> set kvs. member_ok p)"
| "json_ok v \<longleftrightarrow> True"
| "member_ok (k, v) \<longleftrightarrow> valid_utf8 k \<and> json_ok v"

definition json_stop :: "string \<Rightarrow> bool" where
  "json_stop rest \<longleftrightarrow> rest = [] \<or> hd rest \<in> {CHR '','', CHR '']'', CHR ''}''}"

lemma json_stop_simps [simp]:
  "json_stop []" "json_stop (CHR '','' # s)" "json_stop (CHR '']'' # s)" "json_stop (CHR ''}'' # s)"
  by (simp_all add: json_stop_def)

lemma nat_str_lead: "hd (nat_str n) = CHR ''0'' \<Longrightarrow> n = 0"
proof (induction n rule: nat_str.induct)
  case (1 n)
  show ?case
  proof (cases "n < 10")
    case True
    have "hd (nat_str n) = digit_char n" using True by (simp add: nat_str.simps [of n])
    moreover have "digit_char 0 = CHR ''0''" by (simp add: digit_char_lits)
    ultimately show ?thesis
      using 1(2) True digit_val_digit_char [of n] digit_val_digit_char [of 0] by simp
  next
    case False
    then have "hd (nat_str n) = hd (nat_str (n div 10))" by (simp add: nat_str.simps [of n] hd_append)
    with 1 False show ?thesis by simp
  qed
qed

lemma stop_not_digit: "json_stop rest \<Longrightarrow> takeWhile is_digit rest = [] \<and> dropWhile is_digit rest = rest"
  by (cases rest) (auto simp: json_stop_def is_digit_def)

lemma digits1_nat_str: "json_stop rest \<Longrightarrow> digits1 (nat_str n @ rest) = Some (nat_str n, rest)"
  using nat_str_digits [of n] stop_not_digit [of rest]
  by (simp add: digits1_def Let_def list_all_iff takeWhile_append2 dropWhile_append2)

lemma json_int_itoa:
  assumes "json_stop rest"
  shows "json_int (itoa i @ rest) = Some (itoa i, rest)"
proof -
  define n where "n = nat \<bar>i\<bar>"
  obtain c cs where c: "nat_str n = c # cs" by (cases "nat_str n") simp_all
  have dig: "is_digit c" using nat_str_chars [of c n] c by simp
  then have minus: "c \<noteq> CHR ''-''" by (auto simp: is_digit_def)
  have dc: "digits1 (c # cs @ rest) = Some (c # cs, rest)"
    using digits1_nat_str [OF assms, of n] c by simp
  have zero: "c = CHR ''0'' \<Longrightarrow> cs = [] \<and> n = 0"
    using nat_str_lead [of n] c by (auto simp: nat_str.simps [of 0])
  show ?thesis
  proof (cases "i < 0")
    case True
    then have "itoa i = CHR ''-'' # c # cs" "n \<noteq> 0" using c by (simp_all add: itoa_def n_def)
    then show ?thesis using dc zero by (auto simp: json_int_def)
  next
    case False
    then have "itoa i = c # cs" using c by (simp add: itoa_def n_def)
    then show ?thesis using dc zero minus by (auto simp: json_int_def)
  qed
qed

lemma json_number_itoa:
  assumes "json_stop rest"
  shows "json_number (itoa i @ rest) = Some (itoa i, rest)"
proof -
  have "json_frac rest = Some ([], rest)" "json_exp rest = Some ([], rest)"
    using assms by (cases rest; auto simp: json_stop_def json_frac_def json_exp_def)+
  then show ?thesis by (simp add: json_number_def json_int_itoa [OF assms])
qed

lemma itoa_head: "\<exists>c cs. itoa i = c # cs \<and> (c = CHR ''-'' \<or> is_digit c)"
proof -
  have "\<exists>c cs. nat_str n = c # cs \<and> is_digit c" for n
    using nat_str_chars [of "hd (nat_str n)" n] by (cases "nat_str n") auto
  then show ?thesis by (cases "i < 0") (simp_all add: itoa_def, blast)
qed

text \<open>No document starts with white space or with a closing bracket.\<close>

definition opens :: "string \<Rightarrow> bool" where
  "opens s \<longleftrightarrow> s \<noteq> [] \<and> \<not> json_space (hd s) \<and> hd s \<noteq> CHR '']'' \<and> hd s \<noteq> CHR ''}''"

lemma opens_text: "json_ok v \<Longrightarrow> opens (json_text v)"
proof (cases v)
  case (JNum t)
  moreover assume "json_ok v"
  ultimately obtain i where "t = itoa i" by auto
  with itoa_head [of i] JNum show ?thesis by (auto simp: opens_def json_space_def is_digit_def)
qed (simp_all add: opens_def json_space_def json_quote_def)

lemma skip_ws_opens: "opens s \<Longrightarrow> skip_ws (s @ rest) = s @ rest"
  by (cases s) (auto simp: opens_def skip_ws_def)

lemma json_value_num:
  assumes "json_stop rest"
  shows "json_value (Suc n) (itoa i @ rest) = Some (JNum (itoa i), rest)"
proof -
  obtain c cs where c: "itoa i = c # cs" and h: "c = CHR ''-'' \<or> is_digit c" using itoa_head by blast
  have "skip_ws (itoa i @ rest) = itoa i @ rest"
    using h by (auto simp: c skip_ws_def json_space_def is_digit_def)
  moreover have "c \<notin> {CHR 0x22, CHR ''['', CHR ''{'', CHR ''t'', CHR ''f'', CHR ''n''}"
    using h by (auto simp: is_digit_def)
  ultimately show ?thesis using json_number_itoa [OF assms, of i] by (simp add: c has_prefix_iff)
qed

lemma json_value_quote: "valid_utf8 s \<Longrightarrow> json_value (Suc n) (json_quote s @ rest) = Some (JStr s, rest)"
  using json_string_quote [of s "[]" rest] by (simp add: json_quote_def skip_ws_def json_space_def)

lemma json_items_text:
  assumes "\<And>v n rest. v \<in> set vs \<Longrightarrow> json_stop rest \<Longrightarrow> 2 * length (json_text v @ rest) + 1 \<le> n \<Longrightarrow>
      json_value n (json_text v @ rest) = Some (v, rest)"
    and "vs \<noteq> []" and "2 * length (join '','' (map json_text vs) @ '']'' @ rest) + 2 \<le> n"
  shows "json_items n acc (join '','' (map json_text vs) @ '']'' @ rest) = Some (JList (acc @ vs), rest)"
  using assms
proof (induction vs arbitrary: acc n)
  case (Cons v vs)
  then obtain m where n: "n = Suc m" by (cases n) auto
  show ?case
  proof (cases vs)
    case Nil
    then have "json_value m (json_text v @ CHR '']'' # rest) = Some (v, CHR '']'' # rest)"
      using Cons.prems(1) [of v "CHR '']'' # rest" m] Cons.prems(3) n by simp
    then show ?thesis using Nil n by (simp add: skip_ws_def json_space_def)
  next
    case (Cons w ws)
    define tail where "tail = join '','' (map json_text vs) @ '']'' @ rest"
    have whole: "join '','' (map json_text (v # vs)) @ '']'' @ rest = json_text v @ CHR '','' # tail"
      by (simp add: tail_def Cons)
    have room: "2 * (length (json_text v) + 1 + length tail) + 1 \<le> m"
      using Cons.prems(3) n unfolding whole by simp
    then have "json_value m (json_text v @ CHR '','' # tail) = Some (v, CHR '','' # tail)"
      using Cons.prems(1) [of v "CHR '','' # tail" m] by simp
    moreover have "json_items m (acc @ [v]) tail = Some (JList ((acc @ [v]) @ vs), rest)"
      unfolding tail_def
    proof (rule Cons.IH)
      show "2 * length (join '','' (map json_text vs) @ '']'' @ rest) + 2 \<le> m"
        using room by (simp add: tail_def)
    qed (use Cons.prems(1) Cons in auto)
    ultimately show ?thesis unfolding whole n by (simp add: skip_ws_def json_space_def)
  qed
qed simp

lemma json_members_text:
  assumes "\<And>k v n rest. (k, v) \<in> set kvs \<Longrightarrow> json_stop rest \<Longrightarrow> 2 * length (json_text v @ rest) + 1 \<le> n \<Longrightarrow>
      json_value n (json_text v @ rest) = Some (v, rest)"
    and "\<forall>(k, v) \<in> set kvs. valid_utf8 k"
    and "kvs \<noteq> []" and "2 * length (join '','' (map member_text kvs) @ ''}'' @ rest) + 2 \<le> n"
  shows "json_members n acc (join '','' (map member_text kvs) @ ''}'' @ rest) = Some (JObj (acc @ kvs), rest)"
  using assms
proof (induction kvs arbitrary: acc n)
  case (Cons p kvs)
  then obtain m where n: "n = Suc m" by (cases n) auto
  obtain k v where p: "p = (k, v)" by (cases p)
  have key: "json_string [] (json_escape k @ CHR 0x22 # s) = Some (k, s)" for s
    using json_string_quote [of k "[]" s] Cons.prems(2) p by simp
  show ?case
  proof (cases kvs)
    case Nil
    then have "json_value m (json_text v @ CHR ''}'' # rest) = Some (v, CHR ''}'' # rest)"
      using Cons.prems(1) [of k v "CHR ''}'' # rest" m] Cons.prems(4) n p by (simp add: json_quote_def)
    then show ?thesis using Nil n p key by (simp add: json_quote_def skip_ws_def json_space_def)
  next
    case (Cons q qs)
    define tail where "tail = join '','' (map member_text kvs) @ ''}'' @ rest"
    have whole: "join '','' (map member_text (p # kvs)) @ ''}'' @ rest =
        json_quote k @ CHR '':'' # json_text v @ CHR '','' # tail"
      by (simp add: tail_def Cons p)
    have room: "2 * (length (json_text v) + 1 + length tail) + 1 \<le> m"
      using Cons.prems(4) n unfolding whole by simp
    then have "json_value m (json_text v @ CHR '','' # tail) = Some (v, CHR '','' # tail)"
      using Cons.prems(1) [of k v "CHR '','' # tail" m] p by simp
    moreover have "json_members m (acc @ [p]) tail = Some (JObj ((acc @ [p]) @ kvs), rest)"
      unfolding tail_def
    proof (rule Cons.IH)
      show "2 * length (join '','' (map member_text kvs) @ ''}'' @ rest) + 2 \<le> m"
        using room by (simp add: tail_def)
    qed (use Cons.prems(1,2) Cons in auto)
    ultimately show ?thesis unfolding whole n
      by (simp add: json_quote_def key skip_ws_def json_space_def p)
  qed
qed simp

lemma json_value_text:
  "json_ok v \<Longrightarrow> json_stop rest \<Longrightarrow> 2 * length (json_text v @ rest) + 1 \<le> n \<Longrightarrow>
   json_value n (json_text v @ rest) = Some (v, rest)"
proof (induction v arbitrary: n rest)
  case (JNum t)
  then show ?case using json_value_num by (cases n) auto
next
  case (JStr s)
  then show ?case using json_value_quote by (cases n) simp_all
next
  case (JList vs)
  then obtain m where n: "n = Suc m" by (cases n) auto
  show ?case
  proof (cases "vs = []")
    case False
    then obtain w ws where vs: "vs = w # ws" by (cases vs) auto
    have "opens (json_text w)" using JList.prems(1) vs opens_text by simp
    then have "opens (join '','' (map json_text vs) @ '']'' @ rest)"
      by (cases ws) (auto simp: vs opens_def)
    then have "skip_ws (join '','' (map json_text vs) @ '']'' @ rest) = join '','' (map json_text vs) @ '']'' @ rest"
      and "hd (join '','' (map json_text vs) @ '']'' @ rest) \<noteq> CHR '']''"
      using skip_ws_opens [of _ "[]"] by (simp_all add: opens_def)
    moreover have "json_items m [] (join '','' (map json_text vs) @ '']'' @ rest) = Some (JList ([] @ vs), rest)"
      by (rule json_items_text) (use JList n False in auto)
    ultimately show ?thesis
      using n by (cases "join '','' (map json_text vs) @ '']'' @ rest") (simp_all add: skip_ws_def json_space_def)
  qed (simp add: n skip_ws_def json_space_def)
next
  case (JObj kvs)
  then obtain m where n: "n = Suc m" by (cases n) auto
  show ?case
  proof (cases "kvs = []")
    case False
    then obtain k w ws where kvs: "kvs = (k, w) # ws" by (cases kvs) auto
    have "\<exists>s. join '','' (map member_text kvs) @ ''}'' @ rest = CHR 0x22 # s"
      by (cases ws) (simp_all add: kvs json_quote_def)
    then obtain s where s: "join '','' (map member_text kvs) @ ''}'' @ rest = CHR 0x22 # s" by blast
    have "json_members m [] (join '','' (map member_text kvs) @ ''}'' @ rest) = Some (JObj ([] @ kvs), rest)"
      by (rule json_members_text) (use JObj n False in auto)
    then show ?thesis using n s by (simp add: skip_ws_def json_space_def)
  qed (simp add: n skip_ws_def json_space_def)
next
  case JNull
  then show ?case by (cases n) (simp_all add: skip_ws_def json_space_def has_prefix_iff)
next
  case (JBool b)
  then show ?case by (cases n; cases b) (simp_all add: skip_ws_def json_space_def has_prefix_iff)
qed

text \<open>A document is read back as the value it was written for.\<close>

lemma json_parse_text: "json_ok v \<Longrightarrow> json_parse (json_text v) = Some v"
proof -
  assume "json_ok v"
  then have "json_value (2 * length (json_text v) + 1) (json_text v) = Some (v, [])"
    using json_value_text [of v "[]" "2 * length (json_text v) + 1"] by simp
  then show ?thesis by (simp only: json_parse_def) (simp add: skip_ws_def)
qed

end
