(* ===== verification/Auth.thy ===== *)
theory Auth
  imports JsonText Base64 Prelude
begin

text \<open>
  \<open>internal/auth/auth.go\<close>: roles, password hashes and session tokens. bcrypt, the random
  source and HMAC-SHA256 are parameters; JSON and base64 are the models of this development.
\<close>

section \<open>Roles\<close>

definition RoleAdmin :: string where [simp]: "RoleAdmin = ''admin''"
definition RoleViewer :: string where [simp]: "RoleViewer = ''viewer''"

definition NormalizeRole :: "string \<Rightarrow> go_error + string" where
  "NormalizeRole role =
     (if role = RoleAdmin \<or> role = RoleViewer then Inr role
      else if role = [] then Inr RoleViewer
      else Inl (ErrText (''invalid role '' @ [CHR 0x22] @ role @ [CHR 0x22] @ '' (want admin or viewer)'')))"

section \<open>Passwords and secrets\<close>

text \<open>What bcrypt answers: a hash (which fails for passwords over 72 bytes), and a comparison.\<close>

record bcrypt =
  bc_generate :: "string \<Rightarrow> go_error + string"
  bc_compare :: "string \<Rightarrow> string \<Rightarrow> go_error option"

definition HashPassword :: "bcrypt \<Rightarrow> string \<Rightarrow> go_error + string" where
  "HashPassword bc password = bc_generate bc password"

definition CheckPassword :: "bcrypt \<Rightarrow> string \<Rightarrow> string \<Rightarrow> bool" where
  "CheckPassword bc hash password \<longleftrightarrow> bc_compare bc hash password = None"

text \<open>\<open>rand.Read\<close> of 32 bytes gives the bytes or an error.\<close>

definition GenerateSecret :: "go_error + string \<Rightarrow> go_error + string" where
  "GenerateSecret rand = (case rand of Inl e \<Rightarrow> Inl e | Inr b \<Rightarrow> Inr (std_encode b))"

section \<open>Tokens\<close>

record claims =
  cl_user :: string
  cl_name :: string
  cl_role :: string
  cl_expires :: int

definition zero_claims :: claims where
  "zero_claims = \<lparr>cl_user = [], cl_name = [], cl_role = [], cl_expires = 0\<rparr>"

definition claims_json :: "claims \<Rightarrow> json" where
  "claims_json c = JObj [(''uid'', JStr (cl_user c)), (''usr'', JStr (cl_name c)), (''role'', JStr (cl_role c)),
     (''exp'', JNum (itoa (cl_expires c)))]"

definition dec_claims :: "claims decoder" where
  "dec_claims = dec_struct
     [(''uid'', at_field cl_user (\<lambda>x r. r\<lparr>cl_user := x\<rparr>) dec_str),
      (''usr'', at_field cl_name (\<lambda>x r. r\<lparr>cl_name := x\<rparr>) dec_str),
      (''role'', at_field cl_role (\<lambda>x r. r\<lparr>cl_role := x\<rparr>) dec_str),
      (''exp'', at_field cl_expires (\<lambda>x r. r\<lparr>cl_expires := x\<rparr>) dec_int)]"

type_synonym hmac = "string \<Rightarrow> string \<Rightarrow> string"

definition token_sign :: "hmac \<Rightarrow> string \<Rightarrow> string \<Rightarrow> string" where
  "token_sign mac secret payload = mac secret payload"

text \<open>Marshalling a struct of strings and an integer does not fail.\<close>

definition IssueToken :: "hmac \<Rightarrow> string \<Rightarrow> claims \<Rightarrow> string" where
  "IssueToken mac secret c =
     (let payload = json_text (claims_json c);
          p = url_encode payload
      in p @ ''.'' @ url_encode (token_sign mac secret p))"

definition VerifyToken :: "hmac \<Rightarrow> string \<Rightarrow> int \<Rightarrow> string \<Rightarrow> go_error + claims" where
  "VerifyToken mac secret now token =
     (case index_byte token (CHR ''.'') of
        None \<Rightarrow> Inl (ErrText ''malformed token'')
      | Some dot \<Rightarrow>
          (let p = take dot token; sig = drop (dot + 1) token;
               want = token_sign mac secret p
           in case url_decode sig of
                None \<Rightarrow> Inl (ErrText ''malformed token signature'')
              | Some got \<Rightarrow>
                  if want \<noteq> got then Inl (ErrText ''invalid token signature'')
                  else (case url_decode p of
                          None \<Rightarrow> Inl (ErrText ''malformed token payload'')
                        | Some payload \<Rightarrow>
                            (case unmarshal dec_claims zero_claims payload of
                               None \<Rightarrow> Inl (ErrText ''json: cannot unmarshal'')
                             | Some c \<Rightarrow>
                                 if cl_expires c < now then Inl (ErrText ''token expired'') else Inr c))))"

section \<open>What a token is worth\<close>

lemma claims_back:
  assumes "valid_utf8 (cl_user c)" and "valid_utf8 (cl_name c)" and "valid_utf8 (cl_role c)"
    and "- (2 ^ 63) \<le> cl_expires c" and "cl_expires c < 2 ^ 63"
  shows "unmarshal dec_claims zero_claims (json_text (claims_json c)) = Some c"
proof -
  have keys: "valid_utf8 ''uid'' \<and> valid_utf8 ''usr'' \<and> valid_utf8 ''role'' \<and> valid_utf8 ''exp''"
    by (simp add: utf8_width_def)
  have "json_parse (json_text (claims_json c)) = Some (claims_json c)"
    by (rule json_parse_text) (use assms keys in \<open>auto simp: claims_json_def simp del: valid_utf8.simps\<close>)
  moreover have "dec_claims (claims_json c) zero_claims = Some c"
    using assms(4,5)
    by (simp add: dec_claims_def claims_json_def find_field_def at_field_def zero_claims_def atoi_itoa)
  ultimately show ?thesis by (simp only: unmarshal_def option.case)
qed

lemma verify_issued:
  assumes "unmarshal dec_claims zero_claims (json_text (claims_json c)) = Some c"
  shows "VerifyToken mac secret now (IssueToken mac secret c) =
    (if cl_expires c < now then Inl (ErrText ''token expired'') else Inr c)"
  using assms by (simp add: VerifyToken_def IssueToken_def Let_def url64.index_pair url64.dec_enc)

text \<open>
  (C30) An issued token is accepted under the secret it was issued with until it expires, and
  gives back exactly its claims; after that it is refused as expired.
\<close>

theorem token_roundtrip:
  assumes "valid_utf8 (cl_user c)" and "valid_utf8 (cl_name c)" and "valid_utf8 (cl_role c)"
    and "- (2 ^ 63) \<le> cl_expires c" and "cl_expires c < 2 ^ 63"
  shows "VerifyToken mac secret now (IssueToken mac secret c) =
    (if cl_expires c < now then Inl (ErrText ''token expired'') else Inr c)"
  by (rule verify_issued [OF claims_back [OF assms]])

theorem token_roundtrip_witness:
  "VerifyToken (\<lambda>k p. k @ p) ''key'' 100
     (IssueToken (\<lambda>k p. k @ p) ''key'' \<lparr>cl_user = ''7'', cl_name = ''ann'', cl_role = RoleAdmin, cl_expires = 200\<rparr>) =
   Inr \<lparr>cl_user = ''7'', cl_name = ''ann'', cl_role = RoleAdmin, cl_expires = 200\<rparr>"
  by (subst token_roundtrip) (simp_all add: utf8_width_def)

lemma index_byte_Some:
  "index_byte s c = Some i \<Longrightarrow> s = take i s @ c # drop (i + 1) s \<and> c \<notin> set (take i s)"
  by (induction s arbitrary: i) (auto split: if_splits)

text \<open>
  (C29) Nothing else is accepted: a token is accepted with claims \<open>c\<close> exactly if it is a payload
  and a signature around its first dot, the signature is the HMAC of the payload under the
  secret, the payload holds \<open>c\<close>, and \<open>c\<close> has not expired.
\<close>

theorem token_sound:
  "VerifyToken mac secret now token = Inr c \<longleftrightarrow>
   (\<exists>p sig payload. token = p @ CHR ''.'' # sig \<and> CHR ''.'' \<notin> set p \<and>
      url_decode sig = Some (mac secret p) \<and> url_decode p = Some payload \<and>
      unmarshal dec_claims zero_claims payload = Some c \<and> now \<le> cl_expires c)"
  (is "_ \<longleftrightarrow> ?R")
proof
  assume ok: "VerifyToken mac secret now token = Inr c"
  then obtain dot where dot: "index_byte token (CHR ''.'') = Some dot"
    by (auto simp: VerifyToken_def split: option.splits)
  let ?p = "take dot token" and ?sig = "drop (dot + 1) token"
  have split: "token = ?p @ CHR ''.'' # ?sig \<and> CHR ''.'' \<notin> set ?p" by (rule index_byte_Some [OF dot])
  have "url_decode ?sig = Some (mac secret ?p) \<and> (\<exists>payload. url_decode ?p = Some payload \<and>
      unmarshal dec_claims zero_claims payload = Some c \<and> now \<le> cl_expires c)"
    using ok dot by (simp add: VerifyToken_def token_sign_def Let_def split: option.splits if_splits)
  with split show ?R by blast
next
  assume ?R
  then show "VerifyToken mac secret now token = Inr c"
    by (auto simp: VerifyToken_def token_sign_def index_byte_append Let_def)
qed

end
