(* ===== verification/Vault.thy ===== *)
theory Vault
  imports Base64 Prelude
begin

text \<open>
  \<open>internal/vault/vault.go\<close>: sealing secrets under a symmetric key. NaCl secretbox and the
  random source are parameters; what the code relies on in secretbox is \<open>box_correct\<close>: a box
  opens under the key and nonce it was sealed with.
\<close>

definition keySize :: nat where [simp]: "keySize = 32"
definition nonceSize :: nat where [simp]: "nonceSize = 24"

text \<open>A vault is its key. The functions of secretbox take the nonce, the key and the message.\<close>

record vault =
  vt_key :: string

record secretbox =
  bx_seal :: "string \<Rightarrow> string \<Rightarrow> string \<Rightarrow> string"
  bx_open :: "string \<Rightarrow> string \<Rightarrow> string \<Rightarrow> string option"

definition box_correct :: "secretbox \<Rightarrow> bool" where
  "box_correct box \<longleftrightarrow> (\<forall>nonce key m. bx_open box nonce key (bx_seal box nonce key m) = Some m)"

text \<open>\<open>io.ReadFull(rand.Reader, \<dots>)\<close>: the bytes, or an error.\<close>

definition GenerateKey :: "go_error + string \<Rightarrow> go_error + string" where
  "GenerateKey rand = (case rand of Inl e \<Rightarrow> Inl e | Inr k \<Rightarrow> Inr (std_encode k))"

definition vault_New :: "string \<Rightarrow> go_error + vault" where
  "vault_New b64key =
     (case std_decode b64key of
        None \<Rightarrow> Inl (ErrWrap ''decode vault key: '' (ErrText ''illegal base64 data''))
      | Some raw \<Rightarrow>
          if length raw \<noteq> keySize
          then Inl (ErrText (''vault key must be '' @ itoa (int keySize) @ '' bytes, got '' @ itoa (int (length raw))))
          else Inr \<lparr>vt_key = raw\<rparr>)"

definition FromEnv :: "(string \<Rightarrow> string) \<Rightarrow> string \<Rightarrow> go_error + vault" where
  "FromEnv getenv envName =
     (let b64 = getenv envName
      in if b64 = []
         then Inl (ErrText (''vault key env '' @ [CHR 0x22] @ envName @ [CHR 0x22] @ '' is not set''))
         else vault_New b64)"

definition vault_Seal :: "secretbox \<Rightarrow> vault \<Rightarrow> go_error + string \<Rightarrow> string \<Rightarrow> go_error + string" where
  "vault_Seal box v rand plaintext =
     (case rand of
        Inl e \<Rightarrow> Inl e
      | Inr nonce \<Rightarrow> Inr (std_encode (nonce @ bx_seal box nonce (vt_key v) plaintext)))"

definition vault_Open :: "secretbox \<Rightarrow> vault \<Rightarrow> string \<Rightarrow> go_error + string" where
  "vault_Open box v b64 =
     (case std_decode b64 of
        None \<Rightarrow> Inl (ErrWrap ''decode sealed value: '' (ErrText ''illegal base64 data''))
      | Some data \<Rightarrow>
          if length data < nonceSize then Inl (ErrText ''sealed value too short'')
          else (case bx_open box (take nonceSize data) (vt_key v) (drop nonceSize data) of
                  None \<Rightarrow> Inl (ErrText ''decryption failed (wrong key or corrupt data)'')
                | Some out \<Rightarrow> Inr out))"

section \<open>What the vault promises\<close>

lemma vault_open_seal:
  assumes "box_correct box" and "length nonce = nonceSize" and "vault_Seal box v (Inr nonce) secret = Inr sealed"
  shows "sealed \<noteq> [] \<and> vault_Open box v sealed = Inr secret"
proof -
  let ?data = "nonce @ bx_seal box nonce (vt_key v) secret"
  have "std_encode ?data \<noteq> []"
  proof
    assume "std_encode ?data = []"
    then have "std_encode ?data = std_encode []" by (simp add: std_encode_def)
    then show False using assms(2) by (simp only: std64.enc_inject) (simp add: nonceSize_def)
  qed
  with assms show ?thesis by (auto simp: vault_Seal_def vault_Open_def std64.dec_enc box_correct_def)
qed

text \<open>
  (C31) Secrets survive storage: a generated key makes a vault, also through the environment,
  and what that vault seals it opens again to the same bytes, whatever the nonce; a value
  sealed under another key is opened only if secretbox itself opens it under this one.
\<close>

theorem vault_roundtrip:
  assumes "box_correct box" and "length key = keySize" and "length nonce = nonceSize"
  shows "GenerateKey (Inr key) = Inr (std_encode key) \<and> vault_New (std_encode key) = Inr \<lparr>vt_key = key\<rparr> \<and>
    (\<exists>sealed. vault_Seal box \<lparr>vt_key = key\<rparr> (Inr nonce) secret = Inr sealed \<and> sealed \<noteq> [] \<and>
       vault_Open box \<lparr>vt_key = key\<rparr> sealed = Inr secret \<and>
       (\<forall>key'. vault_Open box \<lparr>vt_key = key'\<rparr> sealed =
          (case bx_open box nonce key' (bx_seal box nonce key secret) of
             None \<Rightarrow> Inl (ErrText ''decryption failed (wrong key or corrupt data)'') | Some m \<Rightarrow> Inr m)))"
proof -
  obtain sealed where sealed: "vault_Seal box \<lparr>vt_key = key\<rparr> (Inr nonce) secret = Inr sealed" by (simp add: vault_Seal_def)
  with vault_open_seal [OF assms(1,3) sealed] assms show ?thesis
    by (auto simp: GenerateKey_def vault_New_def vault_Seal_def vault_Open_def std64.dec_enc split: option.splits)
qed

text \<open>A concrete box for the example: the key and the nonce in clear before the message.\<close>

definition demo_secretbox :: secretbox where
  "demo_secretbox = \<lparr>bx_seal = \<lambda>nonce key m. nonce @ key @ m,
     bx_open = \<lambda>nonce key c. if take (length (nonce @ key)) c = nonce @ key then Some (drop (length (nonce @ key)) c) else None\<rparr>"

theorem vault_roundtrip_witness:
  "\<exists>sealed. vault_Seal demo_secretbox \<lparr>vt_key = replicate 32 CHR ''k''\<rparr> (Inr (replicate 24 CHR ''n'')) ''secret'' = Inr sealed \<and>
     vault_Open demo_secretbox \<lparr>vt_key = replicate 32 CHR ''k''\<rparr> sealed = Inr ''secret''"
proof -
  have "box_correct demo_secretbox" by (simp add: box_correct_def demo_secretbox_def)
  from vault_roundtrip [OF this, of "replicate 32 CHR ''k''" "replicate 24 CHR ''n''" "''secret''"]
  show ?thesis by auto
qed

end
