(* ===== verification/Config.thy ===== *)
theory Config
  imports GoStrings Prelude
begin

text \<open>
  \<open>internal/config/config.go\<close>: the configuration, its defaults, the environment overrides and
  the checks. The file system, the environment and the YAML decoder are parameters.
\<close>

section \<open>The configuration\<close>

record log_config =
  lc_level :: string
  lc_format :: string

record database_config =
  db_host :: string
  db_port :: int
  db_user :: string
  db_password :: string
  db_name :: string
  db_sslmode :: string

record scan_config =
  sn_concurrency :: int
  sn_rate :: int
  sn_jitter :: int

record auth_config =
  ac_secret :: string
  ac_hours :: int

record config =
  cf_log :: log_config
  cf_database :: database_config
  cf_addr :: string
  cf_keyenv :: string
  cf_scan :: scan_config
  cf_auth :: auth_config

definition DSN :: "database_config \<Rightarrow> string" where
  "DSN d = ''host='' @ db_host d @ '' port='' @ itoa (db_port d) @ '' user='' @ db_user d @
     '' password='' @ db_password d @ '' dbname='' @ db_name d @ '' sslmode='' @ db_sslmode d"

definition Default :: config where
  "Default = \<lparr>cf_log = \<lparr>lc_level = ''info'', lc_format = ''text''\<rparr>,
     cf_database = \<lparr>db_host = ''localhost'', db_port = 5432, db_user = ''motzworks'', db_password = [],
                    db_name = ''motzworks'', db_sslmode = ''disable''\<rparr>,
     cf_addr = '':8080'', cf_keyenv = ''MOTZWORKS_VAULT_KEY'',
     cf_scan = \<lparr>sn_concurrency = 64, sn_rate = 0, sn_jitter = 0\<rparr>,
     cf_auth = \<lparr>ac_secret = [], ac_hours = 12\<rparr>\<rparr>"

section \<open>Loading\<close>

type_synonym environment = "string \<Rightarrow> string"

text \<open>One \<open>if v := os.Getenv(name); v != "" \<dots>\<close> of \<open>applyEnv\<close>.\<close>

definition overlay :: "environment \<Rightarrow> string \<Rightarrow> (string \<Rightarrow> config \<Rightarrow> config) \<Rightarrow> config \<Rightarrow> config" where
  "overlay env name put c = (let v = env name in if v \<noteq> [] then put v c else c)"

definition put_db :: "(database_config \<Rightarrow> database_config) \<Rightarrow> config \<Rightarrow> config" where
  "put_db f c = c\<lparr>cf_database := f (cf_database c)\<rparr>"

definition applyEnv :: "environment \<Rightarrow> config \<Rightarrow> config" where
  "applyEnv env c =
     (let c = overlay env ''MOTZWORKS_DB_HOST'' (\<lambda>v. put_db (\<lambda>d. d\<lparr>db_host := v\<rparr>)) c;
          c = overlay env ''MOTZWORKS_DB_PORT''
                (\<lambda>v. case atoi v of Some p \<Rightarrow> put_db (\<lambda>d. d\<lparr>db_port := p\<rparr>) | None \<Rightarrow> id) c;
          c = overlay env ''MOTZWORKS_DB_USER'' (\<lambda>v. put_db (\<lambda>d. d\<lparr>db_user := v\<rparr>)) c;
          c = overlay env ''MOTZWORKS_DB_PASSWORD'' (\<lambda>v. put_db (\<lambda>d. d\<lparr>db_password := v\<rparr>)) c;
          c = overlay env ''MOTZWORKS_DB_NAME'' (\<lambda>v. put_db (\<lambda>d. d\<lparr>db_name := v\<rparr>)) c;
          c = overlay env ''MOTZWORKS_DB_SSLMODE'' (\<lambda>v. put_db (\<lambda>d. d\<lparr>db_sslmode := v\<rparr>)) c;
          c = overlay env ''MOTZWORKS_LOG_LEVEL'' (\<lambda>v c. c\<lparr>cf_log := (cf_log c)\<lparr>lc_level := v\<rparr>\<rparr>) c
      in overlay env ''MOTZWORKS_AUTH_SECRET'' (\<lambda>v c. c\<lparr>cf_auth := (cf_auth c)\<lparr>ac_secret := v\<rparr>\<rparr>) c)"

definition Validate :: "config \<Rightarrow> go_error option" where
  "Validate c =
     (if db_host (cf_database c) = [] then Some (ErrText ''database.host is required'')
      else if db_port (cf_database c) = 0 then Some (ErrText ''database.port is required'')
      else if sn_concurrency (cf_scan c) < 1 then Some (ErrText ''scan.concurrency must be >= 1'')
      else None)"

text \<open>\<open>os.ReadFile\<close>: the content, an error that \<open>os.IsNotExist\<close> recognises, or another one.\<close>

datatype read_result = FileContent string | FileMissing go_error | FileError go_error

text \<open>\<open>yaml.Unmarshal\<close> into a configuration that already holds the defaults.\<close>

type_synonym yaml = "string \<Rightarrow> config \<Rightarrow> go_error + config"

definition Load :: "(string \<Rightarrow> read_result) \<Rightarrow> yaml \<Rightarrow> environment \<Rightarrow> string \<Rightarrow> go_error + config" where
  "Load readfile yaml env path =
     (let base = (if path = [] then Inr Default
                  else (case readfile path of
                          FileContent b \<Rightarrow>
                            (case yaml b Default of
                               Inl e \<Rightarrow> Inl (ErrWrap (''parse config '' @ path @ '': '') e)
                             | Inr c \<Rightarrow> Inr c)
                        | FileMissing e \<Rightarrow> Inr Default
                        | FileError e \<Rightarrow> Inl (ErrWrap (''read config '' @ path @ '': '') e)))
      in case base of
           Inl e \<Rightarrow> Inl e
         | Inr c \<Rightarrow>
             (let cfg = applyEnv env c
              in case Validate cfg of Some e \<Rightarrow> Inl e | None \<Rightarrow> Inr cfg))"

section \<open>What loading guarantees\<close>

text \<open>What is set after loading: the environment's value where there is one.\<close>

definition env_or :: "environment \<Rightarrow> string \<Rightarrow> string \<Rightarrow> string" where
  "env_or env name v = (if env name \<noteq> [] then env name else v)"

definition env_port :: "environment \<Rightarrow> int \<Rightarrow> int" where
  "env_port env p = (case atoi (env ''MOTZWORKS_DB_PORT'') of Some q \<Rightarrow> q | None \<Rightarrow> p)"

lemma atoi_Nil: "atoi [] = None"
  by (simp add: atoi_def)

lemma overlay_steps:
  "overlay env n (\<lambda>v. put_db (\<lambda>d. d\<lparr>db_host := v\<rparr>)) c =
     c\<lparr>cf_database := (cf_database c)\<lparr>db_host := env_or env n (db_host (cf_database c))\<rparr>\<rparr>"
  "overlay env ''MOTZWORKS_DB_PORT'' (\<lambda>v. case atoi v of Some p \<Rightarrow> put_db (\<lambda>d. d\<lparr>db_port := p\<rparr>) | None \<Rightarrow> id) c =
     c\<lparr>cf_database := (cf_database c)\<lparr>db_port := env_port env (db_port (cf_database c))\<rparr>\<rparr>"
  "overlay env n (\<lambda>v. put_db (\<lambda>d. d\<lparr>db_user := v\<rparr>)) c =
     c\<lparr>cf_database := (cf_database c)\<lparr>db_user := env_or env n (db_user (cf_database c))\<rparr>\<rparr>"
  "overlay env n (\<lambda>v. put_db (\<lambda>d. d\<lparr>db_password := v\<rparr>)) c =
     c\<lparr>cf_database := (cf_database c)\<lparr>db_password := env_or env n (db_password (cf_database c))\<rparr>\<rparr>"
  "overlay env n (\<lambda>v. put_db (\<lambda>d. d\<lparr>db_name := v\<rparr>)) c =
     c\<lparr>cf_database := (cf_database c)\<lparr>db_name := env_or env n (db_name (cf_database c))\<rparr>\<rparr>"
  "overlay env n (\<lambda>v. put_db (\<lambda>d. d\<lparr>db_sslmode := v\<rparr>)) c =
     c\<lparr>cf_database := (cf_database c)\<lparr>db_sslmode := env_or env n (db_sslmode (cf_database c))\<rparr>\<rparr>"
  "overlay env n (\<lambda>v c. c\<lparr>cf_log := (cf_log c)\<lparr>lc_level := v\<rparr>\<rparr>) c =
     c\<lparr>cf_log := (cf_log c)\<lparr>lc_level := env_or env n (lc_level (cf_log c))\<rparr>\<rparr>"
  "overlay env n (\<lambda>v c. c\<lparr>cf_auth := (cf_auth c)\<lparr>ac_secret := v\<rparr>\<rparr>) c =
     c\<lparr>cf_auth := (cf_auth c)\<lparr>ac_secret := env_or env n (ac_secret (cf_auth c))\<rparr>\<rparr>"
  by (simp_all add: overlay_def put_db_def env_or_def env_port_def atoi_Nil Let_def split: option.split)

lemma applyEnv_fields:
  "applyEnv env c = c\<lparr>
     cf_log := (cf_log c)\<lparr>lc_level := env_or env ''MOTZWORKS_LOG_LEVEL'' (lc_level (cf_log c))\<rparr>,
     cf_database := \<lparr>db_host = env_or env ''MOTZWORKS_DB_HOST'' (db_host (cf_database c)),
       db_port = env_port env (db_port (cf_database c)),
       db_user = env_or env ''MOTZWORKS_DB_USER'' (db_user (cf_database c)),
       db_password = env_or env ''MOTZWORKS_DB_PASSWORD'' (db_password (cf_database c)),
       db_name = env_or env ''MOTZWORKS_DB_NAME'' (db_name (cf_database c)),
       db_sslmode = env_or env ''MOTZWORKS_DB_SSLMODE'' (db_sslmode (cf_database c))\<rparr>,
     cf_auth := (cf_auth c)\<lparr>ac_secret := env_or env ''MOTZWORKS_AUTH_SECRET'' (ac_secret (cf_auth c))\<rparr>\<rparr>"
  unfolding applyEnv_def Let_def overlay_steps by simp

text \<open>
  (C36) A loaded configuration is usable and the environment wins: it has a database host, a
  database port and a positive concurrency; it is the defaults, or what the file makes of
  them, with every overridable field replaced by its variable where that is set (the port
  only if it is a number) and every other field untouched; and the file is left out exactly
  when no path is given or it does not exist.
\<close>

theorem Load_correct:
  assumes "Load readfile yaml env path = Inr cfg"
  shows "db_host (cf_database cfg) \<noteq> [] \<and> db_port (cf_database cfg) \<noteq> 0 \<and> 1 \<le> sn_concurrency (cf_scan cfg) \<and>
    (\<exists>base. ((path = [] \<or> (\<exists>e. readfile path = FileMissing e)) \<and> base = Default \<or>
             (\<exists>b. path \<noteq> [] \<and> readfile path = FileContent b \<and> yaml b Default = Inr base)) \<and>
       cfg = base\<lparr>
         cf_log := (cf_log base)\<lparr>lc_level := env_or env ''MOTZWORKS_LOG_LEVEL'' (lc_level (cf_log base))\<rparr>,
         cf_database := \<lparr>db_host = env_or env ''MOTZWORKS_DB_HOST'' (db_host (cf_database base)),
           db_port = env_port env (db_port (cf_database base)),
           db_user = env_or env ''MOTZWORKS_DB_USER'' (db_user (cf_database base)),
           db_password = env_or env ''MOTZWORKS_DB_PASSWORD'' (db_password (cf_database base)),
           db_name = env_or env ''MOTZWORKS_DB_NAME'' (db_name (cf_database base)),
           db_sslmode = env_or env ''MOTZWORKS_DB_SSLMODE'' (db_sslmode (cf_database base))\<rparr>,
         cf_auth := (cf_auth base)\<lparr>ac_secret := env_or env ''MOTZWORKS_AUTH_SECRET'' (ac_secret (cf_auth base))\<rparr>\<rparr>)"
proof -
  from assms obtain base where
    src: "(path = [] \<or> (\<exists>e. readfile path = FileMissing e)) \<and> base = Default \<or>
      (\<exists>b. path \<noteq> [] \<and> readfile path = FileContent b \<and> yaml b Default = Inr base)"
    and v: "Validate (applyEnv env base) = None" and cfg: "cfg = applyEnv env base"
    by (auto simp: Load_def Let_def split: if_splits read_result.splits sum.splits option.splits)
  from v have "db_host (cf_database cfg) \<noteq> [] \<and> db_port (cf_database cfg) \<noteq> 0 \<and> 1 \<le> sn_concurrency (cf_scan cfg)"
    by (auto simp: Validate_def cfg split: if_splits)
  with src cfg [unfolded applyEnv_fields] show ?thesis by blast
qed

text \<open>Without a file the defaults are completed from the environment.\<close>

definition demo_variables :: environment where
  "demo_variables name = (if name = ''MOTZWORKS_DB_HOST'' then ''db'' else if name = ''MOTZWORKS_DB_PORT'' then ''x'' else [])"

lemma demo_load: "Load (\<lambda>_. FileMissing ErrNoRows) (\<lambda>_ c. Inr c) demo_variables ''config.yaml'' =
    Inr (put_db (\<lambda>d. d\<lparr>db_host := ''db''\<rparr>) Default)"
proof -
  have "atoi ''x'' = None" by (simp add: atoi_def is_digit_def)
  then show ?thesis
    by (simp add: Load_def applyEnv_fields demo_variables_def env_or_def env_port_def Validate_def Default_def put_db_def
          atoi_Nil Let_def)
qed

theorem Load_correct_witness:
  "\<exists>cfg. Load (\<lambda>_. FileMissing ErrNoRows) (\<lambda>_ c. Inr c) demo_variables ''config.yaml'' = Inr cfg \<and>
     db_host (cf_database cfg) = ''db'' \<and> db_port (cf_database cfg) \<noteq> 0"
proof -
  let ?cfg = "put_db (\<lambda>d. d\<lparr>db_host := ''db''\<rparr>) Default"
  have "db_port (cf_database ?cfg) \<noteq> 0" using Load_correct [OF demo_load] by blast
  moreover have "db_host (cf_database ?cfg) = ''db''" by (simp add: put_db_def)
  ultimately show ?thesis using demo_load by blast
qed

section \<open>The connection string\<close>

text \<open>
  libpq's reading of a connection string whose values are not quoted: settings separated by
  blanks, a key and a value around the first equals sign.
\<close>

definition parse_dsn :: "string \<Rightarrow> (string \<times> string) list" where
  "parse_dsn s = map (\<lambda>w. let (k, v, _) = cut (CHR ''='') w in (k, v)) (split_on (CHR '' '') s)"

definition unquoted :: "string \<Rightarrow> bool" where
  "unquoted v \<longleftrightarrow> (\<forall>c \<in> set v. \<not> ascii_space c \<and> c \<noteq> CHR 0x27 \<and> c \<noteq> CHR 0x5C)"

lemma unquoted_no_blank: "unquoted v \<Longrightarrow> CHR '' '' \<notin> set v"
  by (auto simp: unquoted_def ascii_space_def)

lemma itoa_no_blank: "CHR '' '' \<notin> set (itoa i)"
  using nat_str_chars [of "CHR '' ''"] by (auto simp: itoa_def is_digit_def)

text \<open>
  The connection string carries the settings: if no value has white space, quotes or
  backslashes in it, the library reads back exactly the six settings of the configuration.
\<close>

theorem DSN_roundtrip:
  assumes "unquoted (db_host d)" and "unquoted (db_user d)" and "unquoted (db_password d)"
    and "unquoted (db_name d)" and "unquoted (db_sslmode d)"
  shows "parse_dsn (DSN d) =
    [(''host'', db_host d), (''port'', itoa (db_port d)), (''user'', db_user d), (''password'', db_password d),
     (''dbname'', db_name d), (''sslmode'', db_sslmode d)]"
proof -
  have key: "cut (CHR ''='') (k @ CHR ''='' # v) = (k, v, True)" if "CHR ''='' \<notin> set k" for k v
    by (rule cut_append [OF that])
  let ?words = "[''host'' @ CHR ''='' # db_host d, ''port'' @ CHR ''='' # itoa (db_port d), ''user'' @ CHR ''='' # db_user d,
       ''password'' @ CHR ''='' # db_password d, ''dbname'' @ CHR ''='' # db_name d, ''sslmode'' @ CHR ''='' # db_sslmode d]"
  have "DSN d = join '' '' ?words" by (simp add: DSN_def)
  moreover have "split_on (CHR '' '') (join '' '' ?words) = ?words"
    by (rule split_on_join) (use assms itoa_no_blank in \<open>auto simp: unquoted_no_blank\<close>)
  ultimately have words: "split_on (CHR '' '') (DSN d) = ?words" by (simp only:)
  show ?thesis unfolding parse_dsn_def words by (simp add: key del: append.simps)
qed

theorem DSN_roundtrip_witness:
  "parse_dsn (DSN (cf_database Default)) =
    [(''host'', ''localhost''), (''port'', itoa 5432), (''user'', ''motzworks''), (''password'', []),
     (''dbname'', ''motzworks''), (''sslmode'', ''disable'')]"
  by (subst DSN_roundtrip) (simp_all add: Default_def unquoted_def ascii_space_def)

text \<open>With a blank it does not: what follows it in a password is read as a setting of its own.\<close>

lemma itoa_5432: "itoa 5432 = ''5432''"
  by (simp add: itoa_def nat_str.simps digit_char_lits)

lemma DSN_blank_injects:
  "(''host'', ''evil'') \<in> set (parse_dsn (DSN ((cf_database Default)\<lparr>db_password := ''x host=evil''\<rparr>)))"
  by (simp add: DSN_def Default_def parse_dsn_def cut_def itoa_5432)

end
