(* ===== verification/Scheduler.thy ===== *)
theory Scheduler
  imports ScanRun Snmp Vault
begin

text \<open>
  \<open>internal/scan/credentials.go\<close> and \<open>internal/scheduler/scheduler.go\<close>: unsealing the stored
  credentials, and one pass over the due schedules. The ticker of \<open>Run\<close> only repeats the
  pass. What the network answers to the scans of a pass is the record \<open>pass_env\<close>.
\<close>

section \<open>Credentials\<close>

fun DecryptCredentials :: "secretbox \<Rightarrow> vault \<Rightarrow> stored_credential list \<Rightarrow> credential list" where
  "DecryptCredentials box v [] = []"
| "DecryptCredentials box v (sc # rest) =
     (let add = (\<lambda>secret. \<lparr>cr_id = st_id sc, cr_kind = st_kind sc, cr_username = st_username sc,
                           cr_secret = secret, cr_extra = st_extra sc\<rparr> # DecryptCredentials box v rest)
      in if st_sealed sc \<noteq> []
         then (case vault_Open box v (st_sealed sc) of
                 Inl e \<Rightarrow> DecryptCredentials box v rest
               | Inr b \<Rightarrow> add b)
         else add [])"

text \<open>The hook of the first SNMP credential; \<open>order\<close> is how its workers finish for a list of addresses.\<close>

fun SNMPProbe ::
  "credential list \<Rightarrow> snmp_net \<Rightarrow> (addr list \<Rightarrow> (nat \<times> bool) list) \<Rightarrow> (addr list \<Rightarrow> host list) option" where
  "SNMPProbe [] net order = None"
| "SNMPProbe (c # cs) net order =
     (if cr_kind c = ''snmp-v2c'' \<or> cr_kind c = ''snmp-v3''
      then Some (\<lambda>addrs. snmp_Probe snmp_New net (order addrs) addrs c)
      else SNMPProbe cs net order)"

section \<open>The scheduler\<close>

record scheduler =
  sd_tick :: int
  sd_concurrency :: int
  sd_rate :: int
  sd_jitter :: int

definition scheduler_New :: "int \<Rightarrow> int \<Rightarrow> int \<Rightarrow> int \<Rightarrow> scheduler" where
  "scheduler_New every concurrency ratePerSec jitter =
     \<lparr>sd_tick = (if every \<le> 0 then 30 * second else every),
      sd_concurrency = (if concurrency \<le> 0 then 32 else concurrency),
      sd_rate = ratePerSec, sd_jitter = jitter\<rparr>"

text \<open>The network during the scan of the \<open>k\<close>-th due schedule.\<close>

record pass_env =
  pe_scan :: "nat \<Rightarrow> scan_env"
  pe_snmp :: "nat \<Rightarrow> snmp_net"
  pe_order :: "nat \<Rightarrow> addr list \<Rightarrow> (nat \<times> bool) list"

definition scheduled_options :: "scheduler \<Rightarrow> credential list \<Rightarrow> due_schedule \<Rightarrow> scan_options" where
  "scheduled_options s creds d =
     \<lparr>sp_specs = du_cidrs d, sp_creds = creds,
      sp_discovery = \<lparr>do_ports = [], do_timeout = 0, do_concurrency = 0, do_rate = sd_rate s, do_jitter = sd_jitter s\<rparr>,
      sp_workers = sd_concurrency s\<rparr>"

definition scheduled_env :: "pass_env \<Rightarrow> credential list \<Rightarrow> nat \<Rightarrow> scan_env" where
  "scheduled_env env creds k = (pe_scan env k)\<lparr>se_probe := SNMPProbe creds (pe_snmp env k) (pe_order env k)\<rparr>"

text \<open>
  The loop over the due schedules: the scans it ran, each with its schedule; \<open>None\<close> where a
  scan does not return.
\<close>

type_synonym scan_log = "(due_schedule \<times> summary \<times> go_error option) list"

fun run_schedules ::
  "scheduler \<Rightarrow> registry \<Rightarrow> pass_env \<Rightarrow> credential list \<Rightarrow> world \<Rightarrow> due_schedule list \<Rightarrow> nat \<Rightarrow> db \<Rightarrow>
   (scan_log \<times> db) option" where
  "run_schedules s reg env creds w [] k db = Some ([], db)"
| "run_schedules s reg env creds w (d # ds) k db =
     (case AdvanceSchedule (du_sched d) (du_interval d) w db of
        (Inl e, db1) \<Rightarrow> run_schedules s reg env creds w ds (Suc k) db1
      | (Inr _, db1) \<Rightarrow>
          if du_cidrs d = [] then run_schedules s reg env creds w ds (Suc k) db1
          else (case Run pg_ops reg (scheduled_env env creds k) (scheduled_options s creds d) w db1 of
                  None \<Rightarrow> None
                | Some ((smy, err), db2) \<Rightarrow>
                    (case run_schedules s reg env creds w ds (Suc k) db2 of
                       None \<Rightarrow> None
                     | Some (rest, db3) \<Rightarrow> Some ((d, smy, err) # rest, db3))))"

definition runDue ::
  "scheduler \<Rightarrow> registry \<Rightarrow> secretbox \<Rightarrow> vault \<Rightarrow> pass_env \<Rightarrow> world \<Rightarrow> db \<Rightarrow> (scan_log \<times> db) option" where
  "runDue s reg box v env w db =
     (case DueSchedules w db of
        (Inl e, db1) \<Rightarrow> Some ([], db1)
      | (Inr due, db1) \<Rightarrow>
          if due = [] then Some ([], db1)
          else (case ListCredentials w db1 of
                  (Inl e, db2) \<Rightarrow> Some ([], db2)
                | (Inr sealed, db2) \<Rightarrow> run_schedules s reg env (DecryptCredentials box v sealed) w due 0 db2))"

text \<open>
  \<open>Run\<close>: one pass at once and one per tick, until the context ends. There is one environment per
  pass, so their number is one more than the number of ticks.
\<close>

fun scheduler_Run ::
  "scheduler \<Rightarrow> registry \<Rightarrow> secretbox \<Rightarrow> vault \<Rightarrow> pass_env list \<Rightarrow> world \<Rightarrow> db \<Rightarrow> (scan_log list \<times> db) option" where
  "scheduler_Run s reg box v [] w db = Some ([], db)"
| "scheduler_Run s reg box v (env # ticks) w db =
     (case runDue s reg box v env w db of
        None \<Rightarrow> None
      | Some (log, db1) \<Rightarrow>
          (case scheduler_Run s reg box v ticks w db1 of
             None \<Rightarrow> None | Some (logs, db2) \<Rightarrow> Some (log # logs, db2)))"

section \<open>Credentials and probes\<close>

lemma DecryptCredentials_spec:
  "DecryptCredentials box v sealed =
     map (\<lambda>(sc, secret). \<lparr>cr_id = st_id sc, cr_kind = st_kind sc, cr_username = st_username sc,
                         cr_secret = secret, cr_extra = st_extra sc\<rparr>)
       (concat (map (\<lambda>sc. case (if st_sealed sc = [] then Inr [] else vault_Open box v (st_sealed sc)) of
                            Inl e \<Rightarrow> [] | Inr secret \<Rightarrow> [(sc, secret)]) sealed))"
  by (induction sealed) (auto simp: Let_def split: sum.splits)

lemma SNMPProbe_find:
  "SNMPProbe creds net order =
     map_option (\<lambda>c addrs. snmp_Probe snmp_New net (order addrs) addrs c) (snmp_pickCredential creds)"
  by (induction creds) (auto simp: snmp_pickCredential_def pick_kind_def)

section \<open>What a scan leaves alone\<close>

text \<open>The tables only administrators and the scheduler write.\<close>

definition admin_tables :: "db \<Rightarrow> sched_row list \<times> target_row list \<times> cred_row list \<times> appuser_row list" where
  "admin_tables db = (db_scheds db, db_targets db, db_creds db, db_appusers db)"

interpretation admin_frame: db_invariant "\<lambda>db. admin_tables db = L" for L
  by unfold_locales (simp add: admin_tables_def)

lemma upsert_admin_frame: "preserves (\<lambda>db. admin_tables db = L) (UpsertDevice d run c)"
proof -
  have stmts:
    "preserves (\<lambda>db. admin_tables db = L) (insert_device d now)"
    "preserves (\<lambda>db. admin_tables db = L) (update_device did d now)"
    "preserves (\<lambda>db. admin_tables db = L) (clear_ifaces did)"
    "preserves (\<lambda>db. admin_tables db = L) (clear_sw did)"
    "preserves (\<lambda>db. admin_tables db = L) (clear_users did)"
    "preserves (\<lambda>db. admin_tables db = L) (insert_iface did ifc)"
    "preserves (\<lambda>db. admin_tables db = L) (upsert_os did os)"
    "preserves (\<lambda>db. admin_tables db = L) (upsert_hw did hw)"
    "preserves (\<lambda>db. admin_tables db = L) (insert_sw did sw)"
    "preserves (\<lambda>db. admin_tables db = L) (insert_user did u)"
    "preserves (\<lambda>db. admin_tables db = L) (insert_change did run ts ch)"
    for d now did ifc os hw sw u run ts ch
    unfolding insert_device_def update_device_def clear_ifaces_def clear_sw_def clear_users_def
      insert_iface_def upsert_os_def upsert_hw_def insert_sw_def insert_user_def insert_change_def
    by (rule admin_frame.stmt_preserves; auto simp: admin_tables_def Let_def split: sum.splits if_splits)+
  have lookups: "preserves (\<lambda>db. admin_tables db = L) (run_attempts (attempts d))" for d
    by (rule run_attempts_inv)
       (auto simp: attempts_def Let_def id_by_serial_def id_by_guid_def id_by_macs_def
                   id_by_hostname_def id_by_ip_def intro!: admin_frame.query_preserves)
  show ?thesis
    unfolding UpsertDevice_def write_device_def resolveDevice_def replaceChildren_def
      load_existing_def load_os_def
    by (intro admin_frame.tx_preserves inv_intros stmts lookups admin_frame.query_preserves)
qed

lemma run_methods_admin_frame:
  "preserves (\<lambda>db. admin_tables db = L) (CreateRelationship p ch k)"
  "preserves (\<lambda>db. admin_tables db = L) (CreateScanRun tgt specs)"
  "preserves (\<lambda>db. admin_tables db = L) (SetScanDiscovered run n)"
  "preserves (\<lambda>db. admin_tables db = L) (InsertScanEvent run a cls coll st n err)"
  "preserves (\<lambda>db. admin_tables db = L) (FinishScanRun run st n err)"
  unfolding CreateRelationship_def CreateScanRun_def SetScanDiscovered_def InsertScanEvent_def
    FinishScanRun_def Let_def
  by (intro preserves_if preserves_return admin_frame.stmt_preserves;
      auto simp: admin_tables_def Let_def split: if_splits sum.splits)+

lemma preserves_conj: "preserves P m \<Longrightarrow> preserves Q m \<Longrightarrow> preserves (\<lambda>db. P db \<and> Q db) m"
  by (auto simp: preserves_def)

lemma UpsertDevice_id:
  "db_inv db \<Longrightarrow> UpsertDevice d run c w db = (Inr (did, chs), db') \<Longrightarrow> did \<noteq> []"
  by (rule pg.upsert_id) (simp_all add: pg_ops_def)

interpretation sched: scan_store pg_ops "\<lambda>db. db_inv db \<and> admin_tables db = L" for L
  using pg.upsert_inv pg.relate_inv pg.create_inv pg.discovered_inv pg.event_inv pg.finish_inv
  by unfold_locales
     (auto simp only: pg_ops_def scan_ops.simps intro!: preserves_conj upsert_admin_frame run_methods_admin_frame
        dest: UpsertDevice_id)

lemma Run_keeps_admin:
  assumes "db_inv db" and "scan_orders env opts" and "Run pg_ops reg env opts w db = Some ((smy, err), db')"
  shows "db_inv db' \<and> admin_tables db' = admin_tables db"
  using sched.Run_inv [of db "admin_tables db", OF _ assms(2,3)] assms(1) by simp

section \<open>What a pass guarantees\<close>

text \<open>The pools of the scans of a pass end in valid orders.\<close>

fun pass_orders :: "scheduler \<Rightarrow> pass_env \<Rightarrow> credential list \<Rightarrow> nat \<Rightarrow> due_schedule list \<Rightarrow> bool" where
  "pass_orders s env creds k [] \<longleftrightarrow> True"
| "pass_orders s env creds k (d # ds) \<longleftrightarrow>
     scan_orders (scheduled_env env creds k) (scheduled_options s creds d) \<and> pass_orders s env creds (Suc k) ds"

lemma run_schedules_inv:
  "pass_orders s env creds k ds \<Longrightarrow> db_inv db \<Longrightarrow> run_schedules s reg env creds w ds k db = Some (log, db') \<Longrightarrow> db_inv db'"
proof (induction ds arbitrary: k db log)
  case (Cons d ds)
  then have ord: "scan_orders (scheduled_env env creds k) (scheduled_options s creds d)"
    and ords: "pass_orders s env creds (Suc k) ds" by simp_all
  obtain r db1 where a: "AdvanceSchedule (du_sched d) (du_interval d) w db = (r, db1)" by fastforce
  have "preserves db_inv (AdvanceSchedule (du_sched d) (du_interval d))" by (intro inv_intros)
  from preservesD [OF this Cons.prems(2), of w] have inv1: "db_inv db1" by (simp add: a)
  show ?case
  proof (cases "(\<exists>e. r = Inl e) \<or> du_cidrs d = []")
    case True
    with Cons.prems(3) a Cons.IH [OF ords inv1] show ?thesis by (auto split: sum.splits)
  next
    case False
    with Cons.prems(3) a obtain smy err db2 log' where
      run: "Run pg_ops reg (scheduled_env env creds k) (scheduled_options s creds d) w db1 = Some ((smy, err), db2)"
      and rest: "run_schedules s reg env creds w ds (Suc k) db2 = Some (log', db')"
      by (auto split: sum.splits option.splits)
    have "db_inv db2" using Run_keeps_admin [OF inv1 ord run] by simp
    with Cons.IH [OF ords] rest show ?thesis by blast
  qed
qed simp

lemma Run_None: "Run pg_ops reg env opts w db = None \<longleftrightarrow> Expand (sp_specs opts) = None"
proof (cases "Expand (sp_specs opts)")
  case (Some x)
  then show ?thesis by (cases x) (simp_all add: Run_def)
qed (simp add: Run_def)

lemma Expand_Nil: "Expand [] \<noteq> None"
  by (simp add: Expand_def)

lemma run_schedules_returns:
  "\<forall>d \<in> set ds. Expand (du_cidrs d) \<noteq> None \<Longrightarrow> run_schedules s reg env creds w ds k db \<noteq> None"
proof (induction ds arbitrary: k db)
  case (Cons d ds)
  then have IH: "run_schedules s reg env creds w ds k db \<noteq> None" for k db by simp
  obtain r db1 where a: "AdvanceSchedule (du_sched d) (du_interval d) w db = (r, db1)" by fastforce
  have "Run pg_ops reg (scheduled_env env creds k) (scheduled_options s creds d) w db1 \<noteq> None"
    using Cons.prems by (simp add: Run_None scheduled_options_def)
  then obtain smy err db2 where
    "Run pg_ops reg (scheduled_env env creds k) (scheduled_options s creds d) w db1 = Some ((smy, err), db2)"
    by (metis option.exhaust prod.collapse)
  moreover obtain p where "run_schedules s reg env creds w ds (Suc k) db2 = Some p" using IH by blast
  moreover obtain q where "run_schedules s reg env creds w ds (Suc k) db1 = Some q" using IH by blast
  ultimately show ?case using a by (cases r; cases p) auto
qed simp

lemma AdvanceSchedule_quiet:
  "quiet w \<Longrightarrow> AdvanceSchedule sid iv w db =
     (Inr (), (tick db)\<lparr>db_scheds := update_where (\<lambda>s. sc_id s = sid)
        (\<lambda>s. s\<lparr>sc_next := Some (w_now w (db_tick db) + iv * pg_second)\<rparr>) (db_scheds db)\<rparr>)"
  by (simp add: AdvanceSchedule_def stmt_quiet tick_def)

lemma run_schedules_hangs:
  assumes "quiet w"
  shows "d \<in> set ds \<Longrightarrow> Expand (du_cidrs d) = None \<Longrightarrow> run_schedules s reg env creds w ds k db = None"
proof (induction ds arbitrary: k db)
  case (Cons e ds)
  have none: "du_cidrs d \<noteq> []" using Cons.prems(2) Expand_Nil by auto
  show ?case
  proof (cases "d = e")
    case True
    then have "Run pg_ops reg (scheduled_env env creds k) (scheduled_options s creds e) w db1 = None" for db1
      using Cons.prems by (simp add: Run_None scheduled_options_def)
    with none True show ?thesis by (simp add: AdvanceSchedule_quiet [OF assms])
  next
    case False
    with Cons show ?thesis by (simp add: AdvanceSchedule_quiet [OF assms] split: option.splits)
  qed
qed simp

lemma ListCredentials_quiet: "quiet w \<Longrightarrow> \<exists>creds. ListCredentials w db = (Inr creds, tick db)"
  by (simp add: ListCredentials_def query_quiet tick_def)

text \<open>
  (C32) One target can stop the scheduler for ever: while the database answers, a pass over the
  due schedules returns exactly if the specs of every due target can be expanded. A target
  with a range across IPv6 zones, which \<open>Expand\<close> never finishes, keeps every later schedule
  from being scanned.
\<close>

theorem pass_returns_iff:
  assumes "quiet w" and "DueSchedules w db = (Inr due, db1)"
  shows "(\<exists>r. runDue s reg box v env w db = Some r) \<longleftrightarrow> (\<forall>d \<in> set due. Expand (du_cidrs d) \<noteq> None)"
proof -
  obtain sealed where c: "ListCredentials w db1 = (Inr sealed, tick db1)"
    using ListCredentials_quiet [OF assms(1)] by blast
  show ?thesis
  proof (cases "due = []")
    case False
    then have "runDue s reg box v env w db =
        run_schedules s reg env (DecryptCredentials box v sealed) w due 0 (tick db1)"
      by (simp add: runDue_def assms(2) c)
    then show ?thesis
      using run_schedules_hangs [OF assms(1)] run_schedules_returns by (metis not_None_eq)
  qed (simp add: runDue_def assms(2))
qed

text \<open>One due schedule, for a target with the given specs.\<close>

definition demo_due :: "string list \<Rightarrow> due_schedule" where
  "demo_due specs = \<lparr>du_sched = ''s1'', du_target = ''t1'', du_interval = 3600, du_cidrs = specs\<rparr>"

definition demo_pass_db :: "string list \<Rightarrow> db" where
  "demo_pass_db specs = demo_sched_db\<lparr>
     db_targets := [\<lparr>tr_id = ''t1'', tr_name = ''lan'', tr_cidrs = specs, tr_enabled = True\<rparr>,
                    \<lparr>tr_id = ''t2'', tr_name = ''lab'', tr_cidrs = [], tr_enabled = False\<rparr>]\<rparr>"

definition demo_pass :: pass_env where
  "demo_pass = \<lparr>pe_scan = \<lambda>_. \<lparr>se_dial = \<lambda>_ _. False, se_done = \<lambda>_ _. False, se_probe = None,
                              se_disc_order = [], se_coll_order = []\<rparr>,
     pe_snmp = \<lambda>_. \<lparr>nt_connect = \<lambda>_. None, nt_get = \<lambda>_ _. Inr [], nt_walk = \<lambda>_ _. [], nt_order = \<lambda>_. []\<rparr>,
     pe_order = \<lambda>_ _. []\<rparr>"

lemma demo_pass_due:
  "DueSchedules demo_world (demo_pass_db specs) = (Inr [demo_due specs], tick (demo_pass_db specs))"
  by (simp add: DueSchedules_def query_quiet demo_pass_db_def demo_sched_db_def is_due_def demo_due_def)

lemma demo_pass_inv: "db_inv (demo_pass_db specs)"
  by (simp add: demo_pass_db_def demo_sched_db_def db_inv_def part_defs empty_db_def unique_key_def)

lemma crossing_diverges: "Expand [''fe80::1%a-fe80::2''] = None"
  by (simp add: Expand_def expand_from_denote spec_block_None [symmetric] spec_eval crosses_zones_def)

theorem pass_returns_iff_witness:
  "\<not> (\<exists>r. runDue (scheduler_New 0 0 0 0) new_registry demo_secretbox \<lparr>vt_key = []\<rparr> demo_pass demo_world
     (demo_pass_db [''fe80::1%a-fe80::2'']) = Some r)"
  using pass_returns_iff [OF demo_world_quiet demo_pass_due] by (simp add: demo_due_def crossing_diverges)

section \<open>Advancing\<close>

definition advanced :: "world \<Rightarrow> due_schedule list \<Rightarrow> sched_row \<Rightarrow> sched_row \<Rightarrow> bool" where
  "advanced w ds r r' \<longleftrightarrow>
     (if sc_id r \<in> du_sched ` set ds
      then \<exists>t. \<exists>d \<in> set ds. du_sched d = sc_id r \<and> r' = r\<lparr>sc_next := Some (w_now w t + du_interval d * pg_second)\<rparr>
      else r' = r)"

lemma run_schedules_quiet:
  assumes "quiet w"
  shows "pass_orders s env creds k ds \<Longrightarrow> db_inv db \<Longrightarrow> run_schedules s reg env creds w ds k db = Some (log, db') \<Longrightarrow>
    map fst log = filter (\<lambda>d. du_cidrs d \<noteq> []) ds \<and>
    list_all2 (advanced w ds) (db_scheds db) (db_scheds db')"
proof (induction ds arbitrary: k db log)
  case Nil
  then show ?case by (simp add: advanced_def list_all2_refl)
next
  case (Cons d ds)
  then have ord: "scan_orders (scheduled_env env creds k) (scheduled_options s creds d)"
    and ords: "pass_orders s env creds (Suc k) ds" by simp_all
  define now where "now = w_now w (db_tick db) + du_interval d * pg_second"
  define db1 where "db1 = (tick db)\<lparr>db_scheds := update_where (\<lambda>r. sc_id r = du_sched d)
      (\<lambda>r. r\<lparr>sc_next := Some now\<rparr>) (db_scheds db)\<rparr>"
  have a: "AdvanceSchedule (du_sched d) (du_interval d) w db = (Inr (), db1)"
    by (simp add: AdvanceSchedule_quiet [OF assms] db1_def now_def)
  have "preserves db_inv (AdvanceSchedule (du_sched d) (du_interval d))" by (intro inv_intros)
  from preservesD [OF this Cons.prems(2), of w] have inv1: "db_inv db1" by (simp add: a)
  have one: "list_all2 (advanced w [d]) (db_scheds db) (db_scheds db1)"
    by (auto simp: db1_def now_def update_where_def advanced_def list_all2_map2 intro!: list_all2_refl)
  have two: "advanced w (d # ds) r r''" if "advanced w [d] r r'" "advanced w ds r' r''" for r r' r''
    using that by (auto simp: advanced_def split: if_splits)
  have both: "list_all2 (advanced w (d # ds)) (db_scheds db) zs" if "list_all2 (advanced w ds) (db_scheds db1) zs" for zs
    by (rule list_all2_trans [OF _ one that]) (rule two)
  show ?case
  proof (cases "du_cidrs d = []")
    case True
    with Cons.prems(3) a have "run_schedules s reg env creds w ds (Suc k) db1 = Some (log, db')" by simp
    from Cons.IH [OF ords inv1 this] True both show ?thesis by simp
  next
    case False
    with Cons.prems(3) a obtain smy err db2 log' where
      run: "Run pg_ops reg (scheduled_env env creds k) (scheduled_options s creds d) w db1 = Some ((smy, err), db2)"
      and rest: "run_schedules s reg env creds w ds (Suc k) db2 = Some (log', db')"
      and log: "log = (d, smy, err) # log'"
      by (auto split: option.splits)
    have "db_inv db2" and same: "db_scheds db2 = db_scheds db1"
      using Run_keeps_admin [OF inv1 ord run] by (simp_all add: admin_tables_def)
    from Cons.IH [OF ords this(1) rest] False log both show ?thesis by (simp add: same)
  qed
qed


text \<open>A due schedule whose specs are not addresses: its scan fails, and it is re-armed.\<close>

lemma demo_bad_spec: "\<exists>e. Expand [''x''] = Some (Inl e)"
  by (simp add: Expand_def expand_spec_def addr_eval)


end
