(* ===== verification/Queries.thy ===== *)
theory Queries
  imports AdminStore
begin

text \<open>
  The read side of \<open>internal/store\<close>: \<open>queries.go\<close>. Each \<open>SELECT\<close> is a computation over the
  table lists in the order the service meets the rows (\<open>scan_rows\<close>); \<open>ORDER BY\<close> is a stable
  sort of these, so rows that tie come in any order. The filters whose text the code builds
  at run time keep that text and its positional arguments apart, as the code does.
\<close>

section \<open>The rows the interface sees\<close>

record device_item =
  dl_id :: string
  dl_type :: string
  dl_hostname :: string
  dl_ip :: string
  dl_os :: string
  dl_source :: string
  dl_last :: int

record os_dto =
  od_family :: string
  od_name :: string
  od_version :: string
  od_build :: string
  od_arch :: string

record hardware_dto =
  hd_vendor :: string
  hd_model :: string
  hd_serial :: string
  hd_cpu :: string
  hd_cores :: int
  hd_ram :: int

record iface_dto =
  fd_name :: string
  fd_mac :: string
  fd_ip :: string
  fd_speed :: int

record software_dto =
  sd_name :: string
  sd_version :: string
  sd_vendor :: string

record user_dto =
  ud_username :: string
  ud_fullname :: string
  ud_last :: "int option"
  ud_local :: bool

text \<open>The embedded \<open>DeviceListItem\<close> is the field \<open>dd_item\<close>; the pointers are options.\<close>

record device_detail =
  dd_item :: device_item
  dd_serial :: string
  dd_first :: int
  dd_os :: "os_dto option"
  dd_hardware :: "hardware_dto option"
  dd_ifaces :: "iface_dto list"
  dd_software :: "software_dto list"
  dd_users :: "user_dto list"

record device_filter =
  df_query :: string
  df_type :: string
  df_limit :: int
  df_offset :: int

record software_agg =
  sa_name :: string
  sa_version :: string
  sa_count :: int

record change_item =
  ci_device :: string
  ci_hostname :: string
  ci_field :: string
  ci_old :: string
  ci_new :: string
  ci_ts :: int

record scan_item =
  si_id :: string
  si_started :: int
  si_finished :: "int option"
  si_status :: string
  si_targets :: "string list"
  si_discovered :: int
  si_found :: int
  si_error :: string

record event_item =
  ei_ts :: int
  ei_addr :: string
  ei_class :: string
  ei_collector :: string
  ei_status :: string
  ei_changes :: int
  ei_error :: string

record stats =
  ss_total :: int
  ss_seen :: int
  ss_types :: "string \<rightharpoonup> int"
  ss_lastscan :: "int option"
  ss_titles :: int

section \<open>Text with positional arguments\<close>

datatype sql_arg = TextArg string | IntArg int

definition next_arg :: "sql_arg \<Rightarrow> sql_arg list \<Rightarrow> string \<times> sql_arg list" where
  "next_arg v args = (''$'' @ nat_str (Suc (length args)), args @ [v])"

text \<open>
  What the service makes of the clauses below: \<open>$n\<close> is the \<open>n\<close>-th argument. \<open>NULL ILIKE p\<close> is
  \<open>NULL\<close>, which does not select the row.
\<close>

fun bound_arg :: "string \<Rightarrow> nat \<Rightarrow> sql_arg list \<Rightarrow> sql_arg option" where
  "bound_arg ph k [] = None"
| "bound_arg ph k (a # args) = (if ph = ''$'' @ nat_str k then Some a else bound_arg ph (Suc k) args)"

definition arg_text :: "string \<Rightarrow> sql_arg list \<Rightarrow> string option" where
  "arg_text ph args = (case bound_arg ph 1 args of Some (TextArg s) \<Rightarrow> Some s | _ \<Rightarrow> None)"

definition arg_int :: "string \<Rightarrow> sql_arg list \<Rightarrow> int option" where
  "arg_int ph args = (case bound_arg ph 1 args of Some (IntArg i) \<Rightarrow> Some i | _ \<Rightarrow> None)"

definition ilike_opt :: "world \<Rightarrow> string option \<Rightarrow> string \<Rightarrow> bool" where
  "ilike_opt w v p = (case v of None \<Rightarrow> False | Some s \<Rightarrow> w_ilike w s p)"

datatype clause = Always | Search string | OfType string

fun clause_text :: "clause \<Rightarrow> string" where
  "clause_text Always = ''1=1''"
| "clause_text (Search p) = ''(d.hostname ILIKE '' @ p @ '' OR host(d.primary_ip) ILIKE '' @ p @
     '' OR d.serial ILIKE '' @ p @ '')''"
| "clause_text (OfType p) = ''d.device_type = '' @ p"

definition build_clauses :: "device_filter \<Rightarrow> sql_arg list \<Rightarrow> clause list \<times> sql_arg list" where
  "build_clauses f b =
     (let q = trim_space (df_query f);
          (cs1, b1) = (if q \<noteq> [] then case next_arg (TextArg (''%'' @ q @ ''%'')) b of (p, b') \<Rightarrow> ([Search p], b')
                       else ([], b));
          (cs2, b2) = (if df_type f \<noteq> [] then case next_arg (TextArg (df_type f)) b1 of (p, b') \<Rightarrow> ([OfType p], b')
                       else ([], b1))
      in (Always # cs1 @ cs2, b2))"

definition buildDeviceWhere :: "device_filter \<Rightarrow> sql_arg list \<Rightarrow> string \<times> sql_arg list" where
  "buildDeviceWhere f b = (case build_clauses f b of (cs, b') \<Rightarrow> (join '' AND '' (map clause_text cs), b'))"

fun clause_holds :: "world \<Rightarrow> sql_arg list \<Rightarrow> device_row \<Rightarrow> clause \<Rightarrow> bool" where
  "clause_holds w args r Always = True"
| "clause_holds w args r (Search p) = (case arg_text p args of None \<Rightarrow> False
     | Some s \<Rightarrow> ilike_opt w (dr_hostname r) s \<or> ilike_opt w (dr_ip r) s \<or> ilike_opt w (dr_serial r) s)"
| "clause_holds w args r (OfType p) = (arg_text p args = Some (dr_type r))"

definition where_holds :: "world \<Rightarrow> clause list \<Rightarrow> sql_arg list \<Rightarrow> device_row \<Rightarrow> bool" where
  "where_holds w cs args r = list_all (clause_holds w args r) cs"

text \<open>\<open>LIMIT $l OFFSET $o\<close>: the service refuses a negative offset.\<close>

definition page :: "int \<Rightarrow> int \<Rightarrow> 'a list \<Rightarrow> 'a list" where
  "page limit offset xs = take (nat limit) (drop (nat offset) xs)"

definition limited :: "string \<Rightarrow> string \<Rightarrow> sql_arg list \<Rightarrow> 'a list \<Rightarrow> go_error + 'a list" where
  "limited lim off args xs =
     (case (arg_int lim args, arg_int off args) of
        (Some l, Some o') \<Rightarrow> if o' < 0 then Inl (bad_input ''OFFSET must not be negative'') else Inr (page l o' xs)
      | _ \<Rightarrow> Inl (bad_input ''parameter''))"

section \<open>The device list\<close>

text \<open>\<open>LEFT JOIN os_info o ON o.device_id = d.id\<close>\<close>

definition join_os :: "db \<Rightarrow> device_row \<Rightarrow> (device_row \<times> os_row option) list" where
  "join_os db d = (case filter (\<lambda>o'. or_device o' = dr_id d) (db_os db) of
     [] \<Rightarrow> [(d, None)] | os \<Rightarrow> map (\<lambda>o'. (d, Some o')) os)"

definition item_of :: "device_row \<times> os_row option \<Rightarrow> device_item" where
  "item_of = (\<lambda>(d, o'). \<lparr>dl_id = dr_id d, dl_type = dr_type d, dl_hostname = text_or_empty (dr_hostname d),
     dl_ip = text_or_empty (dr_ip d), dl_os = text_or_empty (Option.bind o' or_name),
     dl_source = text_or_empty (dr_source d), dl_last = dr_last d\<rparr>)"

definition count_devices :: "device_filter \<Rightarrow> int sql" where
  "count_devices f = (case build_clauses f [] of (cs, args) \<Rightarrow>
     query (\<lambda>w t db. Inr (int (length (filter (where_holds w cs args) (db_devices db))))))"

definition page_devices :: "device_filter \<Rightarrow> device_item list sql" where
  "page_devices f = (case build_clauses f [] of (cs, args0) \<Rightarrow>
     case next_arg (IntArg (df_limit f)) args0 of (lim, args1) \<Rightarrow>
     case next_arg (IntArg (df_offset f)) args1 of (off, args) \<Rightarrow>
     query (\<lambda>w t db. map_sum id (map item_of) (limited lim off args
        (sort_key (\<lambda>(d, o'). - dr_last d) (scan_rows w t
           (concat (map (join_os db) (filter (where_holds w cs args) (db_devices db)))))))))"

definition ListDevices :: "device_filter \<Rightarrow> (device_item list \<times> int) sql" where
  "ListDevices f0 =
     (let f = f0\<lparr>df_limit := clamp_limit 500 50 (df_limit f0)\<rparr>
      in bind_sql (count_devices f) (\<lambda>total. bind_sql (page_devices f) (\<lambda>items. return_sql (items, total))))"

section \<open>One device\<close>

text \<open>A query for one row that may be missing: \<open>pgx.ErrNoRows\<close> is not a failure.\<close>

definition optional_row :: "'a sql \<Rightarrow> 'a option sql" where
  "optional_row m = (\<lambda>w db. case m w db of
     (Inl e, db') \<Rightarrow> (if e = ErrNoRows then Inr None else Inl e, db')
   | (Inr x, db') \<Rightarrow> (Inr (Some x), db'))"

definition rows_of :: "string \<Rightarrow> ('r \<Rightarrow> string) \<Rightarrow> (db \<Rightarrow> 'r list) \<Rightarrow> world \<Rightarrow> nat \<Rightarrow> db \<Rightarrow> go_error + 'r list" where
  "rows_of did dev tbl = (\<lambda>w t db. with_uuid w did (\<lambda>u. Inr (scan_rows w t (filter (\<lambda>r. dev r = u) (tbl db)))))"

definition one_of :: "string \<Rightarrow> ('r \<Rightarrow> string) \<Rightarrow> (db \<Rightarrow> 'r list) \<Rightarrow> 'r sql" where
  "one_of did dev tbl = query (\<lambda>w t db. case rows_of did dev tbl w t db of Inl e \<Rightarrow> Inl e | Inr rs \<Rightarrow> first_row rs)"

definition os_dto_of :: "os_row \<Rightarrow> os_dto" where
  "os_dto_of r = \<lparr>od_family = text_or_empty (or_family r), od_name = text_or_empty (or_name r),
     od_version = text_or_empty (or_version r), od_build = text_or_empty (or_build r),
     od_arch = text_or_empty (or_arch r)\<rparr>"

definition int_or_zero :: "int option \<Rightarrow> int" where
  "int_or_zero v = (case v of None \<Rightarrow> 0 | Some i \<Rightarrow> i)"

definition hw_dto_of :: "hw_row \<Rightarrow> hardware_dto" where
  "hw_dto_of r = \<lparr>hd_vendor = text_or_empty (hr_vendor r), hd_model = text_or_empty (hr_model r),
     hd_serial = text_or_empty (hr_serial r), hd_cpu = text_or_empty (hr_cpu r),
     hd_cores = int_or_zero (hr_cores r), hd_ram = int_or_zero (hr_ram r)\<rparr>"

text \<open>\<open>ORDER BY\<close> a nullable column: \<open>NULL\<close> last.\<close>

definition nulls_last :: "('a \<Rightarrow> 'b) \<Rightarrow> 'b \<Rightarrow> 'a option \<Rightarrow> bool \<times> 'b" where
  "nulls_last f d v = (case v of None \<Rightarrow> (True, d) | Some x \<Rightarrow> (False, f x))"

definition iface_dto_of :: "iface_row \<Rightarrow> iface_dto" where
  "iface_dto_of r = \<lparr>fd_name = text_or_empty (ir_name r), fd_mac = text_or_empty (ir_mac r),
     fd_ip = text_or_empty (ir_ip r), fd_speed = int_or_zero (ir_speed r)\<rparr>"

definition deviceInterfaces :: "string \<Rightarrow> iface_dto list sql" where
  "deviceInterfaces did = query (\<lambda>w t db. map_sum id
     (map iface_dto_of \<circ> sort_key (\<lambda>r. nulls_last (w_sortkey w) [] (ir_name r))) (rows_of did ir_device db_ifaces w t db))"

definition software_dto_of :: "sw_row \<Rightarrow> software_dto" where
  "software_dto_of r = \<lparr>sd_name = sr_name r, sd_version = text_or_empty (sr_version r),
     sd_vendor = text_or_empty (sr_vendor r)\<rparr>"

definition deviceSoftware :: "string \<Rightarrow> software_dto list sql" where
  "deviceSoftware did = query (\<lambda>w t db. map_sum id
     (map software_dto_of \<circ> sort_key (\<lambda>r. w_sortkey w (w_lower w (sr_name r)))) (rows_of did sr_device db_sw w t db))"

definition user_dto_of :: "user_row \<Rightarrow> user_dto" where
  "user_dto_of r = \<lparr>ud_username = ur_username r, ud_fullname = text_or_empty (ur_fullname r),
     ud_last = ur_lastlogon r, ud_local = ur_local r\<rparr>"

definition deviceUsers :: "string \<Rightarrow> user_dto list sql" where
  "deviceUsers did = query (\<lambda>w t db. map_sum id
     (map user_dto_of \<circ> sort_key (\<lambda>r. w_sortkey w (ur_username r))) (rows_of did ur_device db_users w t db))"

definition detail_of :: "device_row \<Rightarrow> os_row option \<Rightarrow> hw_row option \<Rightarrow> iface_dto list \<Rightarrow>
    software_dto list \<Rightarrow> user_dto list \<Rightarrow> device_detail" where
  "detail_of d o' h ifs sws us = \<lparr>dd_item = item_of (d, o'), dd_serial = text_or_empty (dr_serial d),
     dd_first = dr_first d, dd_os = map_option os_dto_of o', dd_hardware = map_option hw_dto_of h,
     dd_ifaces = ifs, dd_software = sws, dd_users = us\<rparr>"

definition GetDevice :: "string \<Rightarrow> device_detail option sql" where
  "GetDevice did = bind_sql (optional_row (one_of did dr_id db_devices)) (\<lambda>found. case found of
     None \<Rightarrow> return_sql None
   | Some d \<Rightarrow> bind_sql (optional_row (one_of did or_device db_os)) (\<lambda>o'.
       bind_sql (optional_row (one_of did hr_device db_hw)) (\<lambda>h.
       bind_sql (deviceInterfaces did) (\<lambda>ifs. bind_sql (deviceSoftware did) (\<lambda>sws.
       bind_sql (deviceUsers did) (\<lambda>us. return_sql (Some (detail_of d o' h ifs sws us))))))))"

section \<open>Software across devices\<close>

type_synonym title = "string \<times> string option"

definition title_of :: "sw_row \<Rightarrow> title" where
  "title_of r = (sr_name r, sr_version r)"

text \<open>\<open>GROUP BY name, version\<close> with \<open>count(DISTINCT device_id)\<close>\<close>

definition group_rows :: "sw_row list \<Rightarrow> (title \<times> int) list" where
  "group_rows rows = map (\<lambda>k. (k, int (length (remdups (map sr_device (filter (\<lambda>r. title_of r = k) rows))))))
     (remdups (map title_of rows))"

definition title_key :: "world \<Rightarrow> title \<Rightarrow> nat list \<times> nat list \<times> bool \<times> nat list" where
  "title_key w = (\<lambda>(n, v). (w_sortkey w (w_lower w n), w_sortkey w n, nulls_last (w_sortkey w) [] v))"

text \<open>The two orders: the second sorts by \<open>device_count DESC\<close> first.\<close>

definition rollup_key :: "world \<Rightarrow> string \<Rightarrow> title \<times> int \<Rightarrow> int \<times> nat list \<times> nat list \<times> bool \<times> nat list" where
  "rollup_key w srt = (\<lambda>(k, n). (if srt = ''name'' then 0 else - n, title_key w k))"

definition software_where :: "string \<Rightarrow> sql_arg list \<Rightarrow> string option \<times> sql_arg list" where
  "software_where q b = (let q' = trim_space q in
     if q' \<noteq> [] then case next_arg (TextArg (''%'' @ q' @ ''%'')) b of (p, b') \<Rightarrow> (Some p, b') else (None, b))"

definition name_matches :: "world \<Rightarrow> string option \<Rightarrow> sql_arg list \<Rightarrow> sw_row \<Rightarrow> bool" where
  "name_matches w p args r = (case p of None \<Rightarrow> True | Some ph \<Rightarrow>
     (case arg_text ph args of None \<Rightarrow> False | Some s \<Rightarrow> w_ilike w (sr_name r) s))"

definition agg_of :: "title \<times> int \<Rightarrow> software_agg" where
  "agg_of = (\<lambda>((n, v), c). \<lparr>sa_name = n, sa_version = text_or_empty v, sa_count = c\<rparr>)"

definition SoftwareRollup :: "string \<Rightarrow> int \<Rightarrow> int \<Rightarrow> string \<Rightarrow> software_agg list sql" where
  "SoftwareRollup q limit0 offset0 srt =
     (let limit = clamp_limit 1000 200 limit0; offset = (if offset0 < 0 then 0 else offset0)
      in case software_where q [] of (p, args0) \<Rightarrow>
         case next_arg (IntArg limit) args0 of (lim, args1) \<Rightarrow>
         case next_arg (IntArg offset) args1 of (off, args) \<Rightarrow>
         query (\<lambda>w t db. map_sum id (map agg_of) (limited lim off args
           (sort_key (rollup_key w srt) (scan_rows w t
              (group_rows (filter (name_matches w p args) (db_sw db))))))))"

definition DevicesWithSoftware :: "string \<Rightarrow> string \<Rightarrow> int \<Rightarrow> device_item list sql" where
  "DevicesWithSoftware name version limit0 =
     (let limit = clamp_limit 2000 500 limit0
      in query (\<lambda>w t db. Inr (take (nat limit) (sort_key (\<lambda>i. - dl_last i) (scan_rows w t (remdups (map item_of
           (concat (map (\<lambda>sw. concat (map (join_os db) (filter (\<lambda>d. dr_id d = sr_device sw) (db_devices db))))
              (filter (\<lambda>sw. sr_name sw = name \<and> text_or_empty (sr_version sw) = version) (db_sw db)))))))))))"

section \<open>Changes, scans and events\<close>

definition change_item_of :: "change_row \<times> device_row \<Rightarrow> change_item" where
  "change_item_of = (\<lambda>(c, d). \<lparr>ci_device = cg_device c,
     ci_hostname = text_or_empty (coalesce (dr_hostname d) (dr_ip d)), ci_field = cg_field c,
     ci_old = cg_old c, ci_new = cg_new c, ci_ts = cg_ts c\<rparr>)"

definition ListChanges :: "string \<Rightarrow> int \<Rightarrow> change_item list sql" where
  "ListChanges did limit0 =
     (let limit = clamp_limit 500 100 limit0
      in query (\<lambda>w t db.
        case (if did \<noteq> [] then map_sum id Some (as_uuid w did) else Inr None) of
          Inl e \<Rightarrow> Inl e
        | Inr only \<Rightarrow> Inr (map change_item_of (take (nat limit) (sort_key (\<lambda>(c, d). - cg_ts c) (scan_rows w t
            (concat (map (\<lambda>c. map (Pair c) (filter (\<lambda>d. dr_id d = cg_device c) (db_devices db)))
              (filter (\<lambda>c. case only of None \<Rightarrow> True | Some u \<Rightarrow> cg_device c = u) (db_changes db))))))))))"

definition scanScan :: "run_row \<Rightarrow> scan_item" where
  "scanScan r = \<lparr>si_id = rn_id r, si_started = rn_started r, si_finished = rn_finished r,
     si_status = rn_status r, si_targets = rn_targets r, si_discovered = rn_discovered r,
     si_found = rn_found r, si_error = text_or_empty (rn_error r)\<rparr>"

definition ListScans :: "int \<Rightarrow> scan_item list sql" where
  "ListScans limit0 =
     (let limit = clamp_limit 200 50 limit0
      in query (\<lambda>w t db. Inr (map scanScan (take (nat limit) (sort_key (\<lambda>r. - rn_started r)
           (scan_rows w t (db_runs db)))))))"

definition GetScanRun :: "string \<Rightarrow> scan_item option sql" where
  "GetScanRun rid = bind_sql (optional_row (one_of rid rn_id db_runs)) (\<lambda>r. return_sql (map_option scanScan r))"

definition event_item_of :: "event_row \<Rightarrow> event_item" where
  "event_item_of r = \<lparr>ei_ts = ev_ts r, ei_addr = ev_addr r, ei_class = text_or_empty (ev_class r),
     ei_collector = text_or_empty (ev_collector r), ei_status = ev_status r,
     ei_changes = ev_changes r, ei_error = text_or_empty (ev_error r)\<rparr>"

definition ListScanEvents :: "string \<Rightarrow> int \<Rightarrow> event_item list sql" where
  "ListScanEvents rid limit0 =
     (let limit = clamp_limit 5000 1000 limit0
      in query (\<lambda>w t db. map_sum id
           (map event_item_of \<circ> take (nat limit) \<circ> sort_key (\<lambda>r. - ev_ts r)) (rows_of rid ev_run db_events w t db)))"

section \<open>The summary\<close>

definition day :: int where "day = 24 * 3600 * pg_second"

text \<open>One row per type, entered into the map in the order the rows come.\<close>

definition type_counts :: "device_row list \<Rightarrow> (string \<times> int) list" where
  "type_counts rows = map (\<lambda>k. (k, int (length (filter (\<lambda>r. dr_type r = k) rows)))) (remdups (map dr_type rows))"

definition Stats :: "stats sql" where
  "Stats =
     bind_sql (query (\<lambda>w t db. Inr (int (length (db_devices db))))) (\<lambda>total.
     bind_sql (query (\<lambda>w t db. Inr (int (length (filter (\<lambda>r. w_now w t - day < dr_last r) (db_devices db)))))) (\<lambda>seen.
     bind_sql (query (\<lambda>w t db. Inr (int (length (remdups (map sr_name (db_sw db))))))) (\<lambda>titles.
     bind_sql (query (\<lambda>w t db. Inr (scan_rows w t (type_counts (db_devices db))))) (\<lambda>rows.
     bind_sql (query (\<lambda>w t db. Inr (if db_runs db = [] then None else Some (Max (set (map rn_started (db_runs db))))))) (\<lambda>last_scan.
     return_sql \<lparr>ss_total = total, ss_seen = seen, ss_types = fold (\<lambda>(k, n) m. m(k \<mapsto> n)) rows Map.empty,
       ss_lastscan = last_scan, ss_titles = titles\<rparr>)))))"

end
