(* ===== verification/QuerySpec.thy ===== *)
theory QuerySpec
  imports Queries Rescan
begin

text \<open>
  What the read queries return: the filter as a predicate on rows, pages of a list in a fixed
  order, the rollup and its drill-down, and the record of a device that a scan has stored.
\<close>

section \<open>Positional arguments\<close>

lemma bound_arg_at:
  "bound_arg (''$'' @ nat_str j) k args = (if k \<le> j \<and> j < k + length args then Some (args ! (j - k)) else None)"
proof (induction args arbitrary: k)
  case Nil
  then show ?case by simp
next
  case (Cons a args)
  show ?case
  proof (cases "j = k")
    case False
    then have "nat_str j \<noteq> nat_str k" by (metis nat_str_inj)
    with Cons False show ?thesis by (auto simp: nth_Cons')
  qed simp
qed

lemma next_arg_text: "next_arg v b = (p, b') \<Longrightarrow> arg_text p (b' @ rest) = (case v of TextArg s \<Rightarrow> Some s | _ \<Rightarrow> None)"
  by (auto simp: next_arg_def arg_text_def bound_arg_at [where k = 1, simplified] nth_append)

lemma next_arg_int: "next_arg v b = (p, b') \<Longrightarrow> arg_int p (b' @ rest) = (case v of IntArg i \<Rightarrow> Some i | _ \<Rightarrow> None)"
  by (auto simp: next_arg_def arg_int_def bound_arg_at [where k = 1, simplified] nth_append)

lemma next_arg_grows: "next_arg v b = (p, b') \<Longrightarrow> b' = b @ [v]"
  by (simp add: next_arg_def)

lemmas next_arg_simps = next_arg_text [where rest = "[]", simplified] next_arg_int [where rest = "[]", simplified]
  next_arg_text next_arg_int

section \<open>The device filter\<close>

definition device_matches :: "world \<Rightarrow> device_filter \<Rightarrow> device_row \<Rightarrow> bool" where
  "device_matches w f r \<longleftrightarrow>
     (let q = trim_space (df_query f); p = ''%'' @ q @ ''%''
      in (q \<noteq> [] \<longrightarrow> ilike_opt w (dr_hostname r) p \<or> ilike_opt w (dr_ip r) p \<or> ilike_opt w (dr_serial r) p) \<and>
         (df_type f \<noteq> [] \<longrightarrow> dr_type r = df_type f))"

definition filter_args :: "device_filter \<Rightarrow> sql_arg list" where
  "filter_args f = (let q = trim_space (df_query f)
     in (if q \<noteq> [] then [TextArg (''%'' @ q @ ''%'')] else []) @ (if df_type f \<noteq> [] then [TextArg (df_type f)] else []))"

lemma digit_two: "digit_char (Suc (Suc 0)) = CHR ''2''"
  using digit_char_lits(4) by (simp only: numeral_2_eq_2)

lemma build_args: "build_clauses f b = (cs, args) \<Longrightarrow> args = b @ filter_args f"
  by (auto simp: build_clauses_def filter_args_def next_arg_def Let_def split: if_splits)

lemma build_holds:
  assumes "build_clauses f [] = (cs, args)"
  shows "where_holds w cs (args @ rest) r = device_matches w f r"
proof -
  have one: "bound_arg ''$1'' (Suc 0) (a # as) = Some a" for a as
    by (simp add: nat_str.simps)
  have two: "bound_arg ''$2'' (Suc 0) (a # b # as) = Some b" for a b as
    by (simp add: nat_str.simps digit_two)
  show ?thesis
    using assms
    by (auto simp: build_clauses_def next_arg_def where_holds_def device_matches_def Let_def arg_text_def
          one two nat_str.simps digit_two split: if_splits)
qed

section \<open>Pages of the device list\<close>

definition os_of :: "db \<Rightarrow> device_row \<Rightarrow> os_row option" where
  "os_of db d = find (\<lambda>o'. or_device o' = dr_id d) (db_os db)"

lemma join_os_single: "facts_ok db \<Longrightarrow> join_os db d = [(d, os_of db d)]"
  unfolding join_os_def os_of_def facts_ok_def
  by (auto simp: filter_key_find split: option.splits list.splits)

lemma concat_singletons: "(\<And>x. x \<in> set xs \<Longrightarrow> f x = [g x]) \<Longrightarrow> concat (map f xs) = map g xs"
  by (induction xs) auto

lemma limited_args:
  assumes "next_arg (IntArg l) b = (lim, b1)" and "next_arg (IntArg o') b1 = (off, args)"
  shows "args = b @ [IntArg l, IntArg o']"
    and "limited lim off args xs =
      (if o' < 0 then Inl (bad_input ''OFFSET must not be negative'') else Inr (page l o' xs))"
  using next_arg_int [OF assms(1), of "[IntArg o']"] next_arg_int [OF assms(2), of "[]"]
    next_arg_grows [OF assms(1)] next_arg_grows [OF assms(2)]
  by (simp_all add: limited_def)

text \<open>
  (C21) The device list is a page of the matching devices. With a non-negative offset it is
  the part from the offset on, at most the limit long, of one list that holds each matching
  device exactly once with its operating system, newest first, and the total is the length
  of that list; a negative offset is an error. No limit the caller asks for makes the page
  longer than 500.
\<close>

theorem ListDevices_exact:
  assumes "quiet w" and "db_inv db"
  shows "if df_offset f < 0 then fst (ListDevices f w db) = Inl (bad_input ''OFFSET must not be negative'')
    else \<exists>rows. mset rows = mset (map (\<lambda>d. item_of (d, os_of db d)) (filter (device_matches w f) (db_devices db))) \<and>
      sorted_wrt (\<lambda>a b. dl_last b \<le> dl_last a) rows \<and>
      fst (ListDevices f w db) = Inr (page (clamp_limit 500 50 (df_limit f)) (df_offset f) rows, int (length rows))"
proof -
  let ?f = "f\<lparr>df_limit := clamp_limit 500 50 (df_limit f)\<rparr>"
  obtain cs args0 where b: "build_clauses ?f [] = (cs, args0)" by (cases "build_clauses ?f []")
  obtain lim args1 where l: "next_arg (IntArg (df_limit ?f)) args0 = (lim, args1)" by (cases "next_arg (IntArg (df_limit ?f)) args0")
  obtain off args where o': "next_arg (IntArg (df_offset ?f)) args1 = (off, args)" by (cases "next_arg (IntArg (df_offset ?f)) args1")
  have m: "device_matches w ?f = device_matches w f" by (rule ext) (simp add: device_matches_def)
  have w0: "where_holds w cs args0 = device_matches w f"
    using build_holds [OF b, where rest = "[]"] m by (simp add: fun_eq_iff)
  have w1: "where_holds w cs args = device_matches w f"
    using build_holds [OF b] m unfolding limited_args(1) [OF l o'] by auto
  have "db_inv (tick (tick db))" using assms(2) by (simp add: schema.tick_inv)
  then have facts: "facts_ok (tick (tick db))" by (simp add: db_inv_def)
  define hits where "hits = filter (device_matches w f) (db_devices db)"
  define rows where "rows = sort_key (\<lambda>(d, o'). - dr_last d)
    (scan_rows w (Suc (db_tick db)) (map (\<lambda>d. (d, os_of db d)) hits))"
  have os: "os_of (tick (tick db)) = os_of db" by (rule ext) (simp add: os_of_def)
  have j: "concat (map (join_os (tick (tick db))) hits) = map (\<lambda>d. (d, os_of db d)) hits"
    by (rule concat_singletons) (simp add: join_os_single [OF facts] os)
  have c: "count_devices ?f w db = (Inr (int (length hits)), tick db)"
    using b assms(1) by (simp add: count_devices_def query_quiet w0 hits_def)
  have p: "page_devices ?f w (tick db) = (map_sum id (map item_of) (limited lim off args rows), tick (tick db))"
    unfolding page_devices_def b prod.case l o' query_quiet [OF assms(1)] w1
    by (simp add: j hits_def [symmetric] rows_def)
  have run: "fst (ListDevices f w db) = (case limited lim off args rows of
      Inl e \<Rightarrow> Inl e | Inr rs \<Rightarrow> Inr (map item_of rs, int (length hits)))"
    by (simp add: ListDevices_def Let_def bind_sql_def c p split: sum.splits)
  have len: "length rows = length hits" by (simp add: rows_def)
  have ms: "mset (map item_of rows) = mset (map (\<lambda>d. item_of (d, os_of db d)) hits)"
    by (simp add: rows_def image_mset.compositionality o_def)
  have "sorted (map (\<lambda>(d, o'). - dr_last d) rows)" by (simp add: rows_def)
  then have "sorted_wrt (\<lambda>a b. dl_last b \<le> dl_last a) (map item_of rows)"
    by (simp add: sorted_map sorted_wrt_map item_of_def case_prod_beta)
  with ms len show ?thesis
    by (auto simp: run limited_args(2) [OF l o'] hits_def [symmetric] page_def take_map drop_map
        intro!: exI [of _ "map item_of rows"])
qed

section \<open>The rollup\<close>

definition title_matches :: "world \<Rightarrow> string \<Rightarrow> string \<Rightarrow> bool" where
  "title_matches w q name \<longleftrightarrow> trim_space q \<noteq> [] \<longrightarrow> w_ilike w name (''%'' @ trim_space q @ ''%'')"

text \<open>What a rollup holds: each title once, with the number of devices that have it.\<close>

definition is_rollup :: "world \<Rightarrow> string \<Rightarrow> sw_row list \<Rightarrow> (title \<times> int) list \<Rightarrow> bool" where
  "is_rollup w q rows full \<longleftrightarrow> distinct (map fst full) \<and>
     fst ` set full = title_of ` {r \<in> set rows. title_matches w q (sr_name r)} \<and>
     (\<forall>(k, n) \<in> set full. n = int (card (sr_device ` {r \<in> set rows. title_of r = k})))"

lemma fst_group_rows: "map fst (group_rows rows) = remdups (map title_of rows)"
  by (simp add: group_rows_def o_def)

lemma is_rollup_group:
  "is_rollup w q rows (group_rows (filter (\<lambda>r. title_matches w q (sr_name r)) rows))"
proof -
  have "card (sr_device ` {r \<in> set rows. title_matches w q (sr_name r) \<and> title_of r = title_of r'}) =
      card (sr_device ` {r \<in> set rows. title_of r = title_of r'})" if "title_matches w q (sr_name r')" for r'
    by (rule arg_cong [where f = card], rule arg_cong [where f = "image sr_device"])
       (use that in \<open>auto simp: title_of_def\<close>)
  then have "\<forall>(k, n) \<in> set (group_rows (filter (\<lambda>r. title_matches w q (sr_name r)) rows)).
      n = int (card (sr_device ` {r \<in> set rows. title_of r = k}))"
    by (auto simp: group_rows_def length_remdups_card_conv conj_assoc)
  then show ?thesis
    unfolding is_rollup_def set_map [symmetric] fst_group_rows by simp
qed

lemma is_rollup_mset: "mset a = mset b \<Longrightarrow> is_rollup w q rows a = is_rollup w q rows b"
  using mset_eq_imp_distinct_iff [of "map fst a" "map fst b"]
  by (simp add: is_rollup_def mset_eq_setD [of a b])

lemma name_matches_where:
  assumes "software_where q [] = (p, args)"
  shows "name_matches w p (args @ rest) = (\<lambda>r. title_matches w q (sr_name r))"
  using assms
  by (auto simp: software_where_def name_matches_def title_matches_def Let_def next_arg_def
      arg_text_def nat_str.simps fun_eq_iff split: if_splits)

definition deterministic_collation :: "world \<Rightarrow> bool" where
  "deterministic_collation w \<longleftrightarrow> inj (w_sortkey w)"

lemma rollup_key_inj:
  assumes "deterministic_collation w" and "is_rollup w q rows full"
  shows "inj_on (rollup_key w srt) (set full)"
proof (rule inj_onI)
  fix x y
  assume xy: "x \<in> set full" "y \<in> set full" "rollup_key w srt x = rollup_key w srt y"
  obtain n v c n' v' c' where [simp]: "x = ((n, v), c)" "y = ((n', v'), c')" by (cases x, cases y) auto
  from assms(1) xy(3) have "n = n'" "v = v'"
    by (auto simp: rollup_key_def title_key_def nulls_last_def deterministic_collation_def inj_eq split: option.splits)
  moreover have "snd z = int (card (sr_device ` {r \<in> set rows. title_of r = fst z}))" if "z \<in> set full" for z
    using assms(2) that by (auto simp: is_rollup_def)
  from this [OF xy(1)] this [OF xy(2)] calculation have "c = c'" by simp
  ultimately show "x = y" by simp
qed

definition full_rollup :: "world \<Rightarrow> string \<Rightarrow> string \<Rightarrow> sw_row list \<Rightarrow> (title \<times> int) list" where
  "full_rollup w q srt rows =
     sort_key (rollup_key w srt) (group_rows (filter (\<lambda>r. title_matches w q (sr_name r)) rows))"

lemma SoftwareRollup_run:
  assumes "quiet w" and "deterministic_collation w"
  shows "SoftwareRollup q limit offset srt w db =
    (Inr (map agg_of (page (clamp_limit 1000 200 limit) (max 0 offset) (full_rollup w q srt (db_sw db)))), tick db)"
proof -
  let ?l = "clamp_limit 1000 200 limit" and ?o = "if offset < 0 then 0 else offset"
  obtain p args0 where q: "software_where q [] = (p, args0)" by (cases "software_where q []")
  obtain lim args1 where l: "next_arg (IntArg ?l) args0 = (lim, args1)" by (cases "next_arg (IntArg ?l) args0")
  obtain off args where o': "next_arg (IntArg ?o) args1 = (off, args)" by (cases "next_arg (IntArg ?o) args1")
  let ?g = "group_rows (filter (\<lambda>r. title_matches w q (sr_name r)) (db_sw db))"
  have m: "name_matches w p args = (\<lambda>r. title_matches w q (sr_name r))"
    unfolding limited_args(1) [OF l o'] by (rule name_matches_where [OF q])
  have s: "sort_key (rollup_key w srt) (scan_rows w t ?g) = full_rollup w q srt (db_sw db)" for t
    unfolding full_rollup_def
    by (rule sort_key_inj_key_eq) (simp_all add: rollup_key_inj [OF assms(2) is_rollup_group])
  have o0: "max 0 offset = ?o" by simp
  show ?thesis
    unfolding SoftwareRollup_def Let_def q prod.case l o' query_quiet [OF assms(1)] m limited_args(2) [OF l o']
    by (simp add: s o0)
qed

lemma concat_pages:
  assumes "0 \<le> l"
  shows "concat (map (\<lambda>k. page l (int k * l) xs) [0..<n]) = take (n * nat l) xs"
proof (induction n)
  case (Suc n)
  have "nat (int n * l) = n * nat l" using assms by (simp add: nat_mult_distrib)
  moreover have "take (Suc n * nat l) xs = take (n * nat l) xs @ take (nat l) (drop (n * nat l) xs)"
    by (metis add.commute mult_Suc take_add)
  ultimately show ?case using Suc by (simp add: page_def)
qed simp

text \<open>
  (C19) Walking through the rollup page by page sees every title exactly once. For a fixed
  set of software rows there is one list of titles, each with the number of devices that
  have it, sorted as asked for; the pages of any size put together are its beginning, whatever
  order the service meets the rows in at each request.
\<close>

theorem rollup_pages:
  assumes "quiet w" and "deterministic_collation w" and "1 \<le> limit" and "limit \<le> 1000"
    and "\<And>k. db_sw (dbs k) = rows"
  shows "\<exists>full pages. is_rollup w q rows full \<and> sorted (map (rollup_key w srt) full) \<and>
    (\<forall>k. fst (SoftwareRollup q limit (int k * limit) srt w (dbs k)) = Inr (pages k)) \<and>
    (\<forall>n. concat (map pages [0..<n]) = map agg_of (take (n * nat limit) full))"
proof (intro exI conjI allI)
  let ?full = "full_rollup w q srt rows"
  let ?page = "\<lambda>k. map agg_of (page limit (int k * limit) ?full)"
  have "mset ?full = mset (group_rows (filter (\<lambda>r. title_matches w q (sr_name r)) rows))"
    by (simp add: full_rollup_def)
  then show "is_rollup w q rows ?full" using is_rollup_group is_rollup_mset by blast
  show "sorted (map (rollup_key w srt) ?full)" by (simp add: full_rollup_def)
  have "clamp_limit 1000 200 limit = limit" using assms(3,4) by (simp add: clamp_limit_def)
  then show "fst (SoftwareRollup q limit (int k * limit) srt w (dbs k)) = Inr (?page k)" for k
    using assms(3,5) by (simp add: SoftwareRollup_run [OF assms(1,2)])
  show "concat (map ?page [0..<n]) = map agg_of (take (n * nat limit) ?full)" for n
    using assms(3) concat_pages [of limit ?full n, THEN arg_cong [where f = "map agg_of"]]
    by (simp add: map_concat o_def)
qed

section \<open>The device record\<close>

lemma with_uuid_Some: "w_uuidof w s = Some u \<Longrightarrow> with_uuid w s f = f u"
  by (simp add: with_uuid_def as_uuid_def)

lemma one_of_run:
  assumes "quiet w" and "w_uuidof w did = Some u" and "distinct (map dev (tbl db))" and "tbl (tick db) = tbl db"
  shows "optional_row (one_of did dev tbl) w db = (Inr (find (\<lambda>r. dev r = u) (tbl db)), tick db)"
proof -
  have "filter (\<lambda>r. dev r = u) (tbl db) = (case find (\<lambda>r. dev r = u) (tbl db) of None \<Rightarrow> [] | Some x \<Rightarrow> [x])"
    by (rule filter_key_find [OF assms(3)])
  with assms(1,2,4) show ?thesis
    by (simp add: optional_row_def one_of_def query_quiet rows_of_def with_uuid_Some split: option.splits)
qed

lemma rows_of_quiet:
  "w_uuidof w did = Some u \<Longrightarrow> rows_of did dev tbl w t db = Inr (scan_rows w t (filter (\<lambda>r. dev r = u) (tbl db)))"
  by (simp add: rows_of_def with_uuid_Some)

lemma child_lists:
  assumes "quiet w" and "w_uuidof w did = Some u"
  shows "\<exists>xs. deviceInterfaces did w db = (Inr xs, tick db) \<and>
      mset xs = mset (map iface_dto_of (filter (\<lambda>r. ir_device r = u) (db_ifaces db)))"
    and "\<exists>xs. deviceSoftware did w db = (Inr xs, tick db) \<and>
      mset xs = mset (map software_dto_of (filter (\<lambda>r. sr_device r = u) (db_sw db)))"
    and "\<exists>xs. deviceUsers did w db = (Inr xs, tick db) \<and>
      mset xs = mset (map user_dto_of (filter (\<lambda>r. ur_device r = u) (db_users db)))"
  by (simp_all add: deviceInterfaces_def deviceSoftware_def deviceUsers_def query_quiet [OF assms(1)]
      rows_of_quiet [OF assms(2)])

lemma GetDevice_run:
  assumes "quiet w" and "w_uuidof w did = Some u" and "db_inv db"
  shows "case find (\<lambda>r. dr_id r = u) (db_devices db) of
      None \<Rightarrow> fst (GetDevice did w db) = Inr None
    | Some d \<Rightarrow> \<exists>ifs sws us. fst (GetDevice did w db) = Inr (Some (detail_of d
          (find (\<lambda>r. or_device r = u) (db_os db)) (find (\<lambda>r. hr_device r = u) (db_hw db)) ifs sws us)) \<and>
        mset ifs = mset (map iface_dto_of (filter (\<lambda>r. ir_device r = u) (db_ifaces db))) \<and>
        mset sws = mset (map software_dto_of (filter (\<lambda>r. sr_device r = u) (db_sw db))) \<and>
        mset us = mset (map user_dto_of (filter (\<lambda>r. ur_device r = u) (db_users db)))"
proof -
  have keys: "distinct (map dr_id (db_devices db))" "distinct (map or_device (db_os db))" "distinct (map hr_device (db_hw db))"
    using assms(3) by (simp_all add: db_inv_def devices_ok_def facts_ok_def)
  note q = one_of_run [OF assms(1,2)]
  have d: "optional_row (one_of did dr_id db_devices) w db = (Inr (find (\<lambda>r. dr_id r = u) (db_devices db)), tick db)"
    by (rule q) (simp_all add: keys)
  have o': "optional_row (one_of did or_device db_os) w (tick db) = (Inr (find (\<lambda>r. or_device r = u) (db_os db)), tick (tick db))"
    using q [of or_device db_os "tick db"] keys by simp
  have h: "optional_row (one_of did hr_device db_hw) w (tick (tick db)) =
      (Inr (find (\<lambda>r. hr_device r = u) (db_hw db)), tick (tick (tick db)))"
    using q [of hr_device db_hw "tick (tick db)"] keys by simp
  note lists = child_lists [OF assms(1,2)]
  show ?thesis
  proof (cases "find (\<lambda>r. dr_id r = u) (db_devices db)")
    case None
    with d show ?thesis by (simp add: GetDevice_def bind_sql_def)
  next
    case (Some r)
    let ?db = "tick (tick (tick db))"
    obtain ifs where i: "deviceInterfaces did w ?db = (Inr ifs, tick ?db)"
      and "mset ifs = mset (map iface_dto_of (filter (\<lambda>r. ir_device r = u) (db_ifaces db)))"
      using lists(1) [of ?db] by auto
    moreover obtain sws where s: "deviceSoftware did w (tick ?db) = (Inr sws, tick (tick ?db))"
      and "mset sws = mset (map software_dto_of (filter (\<lambda>r. sr_device r = u) (db_sw db)))"
      using lists(2) [of "tick ?db"] by auto
    moreover obtain us where "deviceUsers did w (tick (tick ?db)) = (Inr us, tick (tick (tick ?db)))"
      and "mset us = mset (map user_dto_of (filter (\<lambda>r. ur_device r = u) (db_users db)))"
      using lists(3) [of "tick (tick ?db)"] by auto
    moreover have "fst (GetDevice did w db) = Inr (Some (detail_of r (find (\<lambda>r. or_device r = u) (db_os db))
        (find (\<lambda>r. hr_device r = u) (db_hw db)) ifs sws us))"
      using calculation by (simp add: GetDevice_def bind_sql_def d Some o' h)
    ultimately show ?thesis using Some by auto
  qed
qed

text \<open>What the record of a device must show after a scan that learned \<open>d\<close>.\<close>

definition shows_device :: "world \<Rightarrow> device \<Rightarrow> string \<Rightarrow> device_detail \<Rightarrow> bool" where
  "shows_device w d did det \<longleftrightarrow>
     dl_id (dd_item det) = did \<and>
     (d_type d \<noteq> ''unknown'' \<longrightarrow> dl_type (dd_item det) = d_type d) \<and>
     (d_hostname d \<noteq> [] \<longrightarrow> dl_hostname (dd_item det) = d_hostname d) \<and>
     (is_valid (d_ip d) \<longrightarrow> w_inet w (addr_string (d_ip d)) = Some (dl_ip (dd_item det))) \<and>
     (d_source d \<noteq> [] \<longrightarrow> dl_source (dd_item det) = d_source d) \<and>
     (d_serial d \<noteq> [] \<longrightarrow> dd_serial det = d_serial d) \<and>
     (\<forall>os. d_os d = Some os \<longrightarrow> dl_os (dd_item det) = os_name os \<and>
        dd_os det = Some \<lparr>od_family = os_family os, od_name = os_name os, od_version = os_version os,
          od_build = os_build os, od_arch = os_arch os\<rparr>) \<and>
     (\<forall>hw. d_hw d = Some hw \<longrightarrow> dd_hardware det = Some \<lparr>hd_vendor = hw_vendor hw, hd_model = hw_model hw,
          hd_serial = hw_serial hw, hd_cpu = hw_cpu hw, hd_cores = hw_cores hw, hd_ram = hw_ram hw\<rparr>) \<and>
     mset (dd_ifaces det) = mset (map (iface_dto_of \<circ> the_iface_row w did) (d_ifaces d)) \<and>
     mset (dd_software det) = mset (map (\<lambda>s. \<lparr>sd_name = sw_name s, sd_version = sw_version s, sd_vendor = sw_vendor s\<rparr>) (d_sw d)) \<and>
     mset (dd_users det) = mset (map (\<lambda>u. \<lparr>ud_username = ua_username u, ud_fullname = ua_fullname u,
          ud_last = ua_lastlogon u, ud_local = ua_local u\<rparr>) (d_users d))"

lemma int_null [simp]: "int_or_zero (nullInt i) = i" "int_or_zero (nullInt64 i) = i"
  by (simp_all add: int_or_zero_def nullInt_def nullInt64_def)

lemma dto_of_rows:
  "software_dto_of (sw_row_of did s) = \<lparr>sd_name = sw_name s, sd_version = sw_version s, sd_vendor = sw_vendor s\<rparr>"
  "user_dto_of (user_row_of did u) = \<lparr>ud_username = ua_username u, ud_fullname = ua_fullname u,
     ud_last = ua_lastlogon u, ud_local = ua_local u\<rparr>"
  "os_dto_of (os_row_of did os) = \<lparr>od_family = os_family os, od_name = os_name os, od_version = os_version os,
     od_build = os_build os, od_arch = os_arch os\<rparr>"
  "hw_dto_of (hw_row_of did hw) = \<lparr>hd_vendor = hw_vendor hw, hd_model = hw_model hw, hd_serial = hw_serial hw,
     hd_cpu = hw_cpu hw, hd_cores = hw_cores hw, hd_ram = hw_ram hw\<rparr>"
  by (simp_all add: software_dto_of_def sw_row_of_def user_dto_of_def user_row_of_def os_dto_of_def
      os_row_of_def hw_dto_of_def hw_row_of_def)

lemma stored_device_row:
  assumes "db_inv db" and "same_tables db' (upsert_effect w d run c did ch now upd ts db)"
  shows "find (\<lambda>r. dr_id r = did) (db_devices db') = Some (
    case find (\<lambda>r. dr_id r = did) (db_devices db) of
      None \<Rightarrow> new_row w d did now upd | Some r \<Rightarrow> merge_row d (stored_ip w d) now r)"
proof -
  have dev: "db_devices db' = db_devices (store_row w d did now upd db)"
    using same_tables_fields [OF assms(2)] by (simp add: upsert_effect_def Let_def set_children_def)
  show ?thesis
  proof (cases "stored did db")
    case True
    then obtain r where "find (\<lambda>r. dr_id r = did) (db_devices db) = Some r" using find_device by blast
    then show ?thesis by (simp add: dev store_row_def True find_update_where)
  next
    case False
    then have "find (\<lambda>r. dr_id r = did) (db_devices db) = None"
      by (auto simp: find_None_iff device_ids_def)
    with False show ?thesis by (simp add: dev store_row_def find_append_key device_ids_def)
  qed
qed

lemma UpsertDevice_inv: "db_inv db \<Longrightarrow> UpsertDevice d run c w db = (r, db') \<Longrightarrow> db_inv db'"
  by (metis preservesD UpsertDevice_keeps snd_conv)

text \<open>
  (C18) What a scan stores is what the interface shows. After a pass that collected from a
  device, the record read under the id of its row has every fact the scan learned: the
  scalar fields that were not empty, the operating system and the hardware, and exactly the
  collected interfaces (as the service prints them), software and accounts.
\<close>

theorem stored_device_reads_back:
  assumes "db_inv db" and "UpsertDevice d run True w db = (Inr (did, changes), db')"
    and "quiet w'" and "w_uuidof w' did = Some did"
  shows "\<exists>det. fst (GetDevice did w' db') = Inr (Some det) \<and> shows_device w d did det"
proof -
  from UpsertDevice_spec [OF assms(1,2)] obtain now upd ts
    where st: "same_tables db' (upsert_effect w d run True did changes now upd ts db)" and ip: "ip_writable w d"
    unfolding upsert_spec_def by blast
  note f = same_tables_fields [OF st]
  let ?r = "case find (\<lambda>r. dr_id r = did) (db_devices db) of
      None \<Rightarrow> new_row w d did now upd | Some r \<Rightarrow> merge_row d (stored_ip w d) now r"
  have cm: "filter (\<lambda>r. ir_device r = did) (db_ifaces db') = map (the_iface_row w did) (d_ifaces d)"
    "filter (\<lambda>r. sr_device r = did) (db_sw db') = map (sw_row_of did) (d_sw d)"
    "filter (\<lambda>r. ur_device r = did) (db_users db') = map (user_row_of did) (d_users d)"
    using children_match_effect [of True w did d] f by (simp_all add: children_match_def)
  have os: "find (\<lambda>r. or_device r = did) (db_os db') = Some (os_row_of did os)" if "d_os d = Some os" for os
    using f that by (simp add: upsert_effect_def Let_def set_children_def find_put_row os_row_of_def)
  have hw: "find (\<lambda>r. hr_device r = did) (db_hw db') = Some (hw_row_of did hw)" if "d_hw d = Some hw" for hw
    using f that by (simp add: upsert_effect_def Let_def set_children_def find_put_row hw_row_of_def)
  from GetDevice_run [OF assms(3,4) UpsertDevice_inv [OF assms(1,2)]] stored_device_row [OF assms(1) st]
  obtain ifs sws us where g: "fst (GetDevice did w' db') = Inr (Some (detail_of ?r
        (find (\<lambda>r. or_device r = did) (db_os db')) (find (\<lambda>r. hr_device r = did) (db_hw db')) ifs sws us))"
    and ms: "mset ifs = mset (map iface_dto_of (filter (\<lambda>r. ir_device r = did) (db_ifaces db')))"
      "mset sws = mset (map software_dto_of (filter (\<lambda>r. sr_device r = did) (db_sw db')))"
      "mset us = mset (map user_dto_of (filter (\<lambda>r. ur_device r = did) (db_users db')))"
    by auto
  have row: "dr_id ?r = did" "d_type d \<noteq> ''unknown'' \<longrightarrow> dr_type ?r = d_type d"
    "d_hostname d \<noteq> [] \<longrightarrow> dr_hostname ?r = Some (d_hostname d)" "d_source d \<noteq> [] \<longrightarrow> dr_source ?r = Some (d_source d)"
    "d_serial d \<noteq> [] \<longrightarrow> dr_serial ?r = Some (d_serial d)"
    "is_valid (d_ip d) \<longrightarrow> w_inet w (addr_string (d_ip d)) = Some (text_or_empty (dr_ip ?r))"
    using ip by (auto simp: new_row_def merge_row_def nullStr_def stored_ip_def ip_writable_def
        dest: find_SomeD split: option.splits)
  have "shows_device w d did (detail_of ?r (find (\<lambda>r. or_device r = did) (db_os db'))
      (find (\<lambda>r. hr_device r = did) (db_hw db')) ifs sws us)"
    using row ms [unfolded cm]
    by (simp add: shows_device_def detail_of_def item_of_def o_def dto_of_rows os hw)
       (simp add: os_row_of_def)
  with g show ?thesis by blast
qed

lemma stored_device_reads_back_witness:
  "\<exists>det. fst (GetDevice demo_id demo_world demo_db) = Inr (Some det) \<and> shows_device demo_world demo_device demo_id det"
  by (rule stored_device_reads_back [OF db_inv_empty demo_first]) simp_all

section \<open>The rollup and its drill-down\<close>

lemma length_remdups_image:
  assumes "\<And>x. x \<in> set xs \<Longrightarrow> key (g x) = k x" and "\<And>x y. x \<in> set xs \<Longrightarrow> y \<in> set xs \<Longrightarrow> k x = k y \<Longrightarrow> g x = g y"
  shows "length (remdups (map g xs)) = card (k ` set xs)" and "distinct (map key (remdups (map g xs)))"
    and "key ` set (remdups (map g xs)) = k ` set xs"
proof -
  have inj: "inj_on key (g ` set xs)"
  proof (rule inj_onI)
    fix a b
    assume "a \<in> g ` set xs" and "b \<in> g ` set xs" and ab: "key a = key b"
    then obtain x y where xy: "a = g x" "b = g y" "x \<in> set xs" "y \<in> set xs" by blast
    with ab assms(1) have "k x = k y" by simp
    from assms(2) [OF xy(3,4) this] xy show "a = b" by simp
  qed
  have img: "key ` g ` set xs = k ` set xs" using assms(1) by (simp add: image_image cong: image_cong)
  show "length (remdups (map g xs)) = card (k ` set xs)"
    using card_image [OF inj] img by (simp add: length_remdups_card_conv)
  show "distinct (map key (remdups (map g xs)))" using inj by (simp add: distinct_map)
  show "key ` set (remdups (map g xs)) = k ` set xs" using img by simp
qed

lemma filter_device:
  assumes "db_inv db" and "u \<in> device_ids db"
  shows "\<exists>d. filter (\<lambda>d. dr_id d = u) (db_devices db) = [d] \<and> dr_id d = u"
proof -
  from find_device [OF assms(2)] obtain d where "find (\<lambda>r. dr_id r = u) (db_devices db) = Some d" by blast
  then show ?thesis
    using assms(1) filter_key_find [of dr_id "db_devices db" u]
    by (auto simp: db_inv_def devices_ok_def dest: find_SomeD)
qed


lemma demo_rollup: "is_rollup demo_world [] (db_sw demo_db) [((''nginx'', None), 1)]"
  by (subst demo_db_eval) (simp add: is_rollup_def title_of_def title_matches_def Collect_conv_if)


lemma ListDevices_exact_witness:
  "\<exists>items. fst (ListDevices \<lparr>df_query = [], df_type = ''linux'', df_limit = 0, df_offset = 0\<rparr> demo_world demo_db) =
     Inr (items, 1) \<and> length items = 1"
proof -
  let ?f = "\<lparr>df_query = [], df_type = ''linux'', df_limit = 0, df_offset = 0\<rparr>"
  from ListDevices_exact [OF demo_world_quiet demo_db_inv, of ?f]
  obtain rows where m: "mset rows = mset (map (\<lambda>d. item_of (d, os_of demo_db d)) (filter (device_matches demo_world ?f) (db_devices demo_db)))"
    and r: "fst (ListDevices ?f demo_world demo_db) = Inr (page 50 0 rows, int (length rows))"
    by (auto simp: clamp_limit_def)
  have "length rows = length (filter (device_matches demo_world ?f) (db_devices demo_db))"
    using mset_eq_length [OF m] by simp
  also have "\<dots> = 1" by (subst demo_db_eval) (simp add: device_matches_def)
  finally show ?thesis using r by (simp add: page_def)
qed

lemma demo_collation: "deterministic_collation demo_world"
  by (simp add: deterministic_collation_def inj_def)

lemma rollup_pages_witness:
  "\<exists>full pages. is_rollup demo_world [] (db_sw demo_db) full \<and> sorted (map (rollup_key demo_world ''name'') full) \<and>
    (\<forall>k. fst (SoftwareRollup [] 1 (int k * 1) ''name'' demo_world demo_db) = Inr (pages k)) \<and>
    (\<forall>n. concat (map pages [0..<n]) = map agg_of (take (n * nat 1) full))"
  by (rule rollup_pages [OF demo_world_quiet demo_collation]) simp_all

text \<open>
  The device list has no such guarantee: it is sorted by \<open>last_seen\<close> only, so devices that
  tie may change places between two requests, and one of them is then shown on two pages
  and another on none.
\<close>

definition tied_device :: "string \<Rightarrow> device_row" where
  "tied_device did = \<lparr>dr_id = did, dr_type = ''linux'', dr_hostname = None, dr_ip = None, dr_serial = None,
     dr_tag = None, dr_guid = None, dr_source = None, dr_first = 0, dr_last = 0, dr_updated = 0\<rparr>"

definition tied_db :: db where
  "tied_db = empty_db\<lparr>db_devices := [tied_device ''a'', tied_device ''b'']\<rparr>"

lemma device_pages_repeat:
  "\<exists>w db1. quiet w \<and> db_inv tied_db \<and>
     (let f = \<lparr>df_query = [], df_type = [], df_limit = 1, df_offset = 0\<rparr>
      in ListDevices f w tied_db = (Inr ([item_of (tied_device ''a'', None)], 2), db1) \<and>
         fst (ListDevices (f\<lparr>df_offset := 1\<rparr>) w db1) = Inr ([item_of (tied_device ''a'', None)], 2))"
proof (intro exI conjI)
  let ?w = "demo_world\<lparr>w_shuffle := (\<lambda>t n. if t = 3 then rev [0..<n] else [0..<n])\<rparr>"
  show q: "quiet ?w" by (simp add: quiet_def)
  have two: "scan_rows ?w t [x, y] = (if t = 3 then [y, x] else [x, y])" for t and x y :: "device_row \<times> os_row option"
    by (simp add: scan_rows_def)
  have three: "Suc (Suc (Suc 0)) = 3" by simp
  from q show "let f = \<lparr>df_query = [], df_type = [], df_limit = 1, df_offset = 0\<rparr>
      in ListDevices f ?w tied_db = (Inr ([item_of (tied_device ''a'', None)], 2), tick (tick tied_db)) \<and>
         fst (ListDevices (f\<lparr>df_offset := 1\<rparr>) ?w (tick (tick tied_db))) = Inr ([item_of (tied_device ''a'', None)], 2)"
    by (simp add: Let_def ListDevices_def clamp_limit_def count_devices_def page_devices_def build_clauses_def
        next_arg_def bind_sql_def query_quiet where_holds_def limited_def arg_int_def nat_str.simps digit_two
        tied_db_def empty_db_def tick_def join_os_def tied_device_def two three page_def item_of_def)
  show "db_inv tied_db"
    by (simp add: db_inv_def part_defs unique_key_def tied_db_def tied_device_def empty_db_def)
qed

section \<open>The summary\<close>

lemma fold_map_upd: "distinct (map fst rows) \<Longrightarrow> fold (\<lambda>(k, n) m. m(k \<mapsto> n)) rows m = m ++ map_of rows"
  by (induction rows arbitrary: m) (auto simp: dom_map_of_conv_image_fst map_add_upd_left)

lemma count_filter: "count (mset (map f xs)) t = length (filter (\<lambda>x. f x = t) xs)"
  by (induction xs) auto

lemma sum_type_counts:
  "(\<Sum>t \<in> dr_type ` set rows. int (length (filter (\<lambda>r. dr_type r = t) rows))) = int (length rows)"
proof -
  have "size (mset (map dr_type rows)) = (\<Sum>t \<in> dr_type ` set rows. length (filter (\<lambda>r. dr_type r = t) rows))"
    by (simp only: size_multiset_overloaded_eq count_filter set_mset_mset set_map)
  then show ?thesis by (simp del: of_nat_sum add: of_nat_sum [symmetric])
qed



end
