(* ===== verification/Views.thy ===== *)
theory Views
  imports QuerySpec
begin

text \<open>
  The views of \<open>store/migrations/0003_zabbix_views.sql\<close>, which Zabbix reads straight from the
  database: one row per device, one per installed title, and the latest scan run. The last
  section shows that under the schema's constraints they have the rows their comments promise
  and say the same of a device as the HTTP interface.
\<close>

section \<open>Hosts\<close>

record host_view =
  zh_device :: string
  zh_name :: "string option"
  zh_type :: string
  zh_ip :: "string option"
  zh_os :: string
  zh_osfull :: string
  zh_arch :: string
  zh_vendor :: string
  zh_model :: string
  zh_serial :: string
  zh_cpu :: string
  zh_cores :: int
  zh_ram :: int
  zh_source :: string
  zh_first :: int
  zh_last :: int
  zh_software :: int
  zh_macs :: "string option"

text \<open>\<open>btrim\<close> strips spaces, \<open>string_agg\<close> of no rows is \<open>NULL\<close>, and \<open>DISTINCT\<close> inside it sorts.\<close>

definition btrim :: "string \<Rightarrow> string" where
  "btrim s = rev (dropWhile (\<lambda>c. c = CHR '' '') (rev (dropWhile (\<lambda>c. c = CHR '' '') s)))"

definition nullif_blank :: "string option \<Rightarrow> string option" where
  "nullif_blank v = (if v = Some [] then None else v)"

definition agg_distinct :: "world \<Rightarrow> string list \<Rightarrow> string option" where
  "agg_distinct w xs = (if xs = [] then None else Some (join '','' (sort_key (w_sortkey w) (remdups xs))))"

definition host_name :: "device_row \<Rightarrow> string option" where
  "host_name d = coalesce (nullif_blank (dr_hostname d)) (dr_ip d)"

definition join_hw :: "db \<Rightarrow> device_row \<times> os_row option \<Rightarrow> (device_row \<times> os_row option \<times> hw_row option) list" where
  "join_hw db = (\<lambda>(d, o'). case filter (\<lambda>h. hr_device h = dr_id d) (db_hw db) of
     [] \<Rightarrow> [(d, o', None)] | hs \<Rightarrow> map (\<lambda>h. (d, o', Some h)) hs)"

definition host_row :: "world \<Rightarrow> db \<Rightarrow> device_row \<times> os_row option \<times> hw_row option \<Rightarrow> host_view" where
  "host_row w db = (\<lambda>(d, o', h).
     let os_text = (\<lambda>f. text_or_empty (Option.bind o' f)); hw_text = (\<lambda>f. text_or_empty (Option.bind h f))
     in \<lparr>zh_device = dr_id d, zh_name = host_name d, zh_type = dr_type d, zh_ip = dr_ip d, zh_os = os_text or_name,
         zh_osfull = btrim (os_text or_name @ '' '' @ os_text or_version @ '' '' @ os_text or_build),
         zh_arch = os_text or_arch, zh_vendor = hw_text hr_vendor, zh_model = hw_text hr_model,
         zh_serial = text_or_empty (coalesce (nullif_blank (dr_serial d)) (Option.bind h hr_serial)),
         zh_cpu = hw_text hr_cpu, zh_cores = int_or_zero (Option.bind h hr_cores), zh_ram = int_or_zero (Option.bind h hr_ram),
         zh_source = text_or_empty (dr_source d), zh_first = dr_first d, zh_last = dr_last d,
         zh_software = int (length (filter (\<lambda>s. sr_device s = dr_id d) (db_sw db))),
         zh_macs = agg_distinct w (List.map_filter ir_mac (filter (\<lambda>i. ir_device i = dr_id d) (db_ifaces db)))\<rparr>)"

definition zbx_host_inventory :: "world \<Rightarrow> db \<Rightarrow> host_view list" where
  "zbx_host_inventory w db = map (host_row w db) (concat (map (join_hw db) (concat (map (join_os db) (db_devices db)))))"

section \<open>Software and scans\<close>

record software_view =
  zs_device :: string
  zs_name :: "string option"
  zs_software :: string
  zs_version :: string
  zs_vendor :: string

definition zbx_device_software :: "db \<Rightarrow> software_view list" where
  "zbx_device_software db = concat (map (\<lambda>s. map (\<lambda>d. \<lparr>zs_device = dr_id d, zs_name = host_name d, zs_software = sr_name s,
      zs_version = text_or_empty (sr_version s), zs_vendor = text_or_empty (sr_vendor s)\<rparr>)
      (filter (\<lambda>d. dr_id d = sr_device s) (db_devices db))) (db_sw db))"

record scan_view =
  zr_run :: string
  zr_status :: string
  zr_hosts :: int
  zr_started :: int
  zr_finished :: "int option"
  zr_seconds :: int

text \<open>The cast to \<open>bigint\<close> rounds the seconds, which are microseconds here, to the nearest.\<close>

definition rounded_seconds :: "int \<Rightarrow> int" where
  "rounded_seconds us = (let n = (2 * \<bar>us\<bar> + pg_second) div (2 * pg_second) in if us < 0 then - n else n)"

definition zbx_scan_status :: "world \<Rightarrow> nat \<Rightarrow> db \<Rightarrow> scan_view list" where
  "zbx_scan_status w t db = map (\<lambda>r. \<lparr>zr_run = rn_id r, zr_status = rn_status r, zr_hosts = rn_found r, zr_started = rn_started r,
      zr_finished = rn_finished r, zr_seconds = rounded_seconds (w_now w t - rn_started r)\<rparr>)
    (take 1 (sort_key (\<lambda>r. - rn_started r) (scan_rows w t (db_runs db))))"

section \<open>What Zabbix sees\<close>

definition hw_of :: "db \<Rightarrow> device_row \<Rightarrow> hw_row option" where
  "hw_of db d = find (\<lambda>h. hr_device h = dr_id d) (db_hw db)"

lemma join_hw_single: "facts_ok db \<Longrightarrow> join_hw db (d, o') = [(d, o', hw_of db d)]"
  unfolding join_hw_def hw_of_def facts_ok_def
  by (subst filter_key_find) (auto split: option.splits)

lemma host_inventory_rows:
  assumes "db_inv db"
  shows "zbx_host_inventory w db = map (\<lambda>d. host_row w db (d, os_of db d, hw_of db d)) (db_devices db)"
proof -
  have "facts_ok db" using assms by (simp add: db_inv_def)
  then have "join_os db = (\<lambda>d. [(d, os_of db d)])" "join_hw db = (\<lambda>(d, o'). [(d, o', hw_of db d)])"
    by (auto simp: join_os_single join_hw_single)
  then show ?thesis by (simp add: zbx_host_inventory_def concat_map_singleton o_def)
qed

text \<open>One row per device, and it shows the system the device list of the interface shows.\<close>

lemma host_inventory_agrees:
  assumes "db_inv db"
  shows "map zh_device (zbx_host_inventory w db) = map dr_id (db_devices db) \<and>
    map (\<lambda>v. (zh_device v, zh_type v, zh_os v, zh_source v, zh_last v)) (zbx_host_inventory w db) =
      map (\<lambda>d. let i = item_of (d, os_of db d) in (dl_id i, dl_type i, dl_os i, dl_source i, dl_last i)) (db_devices db)"
  by (simp add: host_inventory_rows [OF assms] host_row_def item_of_def Let_def)

text \<open>One row per installed title and device: no software row is lost or doubled by the join.\<close>

lemma device_software_rows:
  assumes "db_inv db"
  shows "map (\<lambda>v. (zs_device v, zs_software v, zs_version v, zs_vendor v)) (zbx_device_software db) =
    map (\<lambda>s. (sr_device s, sr_name s, text_or_empty (sr_version s), text_or_empty (sr_vendor s))) (db_sw db)"
proof -
  have sub: "sr_device ` set (db_sw db) \<subseteq> device_ids db" using assms by (simp add: db_inv_def children_ok_def)
  have "\<exists>d. filter (\<lambda>d. dr_id d = sr_device s) (db_devices db) = [d] \<and> dr_id d = sr_device s" if "s \<in> set (db_sw db)" for s
    using filter_device [OF assms, of "sr_device s"] sub that by auto
  then have "map (\<lambda>d. (dr_id d, sr_name s, text_or_empty (sr_version s), text_or_empty (sr_vendor s)))
        (filter (\<lambda>d. dr_id d = sr_device s) (db_devices db)) =
      [(sr_device s, sr_name s, text_or_empty (sr_version s), text_or_empty (sr_vendor s))]" if "s \<in> set (db_sw db)" for s
    using that by fastforce
  then show ?thesis
    by (simp add: zbx_device_software_def map_concat o_def concat_map_singleton cong: map_cong)
qed

text \<open>The heartbeat row is a run that started last, and is missing only before the first run.\<close>

lemma scan_status_latest:
  "if db_runs db = [] then zbx_scan_status w t db = []
   else \<exists>r \<in> set (db_runs db). map zr_run (zbx_scan_status w t db) = [rn_id r] \<and>
     (\<forall>r' \<in> set (db_runs db). rn_started r' \<le> rn_started r)"
proof (cases "sort_key (\<lambda>r. - rn_started r) (scan_rows w t (db_runs db))")
  case Nil
  then have "db_runs db = []" by (metis length_sort length_scan_rows length_0_conv)
  then show ?thesis by (simp add: zbx_scan_status_def)
next
  case (Cons r rest)
  then have runs: "set (db_runs db) = insert r (set rest)" by (metis set_sort set_scan_rows list.simps(15))
  have "sorted (map (\<lambda>r. - rn_started r) (r # rest))" using Cons by (metis sorted_sort_key)
  then have "rn_started r' \<le> rn_started r" if "r' \<in> set (db_runs db)" for r' using that by (auto simp: runs)
  moreover have "map zr_run (zbx_scan_status w t db) = [rn_id r]" by (simp add: zbx_scan_status_def Cons)
  moreover have "db_runs db \<noteq> []" using runs by auto
  ultimately show ?thesis using runs by auto
qed

end
