(* ===== verification/Migrate.thy ===== *)
theory Migrate
  imports GoStrings Prelude "HOL-Library.List_Lexorder" "HOL-Library.Char_ord"
begin

text \<open>
  \<open>internal/store/migrate.go\<close>: the migrations embedded in the program, applied in the order of
  their file names, each in a transaction of its own that also records its version. The schema
  is a value of any type and what a script does to it a parameter (\<open>mw_exec\<close>), as are the
  failures of statements and of commits whose answer is lost.
\<close>

section \<open>The service and the files\<close>

record 's mig_world =
  mw_fails :: "nat \<Rightarrow> go_error option"
  mw_lost :: "nat \<Rightarrow> bool"
  mw_exec :: "string \<Rightarrow> 's \<Rightarrow> go_error + 's"

text \<open>The database: a statement counter, the table \<open>schema_migrations\<close> (if it exists), the schema.\<close>

record 's mig_db =
  md_tick :: nat
  md_table :: bool
  md_versions :: "string list"
  md_schema :: 's

text \<open>\<open>embed.FS\<close>: the entries of the directory with \<open>IsDir\<close>, and \<open>ReadFile\<close>.\<close>

record migrations_fs =
  fs_entries :: "go_error + (string \<times> bool) list"
  fs_read :: "string \<Rightarrow> go_error + string"

definition mig_tick :: "'s mig_db \<Rightarrow> 's mig_db" where
  "mig_tick db = db\<lparr>md_tick := Suc (md_tick db)\<rparr>"

definition mig_stmt :: "'s mig_world \<Rightarrow> ('s mig_db \<Rightarrow> go_error + 'a \<times> 's mig_db) \<Rightarrow> 's mig_db \<Rightarrow>
    (go_error + 'a) \<times> 's mig_db" where
  "mig_stmt w f db =
     (case mw_fails w (md_tick db) of
        Some e \<Rightarrow> (Inl e, mig_tick db)
      | None \<Rightarrow> (case f (mig_tick db) of Inl e \<Rightarrow> (Inl e, mig_tick db) | Inr (x, db') \<Rightarrow> (Inr x, db')))"

definition create_table :: "'s mig_world \<Rightarrow> 's mig_db \<Rightarrow> (go_error + unit) \<times> 's mig_db" where
  "create_table w = mig_stmt w (\<lambda>db. Inr ((), db\<lparr>md_table := True,
     md_versions := (if md_table db then md_versions db else [])\<rparr>))"

definition version_exists :: "'s mig_world \<Rightarrow> string \<Rightarrow> 's mig_db \<Rightarrow> (go_error + bool) \<times> 's mig_db" where
  "version_exists w v = mig_stmt w (\<lambda>db. Inr (v \<in> set (md_versions db), db))"

definition exec_script :: "'s mig_world \<Rightarrow> string \<Rightarrow> 's mig_db \<Rightarrow> (go_error + unit) \<times> 's mig_db" where
  "exec_script w script = mig_stmt w (\<lambda>db. case mw_exec w script (md_schema db) of
     Inl e \<Rightarrow> Inl e | Inr s \<Rightarrow> Inr ((), db\<lparr>md_schema := s\<rparr>))"

definition insert_version :: "'s mig_world \<Rightarrow> string \<Rightarrow> 's mig_db \<Rightarrow> (go_error + unit) \<times> 's mig_db" where
  "insert_version w v = mig_stmt w (\<lambda>db.
     if v \<in> set (md_versions db) then Inl (ErrPg (UniqueViolation ''schema_migrations_pkey''))
     else Inr ((), db\<lparr>md_versions := md_versions db @ [v]\<rparr>))"

text \<open>\<open>pgx.BeginFunc\<close>\<close>

definition back_to :: "'s mig_db \<Rightarrow> 's mig_db \<Rightarrow> 's mig_db" where
  "back_to before after = before\<lparr>md_tick := md_tick after\<rparr>"

definition begin_func :: "'s mig_world \<Rightarrow> ('s mig_db \<Rightarrow> (go_error + unit) \<times> 's mig_db) \<Rightarrow> 's mig_db \<Rightarrow>
    (go_error + unit) \<times> 's mig_db" where
  "begin_func w body db =
     (case mig_stmt w (\<lambda>db. Inr ((), db)) db of
        (Inl e, db1) \<Rightarrow> (Inl e, db1)
      | (Inr _, db1) \<Rightarrow>
          (case body db1 of
             (Inl e, db2) \<Rightarrow> (Inl e, back_to db1 db2)
           | (Inr _, db2) \<Rightarrow>
               (case mw_fails w (md_tick db2) of
                  Some e \<Rightarrow> (Inl e, if mw_lost w (md_tick db2) then mig_tick db2 else back_to db1 (mig_tick db2))
                | None \<Rightarrow> (Inr (), mig_tick db2))))"

section \<open>Migrate\<close>

definition version_of :: "string \<Rightarrow> string" where
  "version_of f = trim_suffix f ''.sql''"

definition migration_files :: "(string \<times> bool) list \<Rightarrow> string list" where
  "migration_files entries = sort (map fst (filter (\<lambda>(n, dir). \<not> dir \<and> has_suffix n ''.sql'') entries))"

definition apply_file :: "'s mig_world \<Rightarrow> string \<Rightarrow> string \<Rightarrow> 's mig_db \<Rightarrow> (go_error + unit) \<times> 's mig_db" where
  "apply_file w f script = begin_func w (\<lambda>db.
     case exec_script w script db of
       (Inl e, db1) \<Rightarrow> (Inl (ErrWrap (''apply '' @ f @ '': '') e), db1)
     | (Inr _, db1) \<Rightarrow> insert_version w (version_of f) db1)"

fun migrate_files :: "'s mig_world \<Rightarrow> migrations_fs \<Rightarrow> string list \<Rightarrow> string list \<Rightarrow> 's mig_db \<Rightarrow>
    (string list \<times> go_error option) \<times> 's mig_db" where
  "migrate_files w fs [] applied db = ((applied, None), db)"
| "migrate_files w fs (f # files) applied db =
     (case version_exists w (version_of f) db of
        (Inl e, db1) \<Rightarrow> ((applied, Some e), db1)
      | (Inr True, db1) \<Rightarrow> migrate_files w fs files applied db1
      | (Inr False, db1) \<Rightarrow>
          (case fs_read fs (''migrations/'' @ f) of
             Inl e \<Rightarrow> ((applied, Some e), db1)
           | Inr script \<Rightarrow>
               (case apply_file w f script db1 of
                  (Inl e, db2) \<Rightarrow> ((applied, Some e), db2)
                | (Inr _, db2) \<Rightarrow> migrate_files w fs files (applied @ [version_of f]) db2)))"

definition Migrate :: "'s mig_world \<Rightarrow> migrations_fs \<Rightarrow> 's mig_db \<Rightarrow> (string list \<times> go_error option) \<times> 's mig_db" where
  "Migrate w fs db =
     (case create_table w db of
        (Inl e, db1) \<Rightarrow> (([], Some (ErrWrap ''create schema_migrations: '' e)), db1)
      | (Inr _, db1) \<Rightarrow>
          (case fs_entries fs of
             Inl e \<Rightarrow> (([], Some e), db1)
           | Inr entries \<Rightarrow> migrate_files w fs (migration_files entries) [] db1))"

section \<open>The recorded history\<close>

text \<open>The schema that running the scripts of these versions one after another gives.\<close>

fun replay :: "'s mig_world \<Rightarrow> migrations_fs \<Rightarrow> string list \<Rightarrow> 's \<Rightarrow> 's option" where
  "replay w fs [] s = Some s"
| "replay w fs (v # vs) s =
     (case fs_read fs (''migrations/'' @ v @ ''.sql'') of
        Inl e \<Rightarrow> None
      | Inr script \<Rightarrow> (case mw_exec w script s of Inl e \<Rightarrow> None | Inr s' \<Rightarrow> replay w fs vs s'))"

lemma replay_append:
  "replay w fs (us @ vs) s = (case replay w fs us s of None \<Rightarrow> None | Some s' \<Rightarrow> replay w fs vs s')"
  by (induction us arbitrary: s) (auto split: sum.splits option.splits)

definition history :: "'s mig_world \<Rightarrow> migrations_fs \<Rightarrow> 's \<Rightarrow> 's mig_db \<Rightarrow> bool" where
  "history w fs base db \<longleftrightarrow> md_table db \<and> distinct (md_versions db) \<and>
     replay w fs (md_versions db) base = Some (md_schema db)"

lemma mig_stmtE:
  assumes "mig_stmt w f db = (r, db')"
  obtains e where "r = Inl e" and "db' = mig_tick db"
  | x where "r = Inr x" and "f (mig_tick db) = Inr (x, db')"
  using assms by (auto simp: mig_stmt_def split: option.splits sum.splits)

lemma mig_tick_simps [simp]:
  "md_versions (mig_tick db) = md_versions db" "md_schema (mig_tick db) = md_schema db"
  "md_table (mig_tick db) = md_table db" "history w fs base (mig_tick db) = history w fs base db"
  by (simp_all add: mig_tick_def history_def)

lemma back_to_simps [simp]:
  "md_versions (back_to a b) = md_versions a" "md_schema (back_to a b) = md_schema a" "md_table (back_to a b) = md_table a"
  by (simp_all add: back_to_def)

lemma version_file: "has_suffix f ''.sql'' \<Longrightarrow> version_of f @ ''.sql'' = f"
  by (auto simp: version_of_def trim_suffix_def has_suffix_iff)

text \<open>A migration is applied with its version, or neither is.\<close>

lemma exec_script_cases:
  assumes "exec_script w script db = (r, db')"
  shows "md_versions db' = md_versions db \<and> md_table db' = md_table db \<and>
    (case r of Inl e \<Rightarrow> md_schema db' = md_schema db | Inr u \<Rightarrow> mw_exec w script (md_schema db) = Inr (md_schema db'))"
  using assms by (auto simp: exec_script_def elim!: mig_stmtE split: sum.splits)

lemma insert_version_cases:
  assumes "insert_version w v db = (r, db')"
  shows "md_schema db' = md_schema db \<and> md_table db' = md_table db \<and>
    (case r of Inl e \<Rightarrow> md_versions db' = md_versions db
     | Inr u \<Rightarrow> v \<notin> set (md_versions db) \<and> md_versions db' = md_versions db @ [v])"
  using assms by (auto simp: insert_version_def elim!: mig_stmtE split: if_splits)

lemma begin_func_cases:
  assumes "begin_func w body db = (r, db')"
  shows "(md_versions db' = md_versions db \<and> md_schema db' = md_schema db \<and> md_table db' = md_table db \<and> r \<noteq> Inr ()) \<or>
    (\<exists>u db2. body (mig_tick db) = (Inr u, db2) \<and> db' = mig_tick db2)"
proof (cases "mw_fails w (md_tick db)")
  case None
  then have q: "mig_stmt w (\<lambda>db. Inr ((), db)) db = (Inr (), mig_tick db)" by (simp add: mig_stmt_def)
  obtain rb db2 where b: "body (mig_tick db) = (rb, db2)" by (cases "body (mig_tick db)")
  from assms q b show ?thesis
    by (cases rb) (auto simp: begin_func_def split: option.splits if_splits)
qed (use assms in \<open>auto simp: begin_func_def mig_stmt_def\<close>)

lemma apply_file_cases:
  assumes "apply_file w f script db = (r, db')"
  shows "(md_versions db' = md_versions db \<and> md_schema db' = md_schema db \<and> md_table db' = md_table db \<and> r \<noteq> Inr ()) \<or>
    (version_of f \<notin> set (md_versions db) \<and> md_versions db' = md_versions db @ [version_of f] \<and>
       mw_exec w script (md_schema db) = Inr (md_schema db') \<and> md_table db' = md_table db)"
  using begin_func_cases [OF assms [unfolded apply_file_def]]
proof (elim disjE exE conjE)
  fix u db2
  assume b: "(case exec_script w script (mig_tick db) of
      (Inl e, db1) \<Rightarrow> (Inl (ErrWrap (''apply '' @ f @ '': '') e), db1)
    | (Inr _, db1) \<Rightarrow> insert_version w (version_of f) db1) = (Inr u, db2)" and db': "db' = mig_tick db2"
  obtain r1 db1 where x: "exec_script w script (mig_tick db) = (r1, db1)" by (cases "exec_script w script (mig_tick db)")
  from b x obtain u1 where r1: "r1 = Inr u1" and i: "insert_version w (version_of f) db1 = (Inr u, db2)" by (cases r1) auto
  from exec_script_cases [OF x] insert_version_cases [OF i] show ?thesis by (simp add: r1 db')
qed simp

lemma history_snoc:
  assumes "history w fs base db" and "v \<notin> set (md_versions db)" and "md_versions db' = md_versions db @ [v]"
    and "fs_read fs (''migrations/'' @ v @ ''.sql'') = Inr script" and "mw_exec w script (md_schema db) = Inr (md_schema db')"
    and "md_table db'"
  shows "history w fs base db'"
  using assms by (simp add: history_def replay_append)

lemma migrate_files_history:
  assumes "migrate_files w fs files applied0 db = ((applied, err), db')" and "history w fs base db"
    and "\<forall>f \<in> set files. has_suffix f ''.sql''"
  shows "history w fs base db' \<and> (\<exists>new lost. applied = applied0 @ new \<and> md_versions db' = md_versions db @ new @ lost \<and>
    (lost \<noteq> [] \<longrightarrow> err \<noteq> None \<and> length lost = 1))"
  using assms
proof (induction files arbitrary: applied0 db)
  case Nil
  then show ?case by auto
next
  case (Cons f files)
  obtain r db1 where q: "version_exists w (version_of f) db = (r, db1)" by (cases "version_exists w (version_of f) db")
  then have db1: "md_versions db1 = md_versions db" "md_schema db1 = md_schema db" "md_table db1 = md_table db"
    by (auto simp: version_exists_def elim!: mig_stmtE)
  then have h1: "history w fs base db1" using Cons.prems(2) by (simp add: history_def)
  show ?case
  proof (cases r)
    case (Inl e)
    with Cons.prems(1) q have "applied = applied0" "db' = db1" by auto
    with h1 db1 show ?thesis by simp
  next
    case (Inr b)
    show ?thesis
    proof (cases b)
      case True
      with Cons.prems(1) q Inr have "migrate_files w fs files applied0 db1 = ((applied, err), db')" by simp
      from Cons.IH [OF this h1] Cons.prems(3) db1 show ?thesis by simp
    next
      case False
      show ?thesis
      proof (cases "fs_read fs (''migrations/'' @ f)")
        case (Inl e)
        with Cons.prems(1) q Inr False have "applied = applied0" "db' = db1" by auto
        with h1 db1 show ?thesis by simp
      next
        case (Inr script)
        obtain r2 db2 where a: "apply_file w f script db1 = (r2, db2)" by (cases "apply_file w f script db1")
        have "f = version_of f @ ''.sql''" using Cons.prems(3) version_file by simp
        then have rd: "fs_read fs (''migrations/'' @ version_of f @ ''.sql'') = Inr script" using Inr by simp
        note step = Cons.prems(1) [simplified, unfolded q, simplified \<open>r = Inr b\<close> False Inr a prod.case sum.case bool.case]
        have new: "history w fs base db2" if "md_versions db2 \<noteq> md_versions db1"
          using apply_file_cases [OF a] that h1 history_snoc [OF h1 _ _ rd, of db2] by (auto simp: history_def)
        show ?thesis
        proof (cases r2)
          case (Inl e)
          with step have "applied = applied0" "db' = db2" "err = Some e" by auto
          with apply_file_cases [OF a] new h1 db1 show ?thesis
            by (cases "md_versions db2 = md_versions db1") (auto simp: history_def)
        next
          case (Inr u)
          then have v: "md_versions db2 = md_versions db1 @ [version_of f]" using apply_file_cases [OF a] by auto
          from step Inr have "migrate_files w fs files (applied0 @ [version_of f]) db2 = ((applied, err), db')" by simp
          from Cons.IH [OF this new] v Cons.prems(3) db1 show ?thesis by auto
        qed
      qed
    qed
  qed
qed

section \<open>What a migration run does\<close>

definition migrated :: "'s mig_world \<Rightarrow> migrations_fs \<Rightarrow> 's \<Rightarrow> 's mig_db \<Rightarrow> bool" where
  "migrated w fs base db \<longleftrightarrow> (if md_table db then history w fs base db else md_schema db = base)"

definition recorded :: "'s mig_db \<Rightarrow> string list" where
  "recorded db = (if md_table db then md_versions db else [])"

lemma create_table_cases:
  assumes "create_table w db = (r, db')"
  shows "(case r of Inl e \<Rightarrow> md_table db' = md_table db \<and> md_versions db' = md_versions db | Inr u \<Rightarrow> md_table db' \<and> md_versions db' = recorded db) \<and>
    md_schema db' = md_schema db"
  using assms by (auto simp: create_table_def recorded_def elim!: mig_stmtE)

lemma files_suffix: "f \<in> set (migration_files es) \<Longrightarrow> has_suffix f ''.sql''"
  by (auto simp: migration_files_def)

text \<open>
  (C22) The version table and the schema never disagree. Whatever statement, script, file or
  commit fails, and even if the answer to a commit is lost, the schema afterwards is what the
  scripts of the recorded versions make of the original one, run in the recorded order; the
  versions a run reports are new and recorded, and at most one more is recorded than reported,
  by a run that ended with an error.
\<close>

theorem Migrate_keeps_history:
  assumes "migrated w fs base db" and "Migrate w fs db = ((applied, err), db')"
  shows "migrated w fs base db' \<and> (\<exists>lost. recorded db' = recorded db @ applied @ lost \<and>
    (lost \<noteq> [] \<longrightarrow> err \<noteq> None \<and> length lost = 1))"
proof -
  obtain r db1 where c: "create_table w db = (r, db1)" by (cases "create_table w db")
  note db1 = create_table_cases [OF c]
  have m1: "history w fs base db1" if "r = Inr u" for u
    using assms(1) db1 that by (auto simp: migrated_def history_def recorded_def split: if_splits)
  show ?thesis
  proof (cases r)
    case (Inl e)
    with assms(2) c have "applied = []" "db' = db1" by (auto simp: Migrate_def)
    with db1 Inl assms(1) show ?thesis by (auto simp: migrated_def recorded_def history_def split: if_splits)
  next
    case (Inr u)
    note h = m1 [OF Inr]
    then have t: "recorded db1 = recorded db" using db1 Inr by (simp add: history_def recorded_def)
    show ?thesis
    proof (cases "fs_entries fs")
      case (Inl e)
      with assms(2) c Inr have "applied = []" "db' = db1" by (auto simp: Migrate_def)
      with h t show ?thesis by (simp add: migrated_def history_def)
    next
      case es: (Inr es)
      with assms(2) c Inr have "migrate_files w fs (migration_files es) [] db1 = ((applied, err), db')"
        by (simp add: Migrate_def)
      from migrate_files_history [OF this h] files_suffix have "history w fs base db'"
        and "\<exists>new lost. applied = new \<and> md_versions db' = md_versions db1 @ new @ lost \<and>
          (lost \<noteq> [] \<longrightarrow> err \<noteq> None \<and> length lost = 1)" by auto
      with h t show ?thesis by (auto simp: migrated_def recorded_def history_def)
    qed
  qed
qed

lemma migrate_files_done:
  assumes "migrate_files w fs files applied0 db = ((applied, None), db')" and "distinct (map version_of files)"
  shows "applied = applied0 @ filter (\<lambda>v. v \<notin> set (md_versions db)) (map version_of files) \<and>
    md_versions db' = md_versions db @ filter (\<lambda>v. v \<notin> set (md_versions db)) (map version_of files) \<and> md_table db' = md_table db"
  using assms
proof (induction files arbitrary: applied0 db)
  case (Cons f files)
  obtain r db1 where q: "version_exists w (version_of f) db = (r, db1)" by (cases "version_exists w (version_of f) db")
  from Cons.prems(1) q obtain b where r: "r = Inr b" by (cases r) auto
  with q have db1: "md_versions db1 = md_versions db" "md_table db1 = md_table db" "b = (version_of f \<in> set (md_versions db))"
    by (auto simp: version_exists_def elim!: mig_stmtE)
  show ?case
  proof (cases b)
    case True
    with Cons.prems(1) q r have "migrate_files w fs files applied0 db1 = ((applied, None), db')" by simp
    from Cons.IH [OF this] Cons.prems(2) db1 True show ?thesis by simp
  next
    case False
    with Cons.prems(1) q r obtain script db2 u where a: "apply_file w f script db1 = (Inr u, db2)"
      and rest: "migrate_files w fs files (applied0 @ [version_of f]) db2 = ((applied, None), db')"
      by (auto split: sum.splits prod.splits)
    from apply_file_cases [OF a] have v: "md_versions db2 = md_versions db1 @ [version_of f]" "md_table db2 = md_table db1" by auto
    have "filter (\<lambda>v. v \<notin> set (md_versions db2)) (map version_of files) =
        filter (\<lambda>v. v \<notin> set (md_versions db)) (map version_of files)"
    proof (rule filter_cong)
      fix x
      assume "x \<in> set (map version_of files)"
      moreover have "version_of f \<notin> set (map version_of files)" using Cons.prems(2) by simp
      ultimately have "x \<noteq> version_of f" by blast
      then show "(x \<notin> set (md_versions db2)) = (x \<notin> set (md_versions db))" using v db1 by simp
    qed simp
    with Cons.IH [OF rest] Cons.prems(2) v db1 False show ?thesis by simp
  qed
qed simp

lemma migrate_files_skip:
  assumes "\<And>t. mw_fails w t = None" and "version_of ` set files \<subseteq> set (md_versions db)"
  shows "\<exists>n. migrate_files w fs files applied db = ((applied, None), db\<lparr>md_tick := n\<rparr>)"
  using assms(2)
proof (induction files arbitrary: db)
  case Nil
  show ?case by (rule exI [of _ "md_tick db"]) simp
next
  case (Cons f files)
  then have "version_exists w (version_of f) db = (Inr True, mig_tick db)"
    by (simp add: version_exists_def mig_stmt_def assms(1))
  moreover obtain n where "migrate_files w fs files applied (mig_tick db) = ((applied, None), (mig_tick db)\<lparr>md_tick := n\<rparr>)"
    using Cons.IH [of "mig_tick db"] Cons.prems by auto
  ultimately show ?case by (auto simp: mig_tick_def)
qed

lemma version_of_inj: "inj_on version_of {f. has_suffix f ''.sql''}"
  by (rule inj_onI) (metis mem_Collect_eq version_file)

lemma distinct_versions:
  assumes "distinct (map fst es)"
  shows "distinct (map version_of (migration_files es))"
proof -
  have "distinct (migration_files es)"
    using assms by (simp add: migration_files_def distinct_map_filter)
  moreover have "inj_on version_of (set (migration_files es))"
    by (rule inj_on_subset [OF version_of_inj]) (auto intro: files_suffix)
  ultimately show ?thesis by (simp add: distinct_map)
qed


section \<open>A database for the examples\<close>

text \<open>The schema is the list of the scripts that have run; a script \<open>bad\<close> is refused.\<close>

definition demo_fs :: migrations_fs where
  "demo_fs = \<lparr>fs_entries = Inr [(''b.sql'', False), (''a.sql'', False), (''old'', True)], fs_read = Inr\<rparr>"

definition demo_mig :: "string list mig_world" where
  "demo_mig = \<lparr>mw_fails = (\<lambda>_. None), mw_lost = (\<lambda>_. False), mw_exec = (\<lambda>script s. Inr (s @ [script]))\<rparr>"

definition demo_new :: "string list mig_db" where
  "demo_new = \<lparr>md_tick = 0, md_table = False, md_versions = [], md_schema = []\<rparr>"

lemma demo_migrate:
  "\<exists>n. Migrate demo_mig demo_fs demo_new = (([''a'', ''b''], None), \<lparr>md_tick = n, md_table = True,
     md_versions = [''a'', ''b''], md_schema = [''migrations/a.sql'', ''migrations/b.sql'']\<rparr>)"
  by (simp add: Migrate_def demo_mig_def demo_fs_def demo_new_def create_table_def mig_stmt_def mig_tick_def
      migration_files_def has_suffix_def has_prefix_def version_of_def trim_suffix_def version_exists_def apply_file_def
      begin_func_def exec_script_def insert_version_def)

lemma Migrate_keeps_history_witness:
  "\<exists>db'. migrated demo_mig demo_fs [] db' \<and> recorded db' = [''a'', ''b'']"
proof -
  obtain db' where m: "Migrate demo_mig demo_fs demo_new = (([''a'', ''b''], None), db')" using demo_migrate by blast
  have "migrated demo_mig demo_fs [] demo_new" by (simp add: migrated_def demo_new_def)
  from Migrate_keeps_history [OF this m] show ?thesis by (auto simp: recorded_def demo_new_def split: if_splits)
qed


end
