(* ===== verification/Http.thy ===== *)
theory Http
  imports Queries Auth Scheduler
begin

text \<open>
  The parts of \<open>internal/api/server.go\<close> every handler is built from: the server and its
  options, requests and replies, the session cookie, the client's address, the JSON helpers,
  and how the rows of the store are written out. A request holds what \<open>net/http\<close> has parsed
  of it (segments of the path, query pairs, cookies); a background scan a handler starts is
  part of its reply.
\<close>

section \<open>Requests and replies\<close>

record request =
  rq_method :: string
  rq_path :: "string list"
  rq_query :: "(string \<times> string) list"
  rq_cookies :: "(string \<times> string) list"
  rq_forwarded :: string
  rq_remote :: string
  rq_body :: string

record cookie =
  ck_name :: string
  ck_value :: string
  ck_secure :: bool
  ck_expires :: "int option"
  ck_maxage :: int

datatype body = JsonBody json | TextBody string

record reply =
  rp_status :: nat
  rp_headers :: "(string \<times> string) list"
  rp_cookie :: "cookie option"
  rp_body :: body
  rp_scan :: "scan_options option"

text \<open>A plain reply of a handler outside the package: status, headers and text.\<close>

type_synonym plain_handler = "request \<Rightarrow> nat \<times> (string \<times> string) list \<times> string"

definition plain_reply :: "nat \<times> (string \<times> string) list \<times> string \<Rightarrow> reply" where
  "plain_reply = (\<lambda>(status, headers, t). \<lparr>rp_status = status, rp_headers = headers, rp_cookie = None,
     rp_body = TextBody t, rp_scan = None\<rparr>)"

text \<open>A handler: it runs statements, and always replies.\<close>

type_synonym handler = "world \<Rightarrow> db \<Rightarrow> reply \<times> db"

section \<open>The server\<close>

record server =
  sv_vault :: vault
  sv_secret :: string
  sv_ttl :: int
  sv_concurrency :: int
  sv_secure :: bool
  sv_static :: "plain_handler option"

record server_options =
  so_secret :: string
  so_ttl :: int
  so_workers :: int
  so_secure :: bool
  so_static :: "plain_handler option"

definition api_New :: "vault \<Rightarrow> server_options \<Rightarrow> server" where
  "api_New v opts =
     \<lparr>sv_vault = v, sv_secret = so_secret opts,
      sv_ttl = (if so_ttl opts \<le> 0 then 12 * 3600 * pg_second else so_ttl opts),
      sv_concurrency = (if so_workers opts \<le> 0 then 32 else so_workers opts),
      sv_secure = so_secure opts, sv_static = so_static opts\<rparr>"

text \<open>
  What the handlers use of libraries outside the repository: HMAC and bcrypt, secretbox and the
  random nonce of the \<open>t\<close>-th statement; and of the standard library what is text only: how a
  time prints in JSON and in the CSV export, the message of a decoding error, a quoted
  string, the order in which a map of counts is ranged over, and the replies the multiplexer
  makes itself (redirects to \<open>/api/\<close>, 404 and 405).
\<close>

record api_env =
  ap_mac :: hmac
  ap_bcrypt :: bcrypt
  ap_box :: secretbox
  ap_nonce :: "nat \<Rightarrow> go_error + string"
  ap_time :: "int \<Rightarrow> string"
  ap_csvtime :: "int \<Rightarrow> string"
  ap_jsonerr :: "string \<Rightarrow> string"
  ap_quote :: "string \<Rightarrow> string"
  ap_range :: "(string \<rightharpoonup> int) \<Rightarrow> string list"
  ap_mux :: plain_handler

section \<open>JSON helpers\<close>

definition writeJSON :: "nat \<Rightarrow> json \<Rightarrow> reply" where
  "writeJSON status v = \<lparr>rp_status = status, rp_headers = [(''Content-Type'', ''application/json'')],
     rp_cookie = None, rp_body = JsonBody v, rp_scan = None\<rparr>"

definition writeError :: "nat \<Rightarrow> string \<Rightarrow> reply" where
  "writeError status msg = writeJSON status (JObj [(''error'', JStr msg)])"

text \<open>
  \<open>Decode\<close> reads the first value of a body of at most \<open>1 << 20\<close> bytes and ignores what follows;
  \<open>DisallowUnknownFields\<close> makes a key that is no field an error.
\<close>

definition first_json :: "string \<Rightarrow> json option" where
  "first_json text = (let b = take 1048576 text in map_option fst (json_value (2 * length b + 1) b))"

fun strict_members :: "'r fields_of \<Rightarrow> (string \<times> json) list \<Rightarrow> 'r \<Rightarrow> 'r option" where
  "strict_members fs [] r = Some r"
| "strict_members fs ((k, v) # kvs) r =
     (case find_field fs k of
        None \<Rightarrow> None
      | Some d \<Rightarrow> (case d v r of None \<Rightarrow> None | Some r' \<Rightarrow> strict_members fs kvs r'))"

fun dec_strict :: "'r fields_of \<Rightarrow> 'r decoder" where
  "dec_strict fs JNull r = Some r"
| "dec_strict fs (JObj kvs) r = strict_members fs kvs r"
| "dec_strict fs v r = None"

definition read_body :: "'r fields_of \<Rightarrow> 'r \<Rightarrow> request \<Rightarrow> 'r option" where
  "read_body fs zero rq = Option.bind (first_json (rq_body rq)) (\<lambda>v. dec_strict fs v zero)"

definition readJSON :: "api_env \<Rightarrow> 'r fields_of \<Rightarrow> 'r \<Rightarrow> request \<Rightarrow> ('r \<Rightarrow> handler) \<Rightarrow> handler" where
  "readJSON env fs zero rq k = (\<lambda>w db. case read_body fs zero rq of
     None \<Rightarrow> (writeError 400 (''invalid request body: '' @ ap_jsonerr env (rq_body rq)), db)
   | Some r \<Rightarrow> k r w db)"

text \<open>\<open>*bool\<close> and \<open>map[string]string\<close> fields\<close>

fun dec_bool_ptr :: "bool option decoder" where
  "dec_bool_ptr JNull cur = Some None"
| "dec_bool_ptr (JBool b) cur = Some (Some b)"
| "dec_bool_ptr v cur = None"

fun dec_entries :: "(string \<times> json) list \<Rightarrow> (string \<times> string) list \<Rightarrow> (string \<times> string) list option" where
  "dec_entries [] m = Some m"
| "dec_entries ((k, v) # kvs) m =
     (case dec_str v [] of None \<Rightarrow> None | Some s \<Rightarrow> dec_entries kvs (filter (\<lambda>(k', _). k' \<noteq> k) m @ [(k, s)]))"

fun dec_string_map :: "(string \<times> string) list decoder" where
  "dec_string_map JNull cur = Some []"
| "dec_string_map (JObj kvs) cur = dec_entries kvs cur"
| "dec_string_map v cur = None"

section \<open>Steps of a handler\<close>

definition serverError :: reply where
  "serverError = writeError 500 ''internal error''"

text \<open>\<open>if err != nil { s.serverError(w, err); return }\<close>\<close>

definition or_500 :: "'a sql \<Rightarrow> ('a \<Rightarrow> handler) \<Rightarrow> handler" where
  "or_500 m k = (\<lambda>w db. case m w db of (Inl e, db') \<Rightarrow> (serverError, db') | (Inr x, db') \<Rightarrow> k x w db')"

text \<open>\<open>_ = \<dots>\<close>: the outcome does not matter.\<close>

definition best_effort :: "'a sql \<Rightarrow> handler \<Rightarrow> handler" where
  "best_effort m k = (\<lambda>w db. k w (snd (m w db)))"

definition respond :: "reply \<Rightarrow> handler" where
  "respond r = (\<lambda>w db. (r, db))"

section \<open>The client\<close>

definition last_index :: "char \<Rightarrow> string \<Rightarrow> nat option" where
  "last_index c s = (case index_byte (rev s) c of None \<Rightarrow> None | Some i \<Rightarrow> Some (length s - 1 - i))"

text \<open>\<open>net.SplitHostPort\<close>: the host, if there is no error.\<close>

definition split_host :: "string \<Rightarrow> string option" where
  "split_host s =
     (case last_index (CHR '':'') s of
        None \<Rightarrow> None
      | Some i \<Rightarrow>
          (let checked = (\<lambda>host j k. if CHR ''['' \<in> set (drop j s) \<or> CHR '']'' \<in> set (drop k s) then None else Some host)
           in if has_prefix s ''[''
              then (case index_byte s (CHR '']'') of
                      None \<Rightarrow> None
                    | Some e \<Rightarrow> if e + 1 = i then checked (take (e - 1) (drop 1 s)) 1 (e + 1) else None)
              else (let host = take i s in if CHR '':'' \<in> set host then None else checked host 0 0)))"

definition clientIP :: "request \<Rightarrow> string" where
  "clientIP rq =
     (if rq_forwarded rq \<noteq> [] then trim_space (hd (split_on (CHR '','') (rq_forwarded rq)))
      else (case split_host (rq_remote rq) of Some host \<Rightarrow> host | None \<Rightarrow> rq_remote rq))"

definition query_get :: "request \<Rightarrow> string \<Rightarrow> string" where
  "query_get rq key = (case map_of (rq_query rq) key of None \<Rightarrow> [] | Some v \<Rightarrow> v)"

definition queryInt :: "request \<Rightarrow> string \<Rightarrow> int \<Rightarrow> int" where
  "queryInt rq key d =
     (let v = query_get rq key in if v \<noteq> [] then (case atoi v of Some n \<Rightarrow> n | None \<Rightarrow> d) else d)"

section \<open>Sessions\<close>

definition sessionCookie :: string where "sessionCookie = ''mw_session''"

text \<open>\<open>Time.Unix\<close> of an instant in microseconds\<close>

definition unix :: "int \<Rightarrow> int" where "unix t = t div pg_second"

definition claimsFromRequest :: "api_env \<Rightarrow> server \<Rightarrow> int \<Rightarrow> request \<Rightarrow> go_error + claims" where
  "claimsFromRequest env sv now rq =
     (case map_of (rq_cookies rq) sessionCookie of
        None \<Rightarrow> Inl (ErrText ''http: named cookie not present'')
      | Some v \<Rightarrow> VerifyToken (ap_mac env) (sv_secret sv) (unix now) v)"

definition with_auth :: "api_env \<Rightarrow> server \<Rightarrow> request \<Rightarrow> (claims \<Rightarrow> handler) \<Rightarrow> handler" where
  "with_auth env sv rq next_h = (\<lambda>w db. case claimsFromRequest env sv (w_clock w (db_tick db)) rq of
     Inl e \<Rightarrow> (writeError 401 ''unauthorized'', db)
   | Inr c \<Rightarrow> next_h c w db)"

definition with_admin :: "api_env \<Rightarrow> server \<Rightarrow> request \<Rightarrow> (claims \<Rightarrow> handler) \<Rightarrow> handler" where
  "with_admin env sv rq next_h = with_auth env sv rq (\<lambda>c.
     if cl_role c \<noteq> RoleAdmin then respond (writeError 403 ''admin role required'') else next_h c)"

definition audit :: "request \<Rightarrow> claims \<Rightarrow> string \<Rightarrow> string \<Rightarrow> (string \<times> json) list \<Rightarrow> handler \<Rightarrow> handler" where
  "audit rq c action tgt detail = best_effort (InsertAudit (cl_name c) action tgt (clientIP rq) detail)"

section \<open>Rows as JSON\<close>

text \<open>\<open>var out []T\<close> stays \<open>nil\<close> without rows, which is written as \<open>null\<close>; \<open>out := []T{}\<close> is \<open>[]\<close>.\<close>

definition nil_slice :: "('a \<Rightarrow> json) \<Rightarrow> 'a list \<Rightarrow> json" where
  "nil_slice f xs = (if xs = [] then JNull else JList (map f xs))"

definition json_int_of :: "int \<Rightarrow> json" where "json_int_of i = JNum (itoa i)"

definition json_time :: "api_env \<Rightarrow> int \<Rightarrow> json" where "json_time env t = JStr (ap_time env t)"

definition json_opt :: "('a \<Rightarrow> json) \<Rightarrow> 'a option \<Rightarrow> json" where
  "json_opt f v = (case v of None \<Rightarrow> JNull | Some x \<Rightarrow> f x)"

definition item_fields :: "api_env \<Rightarrow> device_item \<Rightarrow> (string \<times> json) list" where
  "item_fields env i = [(''id'', JStr (dl_id i)), (''type'', JStr (dl_type i)), (''hostname'', JStr (dl_hostname i)),
     (''primary_ip'', JStr (dl_ip i)), (''os_name'', JStr (dl_os i)), (''source'', JStr (dl_source i)),
     (''last_seen'', json_time env (dl_last i))]"

definition item_json :: "api_env \<Rightarrow> device_item \<Rightarrow> json" where "item_json env i = JObj (item_fields env i)"

definition os_json :: "os_dto \<Rightarrow> json" where
  "os_json x = JObj [(''family'', JStr (od_family x)), (''name'', JStr (od_name x)), (''version'', JStr (od_version x)),
     (''build'', JStr (od_build x)), (''arch'', JStr (od_arch x))]"

definition hw_json :: "hardware_dto \<Rightarrow> json" where
  "hw_json x = JObj [(''vendor'', JStr (hd_vendor x)), (''model'', JStr (hd_model x)), (''serial'', JStr (hd_serial x)),
     (''cpu'', JStr (hd_cpu x)), (''cpu_cores'', json_int_of (hd_cores x)), (''ram_bytes'', json_int_of (hd_ram x))]"

definition iface_json :: "iface_dto \<Rightarrow> json" where
  "iface_json x = JObj [(''name'', JStr (fd_name x)), (''mac'', JStr (fd_mac x)), (''ip'', JStr (fd_ip x)),
     (''speed_mbps'', json_int_of (fd_speed x))]"

definition software_json :: "software_dto \<Rightarrow> json" where
  "software_json x = JObj [(''name'', JStr (sd_name x)), (''version'', JStr (sd_version x)), (''vendor'', JStr (sd_vendor x))]"

definition user_json :: "api_env \<Rightarrow> user_dto \<Rightarrow> json" where
  "user_json env x = JObj [(''username'', JStr (ud_username x)), (''full_name'', JStr (ud_fullname x)),
     (''last_logon'', json_opt (json_time env) (ud_last x)), (''is_local'', JBool (ud_local x))]"

definition detail_json :: "api_env \<Rightarrow> device_detail \<Rightarrow> json" where
  "detail_json env d = JObj (item_fields env (dd_item d) @ [(''serial'', JStr (dd_serial d)),
     (''first_seen'', json_time env (dd_first d)), (''os'', json_opt os_json (dd_os d)),
     (''hardware'', json_opt hw_json (dd_hardware d)), (''interfaces'', JList (map iface_json (dd_ifaces d))),
     (''software'', JList (map software_json (dd_software d))), (''users'', JList (map (user_json env) (dd_users d)))])"

definition agg_json :: "software_agg \<Rightarrow> json" where
  "agg_json a = JObj [(''name'', JStr (sa_name a)), (''version'', JStr (sa_version a)), (''device_count'', json_int_of (sa_count a))]"

definition change_json :: "api_env \<Rightarrow> change_item \<Rightarrow> json" where
  "change_json env c = JObj [(''device_id'', JStr (ci_device c)), (''hostname'', JStr (ci_hostname c)),
     (''field'', JStr (ci_field c)), (''old_value'', JStr (ci_old c)), (''new_value'', JStr (ci_new c)),
     (''ts'', json_time env (ci_ts c))]"

definition scan_json :: "api_env \<Rightarrow> scan_item \<Rightarrow> json" where
  "scan_json env s = JObj [(''id'', JStr (si_id s)), (''started_at'', json_time env (si_started s)),
     (''finished_at'', json_opt (json_time env) (si_finished s)), (''status'', JStr (si_status s)),
     (''targets'', JList (map JStr (si_targets s))), (''discovered'', json_int_of (si_discovered s)),
     (''hosts_found'', json_int_of (si_found s)), (''error'', JStr (si_error s))]"

definition event_json :: "api_env \<Rightarrow> event_item \<Rightarrow> json" where
  "event_json env e = JObj [(''ts'', json_time env (ei_ts e)), (''addr'', JStr (ei_addr e)), (''class'', JStr (ei_class e)),
     (''collector'', JStr (ei_collector e)), (''status'', JStr (ei_status e)), (''changes'', json_int_of (ei_changes e)),
     (''error'', JStr (ei_error e))]"

text \<open>A map is written in the order of its keys.\<close>

definition map_json :: "('a \<Rightarrow> json) \<Rightarrow> (string \<times> 'a) list \<Rightarrow> json" where
  "map_json f m = JObj (map (\<lambda>(k, v). (k, f v)) (sort_key (\<lambda>(k, _). map of_char k :: nat list) m))"

definition types_list :: "api_env \<Rightarrow> (string \<rightharpoonup> int) \<Rightarrow> (string \<times> int) list" where
  "types_list env m = map (\<lambda>t. (t, the (m t))) (ap_range env m)"

definition stats_json :: "api_env \<Rightarrow> stats \<Rightarrow> json" where
  "stats_json env st = JObj [(''total_devices'', json_int_of (ss_total st)), (''seen_last_24h'', json_int_of (ss_seen st)),
     (''by_type'', map_json json_int_of (types_list env (ss_types st))), (''last_scan_at'', json_opt (json_time env) (ss_lastscan st)),
     (''total_software_titles'', json_int_of (ss_titles st))]"

definition target_json :: "target_row \<Rightarrow> json" where
  "target_json t = JObj [(''id'', JStr (tr_id t)), (''name'', JStr (tr_name t)), (''cidrs'', JList (map JStr (tr_cidrs t))),
     (''enabled'', JBool (tr_enabled t))]"

text \<open>\<open>SecretSealed\<close> is tagged \<open>json:"-"\<close> and not written.\<close>

definition credential_json :: "stored_credential \<Rightarrow> json" where
  "credential_json c = JObj [(''id'', JStr (st_id c)), (''name'', JStr (st_name c)), (''kind'', JStr (st_kind c)),
     (''username'', JStr (st_username c)), (''extra'', map_json JStr (st_extra c))]"

definition schedule_json :: "api_env \<Rightarrow> sched_row \<Rightarrow> json" where
  "schedule_json env s = JObj [(''id'', JStr (sc_id s)), (''scan_target_id'', JStr (sc_target s)),
     (''interval_secs'', json_int_of (sc_interval s)), (''enabled'', JBool (sc_enabled s)),
     (''next_run_at'', json_opt (json_time env) (sc_next s))]"

definition audit_json :: "api_env \<Rightarrow> audit_entry \<Rightarrow> json" where
  "audit_json env a = JObj [(''id'', JStr (ae_id a)), (''ts'', json_time env (ae_ts a)), (''actor'', JStr (ae_actor a)),
     (''action'', JStr (ae_action a)), (''target'', JStr (ae_target a)), (''ip'', JStr (ae_ip a)),
     (''detail'', map_json id (ae_detail a))]"

section \<open>CSV\<close>

text \<open>\<open>encoding/csv\<close>: which fields are quoted, and how.\<close>

definition needs_quotes :: "string \<Rightarrow> bool" where
  "needs_quotes f \<longleftrightarrow> f \<noteq> [] \<and>
     (f = [CHR 0x5C, CHR ''.''] \<or> CHR '','' \<in> set f \<or> CHR 0x22 \<in> set f \<or> CHR 0x0A \<in> set f \<or> CHR 0x0D \<in> set f \<or>
      ascii_space (hd f) \<or> 0 < space_len utf8_spaces f)"

definition csv_field :: "string \<Rightarrow> string" where
  "csv_field f = (if needs_quotes f then [CHR 0x22] @ concat (map (\<lambda>c. if c = CHR 0x22 then [c, c] else [c]) f) @ [CHR 0x22] else f)"

definition csv_record :: "string list \<Rightarrow> string" where
  "csv_record fs = join [CHR '',''] (map csv_field fs) @ [CHR 0x0A]"

end
