(* ===== verification/Api.thy ===== *)
theory Api
  imports Http
begin

text \<open>
  The HTTP interface: the handlers of \<open>internal/api\<close> (\<open>server.go\<close>, \<open>handlers_read.go\<close>,
  \<open>handlers_admin.go\<close>, \<open>metrics.go\<close>) statement by statement over the store's methods, and the
  routes of \<open>Server.Handler\<close> with the access each one requires.
\<close>

section \<open>Sessions\<close>

record login_request =
  lq_username :: string
  lq_password :: string

definition login_fields :: "login_request fields_of" where
  "login_fields = [(''username'', at_field lq_username (\<lambda>x r. r\<lparr>lq_username := x\<rparr>) dec_str),
     (''password'', at_field lq_password (\<lambda>x r. r\<lparr>lq_password := x\<rparr>) dec_str)]"

definition session_cookie :: "server \<Rightarrow> string \<Rightarrow> int option \<Rightarrow> int \<Rightarrow> cookie" where
  "session_cookie sv v expires maxage = \<lparr>ck_name = sessionCookie, ck_value = v, ck_secure = sv_secure sv,
     ck_expires = expires, ck_maxage = maxage\<rparr>"

definition login_failed :: "request \<Rightarrow> string \<Rightarrow> handler" where
  "login_failed rq username = best_effort (InsertAudit username ''login_failed'' [] (clientIP rq) [])
     (respond (writeError 401 ''invalid credentials''))"

definition login_granted :: "api_env \<Rightarrow> server \<Rightarrow> request \<Rightarrow> appuser_row \<Rightarrow> handler" where
  "login_granted env sv rq u = (\<lambda>w db.
     let expires = w_clock w (db_tick db) + sv_ttl sv;
         token = IssueToken (ap_mac env) (sv_secret sv)
           \<lparr>cl_user = au_id u, cl_name = au_username u, cl_role = au_role u, cl_expires = unix expires\<rparr>
     in best_effort (TouchLogin (au_id u))
          (best_effort (InsertAudit (au_username u) ''login'' [] (clientIP rq) [])
            (respond ((writeJSON 200 (JObj [(''role'', JStr (au_role u)), (''username'', JStr (au_username u))]))
               \<lparr>rp_cookie := Some (session_cookie sv token (Some expires) 0)\<rparr>))) w db)"

definition handleLogin :: "api_env \<Rightarrow> server \<Rightarrow> request \<Rightarrow> handler" where
  "handleLogin env sv rq = readJSON env login_fields \<lparr>lq_username = [], lq_password = []\<rparr> rq (\<lambda>req w db.
     case GetUserByUsername (lq_username req) w db of
       (Inl e, db1) \<Rightarrow> login_failed rq (lq_username req) w db1
     | (Inr u, db1) \<Rightarrow>
         if CheckPassword (ap_bcrypt env) (au_hash u) (lq_password req) then login_granted env sv rq u w db1
         else login_failed rq (lq_username req) w db1)"

definition handleLogout :: "server \<Rightarrow> handler" where
  "handleLogout sv = respond ((writeJSON 200 (JObj [(''status'', JStr ''ok'')]))
     \<lparr>rp_cookie := Some (session_cookie sv [] None (- 1))\<rparr>)"

definition handleMe :: "claims \<Rightarrow> handler" where
  "handleMe c = respond (writeJSON 200 (JObj [(''role'', JStr (cl_role c)), (''username'', JStr (cl_name c))]))"

definition handleHealth :: handler where
  "handleHealth = respond (writeJSON 200 (JObj [(''status'', JStr ''ok'')]))"

section \<open>Metrics\<close>

definition metric :: "string \<Rightarrow> string \<Rightarrow> string \<Rightarrow> string" where
  "metric name typ help = ''# HELP '' @ name @ '' '' @ help @ [CHR 0x0A] @ ''# TYPE '' @ name @ '' '' @ typ @ [CHR 0x0A]"

definition sample :: "string \<Rightarrow> int \<Rightarrow> string" where
  "sample name n = name @ '' '' @ itoa n @ [CHR 0x0A]"

definition metrics_text :: "api_env \<Rightarrow> string \<Rightarrow> stats \<Rightarrow> string" where
  "metrics_text env version st =
     metric ''motzworks_build_info'' ''gauge'' ''Build version (always 1).'' @
     sample (''motzworks_build_info{version='' @ ap_quote env version @ ''}'') 1 @
     metric ''motzworks_devices_total'' ''gauge'' ''Total inventoried devices.'' @
     sample ''motzworks_devices_total'' (ss_total st) @
     metric ''motzworks_devices_seen_24h'' ''gauge'' ''Devices seen in the last 24h.'' @
     sample ''motzworks_devices_seen_24h'' (ss_seen st) @
     metric ''motzworks_software_titles_total'' ''gauge'' ''Distinct software titles.'' @
     sample ''motzworks_software_titles_total'' (ss_titles st) @
     metric ''motzworks_devices_by_type'' ''gauge'' ''Devices by type.'' @
     concat (map (\<lambda>(t, n). sample (''motzworks_devices_by_type{type='' @ ap_quote env t @ ''}'') n) (types_list env (ss_types st))) @
     metric ''motzworks_last_scan_timestamp_seconds'' ''gauge'' ''Unix time of the most recent scan start (0 if none).'' @
     sample ''motzworks_last_scan_timestamp_seconds'' (case ss_lastscan st of None \<Rightarrow> 0 | Some t \<Rightarrow> unix t)"

definition app_version :: string where "app_version = ''0.0.0-dev''"

text \<open>\<open>http.Error\<close> ends the message with a line feed.\<close>

definition http_error :: "string \<Rightarrow> nat \<Rightarrow> reply" where
  "http_error msg status = plain_reply (status, [(''Content-Type'', ''text/plain; charset=utf-8''),
     (''X-Content-Type-Options'', ''nosniff'')], msg @ [CHR 0x0A])"

definition handleMetrics :: "api_env \<Rightarrow> handler" where
  "handleMetrics env = (\<lambda>w db. case Stats w db of
     (Inl e, db') \<Rightarrow> (http_error (''# stats error'' @ [CHR 0x0A]) 500, db')
   | (Inr st, db') \<Rightarrow> (plain_reply (200, [(''Content-Type'', ''text/plain; version=0.0.4; charset=utf-8'')], metrics_text env app_version st), db'))"

section \<open>Read handlers\<close>

definition handleStats :: "api_env \<Rightarrow> handler" where
  "handleStats env = or_500 Stats (\<lambda>st. respond (writeJSON 200 (stats_json env st)))"

definition list_filter :: "request \<Rightarrow> device_filter" where
  "list_filter rq = \<lparr>df_query = query_get rq ''q'', df_type = query_get rq ''type'',
     df_limit = queryInt rq ''limit'' 50, df_offset = queryInt rq ''offset'' 0\<rparr>"

definition handleDevices :: "api_env \<Rightarrow> request \<Rightarrow> handler" where
  "handleDevices env rq = (let f = list_filter rq in or_500 (ListDevices f) (\<lambda>(items, total).
     respond (writeJSON 200 (JObj [(''items'', nil_slice (item_json env) items), (''limit'', json_int_of (df_limit f)),
       (''offset'', json_int_of (df_offset f)), (''total'', json_int_of total)]))))"

definition handleDevice :: "api_env \<Rightarrow> string \<Rightarrow> handler" where
  "handleDevice env did = or_500 (GetDevice did) (\<lambda>d. respond (case d of
     None \<Rightarrow> writeError 404 ''device not found'' | Some det \<Rightarrow> writeJSON 200 (detail_json env det)))"

definition csv_row :: "api_env \<Rightarrow> device_item \<Rightarrow> string list" where
  "csv_row env d = [dl_id d, dl_type d, dl_hostname d, dl_ip d, dl_os d, dl_source d, ap_csvtime env (dl_last d)]"

definition csv_text :: "api_env \<Rightarrow> device_item list \<Rightarrow> string" where
  "csv_text env items = concat (map csv_record
     ([''id'', ''type'', ''hostname'', ''primary_ip'', ''os'', ''source'', ''last_seen''] # map (csv_row env) items))"

definition csv_filter :: "request \<Rightarrow> device_filter" where
  "csv_filter rq = \<lparr>df_query = query_get rq ''q'', df_type = query_get rq ''type'', df_limit = 500, df_offset = 0\<rparr>"

definition handleDevicesCSV :: "api_env \<Rightarrow> request \<Rightarrow> handler" where
  "handleDevicesCSV env rq = or_500 (ListDevices (csv_filter rq)) (\<lambda>(items, total).
     respond (plain_reply (200, [(''Content-Type'', ''text/csv''),
       (''Content-Disposition'', ''attachment; filename='' @ [CHR 0x22] @ ''devices.csv'' @ [CHR 0x22])], csv_text env items)))"

definition handleSoftware :: "request \<Rightarrow> handler" where
  "handleSoftware rq = or_500 (SoftwareRollup (query_get rq ''q'') (queryInt rq ''limit'' 200) (queryInt rq ''offset'' 0)
     (query_get rq ''sort'')) (\<lambda>rollup. respond (writeJSON 200 (JObj [(''items'', nil_slice agg_json rollup)])))"

definition handleSoftwareDevices :: "api_env \<Rightarrow> request \<Rightarrow> handler" where
  "handleSoftwareDevices env rq = (let name = query_get rq ''name'' in
     if name = [] then respond (writeError 400 ''name is required'')
     else or_500 (DevicesWithSoftware name (query_get rq ''version'') (queryInt rq ''limit'' 500))
       (\<lambda>items. respond (writeJSON 200 (JObj [(''items'', JList (map (item_json env) items))]))))"

definition handleChanges :: "api_env \<Rightarrow> request \<Rightarrow> handler" where
  "handleChanges env rq = or_500 (ListChanges (query_get rq ''device_id'') (queryInt rq ''limit'' 100))
     (\<lambda>cs. respond (writeJSON 200 (JObj [(''items'', nil_slice (change_json env) cs)])))"

definition handleScans :: "api_env \<Rightarrow> request \<Rightarrow> handler" where
  "handleScans env rq = or_500 (ListScans (queryInt rq ''limit'' 50))
     (\<lambda>ss. respond (writeJSON 200 (JObj [(''items'', nil_slice (scan_json env) ss)])))"

definition handleScanDetail :: "api_env \<Rightarrow> request \<Rightarrow> string \<Rightarrow> handler" where
  "handleScanDetail env rq sid = or_500 (GetScanRun sid) (\<lambda>found. case found of
     None \<Rightarrow> respond (writeError 404 ''scan not found'')
   | Some run \<Rightarrow> or_500 (ListScanEvents (si_id run) (queryInt rq ''limit'' 1000)) (\<lambda>events.
       respond (writeJSON 200 (JObj [(''events'', JList (map (event_json env) events)), (''scan'', scan_json env run)]))))"

definition handleAudit :: "api_env \<Rightarrow> request \<Rightarrow> handler" where
  "handleAudit env rq = or_500 (ListAudit (queryInt rq ''limit'' 100))
     (\<lambda>es. respond (writeJSON 200 (JObj [(''items'', nil_slice (audit_json env) es)])))"

definition handleListTargets :: handler where
  "handleListTargets = or_500 ListScanTargets (\<lambda>ts. respond (writeJSON 200 (JObj [(''items'', nil_slice target_json ts)])))"

definition handleListCredentials :: handler where
  "handleListCredentials = or_500 ListCredentials (\<lambda>cs. respond (writeJSON 200 (JObj [(''items'', nil_slice credential_json cs)])))"

definition handleListSchedules :: "api_env \<Rightarrow> handler" where
  "handleListSchedules env = or_500 ListSchedules (\<lambda>ss. respond (writeJSON 200 (JObj [(''items'', nil_slice (schedule_json env) ss)])))"

section \<open>Management handlers\<close>

record scan_request =
  nq_targets :: "string list"
  nq_target :: string

definition scan_fields :: "scan_request fields_of" where
  "scan_fields = [(''targets'', at_field nq_targets (\<lambda>x r. r\<lparr>nq_targets := x\<rparr>) (dec_slice dec_str [])),
     (''target_id'', at_field nq_target (\<lambda>x r. r\<lparr>nq_target := x\<rparr>) dec_str)]"

definition adhoc_options :: "server \<Rightarrow> string list \<Rightarrow> credential list \<Rightarrow> scan_options" where
  "adhoc_options sv specs creds = \<lparr>sp_specs = specs, sp_creds = creds,
     sp_discovery = \<lparr>do_ports = [], do_timeout = 0, do_concurrency = 0, do_rate = 0, do_jitter = 0\<rparr>,
     sp_workers = sv_concurrency sv\<rparr>"

definition start_scan :: "api_env \<Rightarrow> server \<Rightarrow> request \<Rightarrow> claims \<Rightarrow> string \<Rightarrow> string list \<Rightarrow> handler" where
  "start_scan env sv rq c target_id specs =
     (if specs = [] then respond (writeError 400 ''no targets specified'')
      else or_500 ListCredentials (\<lambda>sealed.
        audit rq c ''trigger_scan'' target_id [(''targets'', JList (map JStr specs))]
          (respond ((writeJSON 202 (JObj [(''status'', JStr ''scan started'')]))
            \<lparr>rp_scan := Some (adhoc_options sv specs (DecryptCredentials (ap_box env) (sv_vault sv) sealed))\<rparr>))))"

definition handleTriggerScan :: "api_env \<Rightarrow> server \<Rightarrow> request \<Rightarrow> claims \<Rightarrow> handler" where
  "handleTriggerScan env sv rq c = readJSON env scan_fields \<lparr>nq_targets = [], nq_target = []\<rparr> rq (\<lambda>req.
     if nq_target req \<noteq> [] then or_500 (GetScanTarget (nq_target req)) (\<lambda>found. case found of
         None \<Rightarrow> respond (writeError 404 ''scan target not found'')
       | Some t \<Rightarrow> start_scan env sv rq c (nq_target req) (tr_cidrs t))
     else start_scan env sv rq c (nq_target req) (nq_targets req))"

record target_request =
  tq_name :: string
  tq_cidrs :: "string list"
  tq_enabled :: "bool option"

definition target_fields :: "target_request fields_of" where
  "target_fields = [(''name'', at_field tq_name (\<lambda>x r. r\<lparr>tq_name := x\<rparr>) dec_str),
     (''cidrs'', at_field tq_cidrs (\<lambda>x r. r\<lparr>tq_cidrs := x\<rparr>) (dec_slice dec_str [])),
     (''enabled'', at_field tq_enabled (\<lambda>x r. r\<lparr>tq_enabled := x\<rparr>) dec_bool_ptr)]"

definition enabled_or_true :: "bool option \<Rightarrow> bool" where
  "enabled_or_true v = (case v of None \<Rightarrow> True | Some b \<Rightarrow> b)"

definition created :: "string \<Rightarrow> reply" where
  "created did = writeJSON 201 (JObj [(''id'', JStr did)])"

definition handleCreateTarget :: "api_env \<Rightarrow> request \<Rightarrow> claims \<Rightarrow> handler" where
  "handleCreateTarget env rq c = readJSON env target_fields \<lparr>tq_name = [], tq_cidrs = [], tq_enabled = None\<rparr> rq (\<lambda>req.
     if tq_name req = [] \<or> tq_cidrs req = [] then respond (writeError 400 ''name and cidrs are required'')
     else or_500 (CreateScanTarget (tq_name req) (tq_cidrs req) (enabled_or_true (tq_enabled req))) (\<lambda>tid.
       audit rq c ''create_target'' (tq_name req) [(''cidrs'', JList (map JStr (tq_cidrs req)))] (respond (created tid))))"

definition deleted :: reply where
  "deleted = writeJSON 200 (JObj [(''status'', JStr ''deleted'')])"

definition handleDeleteTarget :: "request \<Rightarrow> claims \<Rightarrow> string \<Rightarrow> handler" where
  "handleDeleteTarget rq c tid = or_500 (DeleteScanTarget tid) (\<lambda>_. audit rq c ''delete_target'' tid [] (respond deleted))"

record credential_request =
  cq_name :: string
  cq_kind :: string
  cq_username :: string
  cq_secret :: string
  cq_extra :: "(string \<times> string) list"

definition credential_fields :: "credential_request fields_of" where
  "credential_fields = [(''name'', at_field cq_name (\<lambda>x r. r\<lparr>cq_name := x\<rparr>) dec_str),
     (''kind'', at_field cq_kind (\<lambda>x r. r\<lparr>cq_kind := x\<rparr>) dec_str),
     (''username'', at_field cq_username (\<lambda>x r. r\<lparr>cq_username := x\<rparr>) dec_str),
     (''secret'', at_field cq_secret (\<lambda>x r. r\<lparr>cq_secret := x\<rparr>) dec_str),
     (''extra'', at_field cq_extra (\<lambda>x r. r\<lparr>cq_extra := x\<rparr>) dec_string_map)]"

definition seal_secret :: "api_env \<Rightarrow> server \<Rightarrow> string \<Rightarrow> string sql" where
  "seal_secret env sv secret = (\<lambda>w db. (if secret = [] then Inr []
     else vault_Seal (ap_box env) (sv_vault sv) (ap_nonce env (db_tick db)) secret, db))"

definition handleCreateCredential :: "api_env \<Rightarrow> server \<Rightarrow> request \<Rightarrow> claims \<Rightarrow> handler" where
  "handleCreateCredential env sv rq c = readJSON env credential_fields
     \<lparr>cq_name = [], cq_kind = [], cq_username = [], cq_secret = [], cq_extra = []\<rparr> rq (\<lambda>req.
     if cq_name req = [] \<or> cq_kind req = [] then respond (writeError 400 ''name and kind are required'')
     else or_500 (seal_secret env sv (cq_secret req)) (\<lambda>sealed.
       or_500 (CreateCredential (cq_name req) (cq_kind req) (cq_username req) sealed (cq_extra req)) (\<lambda>cid.
         audit rq c ''create_credential'' (cq_name req) [(''kind'', JStr (cq_kind req)), (''username'', JStr (cq_username req))]
           (respond (created cid)))))"

definition handleDeleteCredential :: "request \<Rightarrow> claims \<Rightarrow> string \<Rightarrow> handler" where
  "handleDeleteCredential rq c cid = or_500 (DeleteCredential cid) (\<lambda>_. audit rq c ''delete_credential'' cid [] (respond deleted))"

record schedule_request =
  hq_target :: string
  hq_interval :: int
  hq_enabled :: "bool option"

definition schedule_fields :: "schedule_request fields_of" where
  "schedule_fields = [(''scan_target_id'', at_field hq_target (\<lambda>x r. r\<lparr>hq_target := x\<rparr>) dec_str),
     (''interval_secs'', at_field hq_interval (\<lambda>x r. r\<lparr>hq_interval := x\<rparr>) dec_int),
     (''enabled'', at_field hq_enabled (\<lambda>x r. r\<lparr>hq_enabled := x\<rparr>) dec_bool_ptr)]"

definition handleCreateSchedule :: "api_env \<Rightarrow> request \<Rightarrow> claims \<Rightarrow> handler" where
  "handleCreateSchedule env rq c = readJSON env schedule_fields \<lparr>hq_target = [], hq_interval = 0, hq_enabled = None\<rparr> rq (\<lambda>req.
     if hq_target req = [] \<or> hq_interval req < 60
     then respond (writeError 400 ''scan_target_id and interval_secs (>=60) are required'')
     else or_500 (CreateSchedule (hq_target req) (hq_interval req) (enabled_or_true (hq_enabled req))) (\<lambda>sid.
       audit rq c ''create_schedule'' (hq_target req) [(''interval_secs'', json_int_of (hq_interval req))] (respond (created sid))))"

section \<open>Routes\<close>

datatype access = Public | AnyRole | AdminOnly

datatype endpoint =
    Login | Logout | Health | Metrics
  | Me | StatsPage | Devices | DeviceDetail string | DevicesCSV | Software | SoftwareDevices | Changes | Scans
  | ScanDetail string | Targets | Schedules
  | TriggerScan | CreateTarget | DeleteTarget string | Credentials | NewCredential | DropCredential string
  | NewSchedule | AuditLog

text \<open>\<open>GET\<close> patterns match \<open>HEAD\<close> too; \<open>{id}\<close> matches one segment, which is not empty.\<close>

definition get_endpoint :: "string list \<Rightarrow> endpoint option" where
  "get_endpoint p =
     (if p = [''api'', ''health''] then Some Health else if p = [''metrics''] then Some Metrics
      else if p = [''api'', ''me''] then Some Me else if p = [''api'', ''stats''] then Some StatsPage
      else if p = [''api'', ''devices''] then Some Devices
      else if p = [''api'', ''devices.csv''] then Some DevicesCSV
      else if p = [''api'', ''software''] then Some Software
      else if p = [''api'', ''software'', ''devices''] then Some SoftwareDevices
      else if p = [''api'', ''changes''] then Some Changes else if p = [''api'', ''scans''] then Some Scans
      else if p = [''api'', ''targets''] then Some Targets else if p = [''api'', ''schedules''] then Some Schedules
      else if p = [''api'', ''credentials''] then Some Credentials else if p = [''api'', ''audit''] then Some AuditLog
      else if take 2 p = [''api'', ''devices''] \<and> length p = 3 \<and> last p \<noteq> [] then Some (DeviceDetail (last p))
      else if take 2 p = [''api'', ''scans''] \<and> length p = 3 \<and> last p \<noteq> [] then Some (ScanDetail (last p))
      else None)"

definition post_endpoint :: "string list \<Rightarrow> endpoint option" where
  "post_endpoint p =
     (if p = [''api'', ''login''] then Some Login else if p = [''api'', ''logout''] then Some Logout
      else if p = [''api'', ''scans''] then Some TriggerScan else if p = [''api'', ''targets''] then Some CreateTarget
      else if p = [''api'', ''credentials''] then Some NewCredential
      else if p = [''api'', ''schedules''] then Some NewSchedule else None)"

definition delete_endpoint :: "string list \<Rightarrow> endpoint option" where
  "delete_endpoint p =
     (if take 2 p = [''api'', ''targets''] \<and> length p = 3 \<and> last p \<noteq> [] then Some (DeleteTarget (last p))
      else if take 2 p = [''api'', ''credentials''] \<and> length p = 3 \<and> last p \<noteq> [] then Some (DropCredential (last p))
      else None)"

definition find_endpoint :: "request \<Rightarrow> endpoint option" where
  "find_endpoint rq =
     (if rq_method rq = ''GET'' \<or> rq_method rq = ''HEAD'' then get_endpoint (rq_path rq)
      else if rq_method rq = ''POST'' then post_endpoint (rq_path rq)
      else if rq_method rq = ''DELETE'' then delete_endpoint (rq_path rq) else None)"

fun required :: "endpoint \<Rightarrow> access" where
  "required Login = Public" | "required Logout = Public" | "required Health = Public" | "required Metrics = Public"
| "required TriggerScan = AdminOnly" | "required CreateTarget = AdminOnly" | "required (DeleteTarget i) = AdminOnly"
| "required Credentials = AdminOnly" | "required NewCredential = AdminOnly" | "required (DropCredential i) = AdminOnly"
| "required NewSchedule = AdminOnly" | "required AuditLog = AdminOnly"
| "required e = AnyRole"

fun endpoint_handler :: "api_env \<Rightarrow> server \<Rightarrow> request \<Rightarrow> endpoint \<Rightarrow> claims \<Rightarrow> handler" where
  "endpoint_handler env sv rq Login c = handleLogin env sv rq"
| "endpoint_handler env sv rq Logout c = handleLogout sv"
| "endpoint_handler env sv rq Health c = handleHealth"
| "endpoint_handler env sv rq Metrics c = handleMetrics env"
| "endpoint_handler env sv rq Me c = handleMe c"
| "endpoint_handler env sv rq StatsPage c = handleStats env"
| "endpoint_handler env sv rq Devices c = handleDevices env rq"
| "endpoint_handler env sv rq (DeviceDetail i) c = handleDevice env i"
| "endpoint_handler env sv rq DevicesCSV c = handleDevicesCSV env rq"
| "endpoint_handler env sv rq Software c = handleSoftware rq"
| "endpoint_handler env sv rq SoftwareDevices c = handleSoftwareDevices env rq"
| "endpoint_handler env sv rq Changes c = handleChanges env rq"
| "endpoint_handler env sv rq Scans c = handleScans env rq"
| "endpoint_handler env sv rq (ScanDetail i) c = handleScanDetail env rq i"
| "endpoint_handler env sv rq Targets c = handleListTargets"
| "endpoint_handler env sv rq Schedules c = handleListSchedules env"
| "endpoint_handler env sv rq TriggerScan c = handleTriggerScan env sv rq c"
| "endpoint_handler env sv rq CreateTarget c = handleCreateTarget env rq c"
| "endpoint_handler env sv rq (DeleteTarget i) c = handleDeleteTarget rq c i"
| "endpoint_handler env sv rq Credentials c = handleListCredentials"
| "endpoint_handler env sv rq NewCredential c = handleCreateCredential env sv rq c"
| "endpoint_handler env sv rq (DropCredential i) c = handleDeleteCredential rq c i"
| "endpoint_handler env sv rq NewSchedule c = handleCreateSchedule env rq c"
| "endpoint_handler env sv rq AuditLog c = handleAudit env rq"

text \<open>
  A path no route has: anything below \<open>/api/\<close> is a JSON 404, the rest is for the dashboard. The
  public handlers get no claims.
\<close>

definition no_route :: "api_env \<Rightarrow> server \<Rightarrow> request \<Rightarrow> reply" where
  "no_route env sv rq =
     (if rq_path rq = [''api''] then plain_reply (ap_mux env rq)
      else if rq_path rq \<noteq> [] \<and> hd (rq_path rq) = ''api'' then writeError 404 ''not found''
      else (case sv_static sv of Some h \<Rightarrow> plain_reply (h rq) | None \<Rightarrow> plain_reply (ap_mux env rq)))"

definition Handler :: "api_env \<Rightarrow> server \<Rightarrow> request \<Rightarrow> handler" where
  "Handler env sv rq =
     (case find_endpoint rq of
        None \<Rightarrow> respond (no_route env sv rq)
      | Some e \<Rightarrow>
          (case required e of
             Public \<Rightarrow> endpoint_handler env sv rq e zero_claims
           | AnyRole \<Rightarrow> with_auth env sv rq (endpoint_handler env sv rq e)
           | AdminOnly \<Rightarrow> with_admin env sv rq (endpoint_handler env sv rq e)))"

end
