(* ===== verification/ApiSpec.thy ===== *)
theory ApiSpec
  imports Api QuerySpec
begin

text \<open>
  What every request of the HTTP interface keeps: the constraints of the schema, and, for a
  request without an administrator's token, everything but the audit log and the times of
  logins. The lemmas about handlers hold for any property that the store's methods keep.
\<close>

section \<open>Handlers and invariants\<close>

definition safe_handler :: "(db \<Rightarrow> bool) \<Rightarrow> handler \<Rightarrow> bool" where
  "safe_handler P h \<longleftrightarrow> (\<forall>w db. P db \<longrightarrow> P (snd (h w db)))"

definition no_scan :: "handler \<Rightarrow> bool" where
  "no_scan h \<longleftrightarrow> (\<forall>w db. rp_scan (fst (h w db)) = None)"

named_theorems handler_intros

lemma safe_respond [handler_intros]: "safe_handler P (respond r)"
  by (simp add: safe_handler_def respond_def)

lemma safe_or_500 [handler_intros]:
  assumes "preserves P m" and "\<And>x. safe_handler P (k x)"
  shows "safe_handler P (or_500 m k)"
  unfolding safe_handler_def
proof (intro allI impI)
  fix w db
  assume "P db"
  with preservesD [OF assms(1)] have "P (snd (m w db))" .
  with assms(2) show "P (snd (or_500 m k w db))"
    by (cases "m w db"; cases "fst (m w db)") (auto simp: or_500_def safe_handler_def)
qed

lemma safe_best_effort [handler_intros]:
  "preserves P m \<Longrightarrow> safe_handler P h \<Longrightarrow> safe_handler P (best_effort m h)"
  by (simp add: safe_handler_def best_effort_def preservesD)

lemma safe_audit [handler_intros]:
  "preserves P (InsertAudit (cl_name c) action tgt (clientIP rq) detail) \<Longrightarrow> safe_handler P h \<Longrightarrow>
   safe_handler P (audit rq c action tgt detail h)"
  unfolding audit_def by (rule safe_best_effort)

lemma safe_readJSON [handler_intros]: "(\<And>r. safe_handler P (k r)) \<Longrightarrow> safe_handler P (readJSON env fs z rq k)"
  by (auto simp: safe_handler_def readJSON_def split: option.splits)

lemma safe_splits [handler_intros]:
  "(b \<Longrightarrow> safe_handler P h) \<Longrightarrow> (\<not> b \<Longrightarrow> safe_handler P h') \<Longrightarrow> safe_handler P (if b then h else h')"
  "(v = None \<Longrightarrow> safe_handler P h) \<Longrightarrow> (\<And>x. v = Some x \<Longrightarrow> safe_handler P (f x)) \<Longrightarrow>
   safe_handler P (case v of None \<Rightarrow> h | Some x \<Rightarrow> f x)"
  "safe_handler P (g a b) \<Longrightarrow> safe_handler P (case (a, b) of (x, y) \<Rightarrow> g x y)"
  by (auto split: option.splits)

lemma safe_auth [handler_intros]: "(\<And>c. safe_handler P (k c)) \<Longrightarrow> safe_handler P (with_auth env sv rq k)"
  by (auto simp: safe_handler_def with_auth_def split: sum.splits)

lemma safe_admin [handler_intros]: "(\<And>c. safe_handler P (k c)) \<Longrightarrow> safe_handler P (with_admin env sv rq k)"
  unfolding with_admin_def by (intro handler_intros) (simp_all add: safe_handler_def)

lemma preserves_optional: "preserves P m \<Longrightarrow> preserves P (optional_row m)"
  unfolding preserves_def
proof (intro allI impI)
  fix w db
  assume m: "\<forall>w db. P db \<longrightarrow> P (snd (m w db))" and "P db"
  then have "P (snd (m w db))" by blast
  then show "P (snd (optional_row m w db))"
    by (cases "m w db"; cases "fst (m w db)") (simp_all add: optional_row_def)
qed

lemma preserves_GetUser:
  assumes "preserves P (query (\<lambda>w t db. first_row (scan_rows w t (filter (\<lambda>u. au_username u = name) (db_appusers db)))))"
  shows "preserves P (GetUserByUsername name)"
  unfolding preserves_def
proof (intro allI impI)
  fix w db
  assume "P db"
  let ?q = "query (\<lambda>w t db. first_row (scan_rows w t (filter (\<lambda>u. au_username u = name) (db_appusers db))))"
  obtain r db' where q: "?q w db = (r, db')" by (cases "?q w db")
  with preservesD [OF assms \<open>P db\<close>, of w] have "P db'" by simp
  with q show "P (snd (GetUserByUsername name w db))"
    by (cases r) (simp_all add: GetUserByUsername_def)
qed

text \<open>Queries keep every property that does not depend on the statement counter.\<close>

context db_invariant
begin

lemma queries_preserve:
  "preserves inv Stats" "preserves inv (ListDevices f)" "preserves inv (GetDevice i)"
  "preserves inv (SoftwareRollup q l offset srt)" "preserves inv (DevicesWithSoftware n v l)"
  "preserves inv (ListChanges i l)" "preserves inv (ListScans l)" "preserves inv (GetScanRun i)"
  "preserves inv (ListScanEvents i l)" "preserves inv (ListAudit l)" "preserves inv ListScanTargets"
  "preserves inv (GetScanTarget i)" "preserves inv ListCredentials" "preserves inv ListSchedules"
  "preserves inv (GetUserByUsername n)"
  unfolding Stats_def ListDevices_def count_devices_def page_devices_def GetDevice_def one_of_def
    deviceInterfaces_def deviceSoftware_def deviceUsers_def SoftwareRollup_def DevicesWithSoftware_def
    ListChanges_def ListScans_def GetScanRun_def ListScanEvents_def ListAudit_def ListScanTargets_def
    GetScanTarget_def ListCredentials_def ListSchedules_def Let_def case_prod_beta
  by (intro inv_intros query_preserves preserves_optional preserves_GetUser)+

lemma read_handlers_safe:
  "safe_handler inv (handleStats env)" "safe_handler inv (handleDevices env rq)" "safe_handler inv (handleDevice env i)"
  "safe_handler inv (handleDevicesCSV env rq)" "safe_handler inv (handleSoftware rq)"
  "safe_handler inv (handleSoftwareDevices env rq)" "safe_handler inv (handleChanges env rq)"
  "safe_handler inv (handleScans env rq)" "safe_handler inv (handleScanDetail env rq i)"
  "safe_handler inv (handleAudit env rq)" "safe_handler inv handleListTargets"
  "safe_handler inv handleListCredentials" "safe_handler inv (handleListSchedules env)"
  "safe_handler inv (handleMe c)" "safe_handler inv handleHealth" "safe_handler inv (handleLogout sv)"
  unfolding handleStats_def handleDevices_def handleDevice_def handleDevicesCSV_def handleSoftware_def
    handleSoftwareDevices_def handleChanges_def handleScans_def handleScanDetail_def handleAudit_def
    handleListTargets_def handleListCredentials_def handleListSchedules_def handleMe_def handleHealth_def
    handleLogout_def Let_def case_prod_beta
  by (intro handler_intros queries_preserve)+

lemma metrics_safe: "safe_handler inv (handleMetrics env)"
  unfolding safe_handler_def
proof (intro allI impI)
  fix w db
  assume "inv db"
  obtain r db' where q: "Stats w db = (r, db')" by (cases "Stats w db")
  with preservesD [OF queries_preserve(1) \<open>inv db\<close>, of w] have "inv db'" by simp
  with q show "inv (snd (handleMetrics env w db))" by (cases r) (simp_all add: handleMetrics_def)
qed

end

section \<open>Every request keeps the schema\<close>

lemma handleLogin_safe:
  assumes "\<And>n. preserves P (GetUserByUsername n)" and "\<And>u. preserves P (TouchLogin u)"
    and "\<And>a b c d e. preserves P (InsertAudit a b c d e)"
  shows "safe_handler P (handleLogin env sv rq)"
  unfolding handleLogin_def
proof (rule safe_readJSON)
  fix req
  have bad: "safe_handler P (login_failed rq n)" for n
    unfolding login_failed_def by (intro handler_intros assms)
  have good: "safe_handler P (login_granted env sv rq u)" for u
    unfolding login_granted_def Let_def safe_handler_def
    by (simp add: best_effort_def respond_def preservesD assms)
  show "safe_handler P (\<lambda>w db. case GetUserByUsername (lq_username req) w db of
      (Inl e, db1) \<Rightarrow> login_failed rq (lq_username req) w db1
    | (Inr u, db1) \<Rightarrow> if CheckPassword (ap_bcrypt env) (au_hash u) (lq_password req)
        then login_granted env sv rq u w db1 else login_failed rq (lq_username req) w db1)"
    unfolding safe_handler_def
  proof (intro allI impI)
    fix w db
    assume "P db"
    obtain r db1 where q: "GetUserByUsername (lq_username req) w db = (r, db1)"
      by (cases "GetUserByUsername (lq_username req) w db")
    with preservesD [OF assms(1) \<open>P db\<close>, of "lq_username req" w] have "P db1" by simp
    with bad good q show "P (snd (case GetUserByUsername (lq_username req) w db of
        (Inl e, db1) \<Rightarrow> login_failed rq (lq_username req) w db1
      | (Inr u, db1) \<Rightarrow> if CheckPassword (ap_bcrypt env) (au_hash u) (lq_password req)
          then login_granted env sv rq u w db1 else login_failed rq (lq_username req) w db1))"
      by (cases r) (auto simp: safe_handler_def)
  qed
qed

lemma seal_preserves [inv_intros]: "preserves P (seal_secret env sv s)"
  by (simp add: preserves_def seal_secret_def)

lemma admin_handlers_safe:
  "safe_handler db_inv (handleTriggerScan env sv rq c)" "safe_handler db_inv (handleCreateTarget env rq c)"
  "safe_handler db_inv (handleDeleteTarget rq c i)" "safe_handler db_inv (handleCreateCredential env sv rq c)"
  "safe_handler db_inv (handleDeleteCredential rq c i)" "safe_handler db_inv (handleCreateSchedule env rq c)"
  unfolding handleTriggerScan_def start_scan_def handleCreateTarget_def handleDeleteTarget_def
    handleCreateCredential_def handleDeleteCredential_def handleCreateSchedule_def
  by (intro handler_intros inv_intros schema.queries_preserve)+

lemma endpoint_handler_safe: "safe_handler db_inv (endpoint_handler env sv rq e c)"
  by (cases e) (simp_all add: schema.read_handlers_safe schema.metrics_safe admin_handlers_safe
      handleLogin_safe inv_intros schema.queries_preserve)

text \<open>
  No request breaks the database: whatever a client sends, with or without a session and
  whichever statement fails on the way, every constraint of the schema still holds afterwards.
\<close>

lemma Handler_safe: "safe_handler db_inv (Handler env sv rq)"
  unfolding Handler_def
  by (cases "find_endpoint rq"; simp add: safe_respond)
     (auto intro!: endpoint_handler_safe safe_auth safe_admin split: access.splits)

section \<open>Who may change what\<close>

text \<open>Everything but the audit log and the times of the last logins.\<close>

definition core :: "db \<Rightarrow> db" where
  "core db = db\<lparr>db_tick := 0, db_audit := [], db_appusers := map (\<lambda>u. u\<lparr>au_last := None\<rparr>) (db_appusers db)\<rparr>"

interpretation api_frame: db_invariant "\<lambda>db. core db = C" for C
  by unfold_locales (simp add: core_def)

lemma clear_last: "map (\<lambda>u. u\<lparr>au_last := None\<rparr>) (update_where P (\<lambda>u. u\<lparr>au_last := v\<rparr>) us) = map (\<lambda>u. u\<lparr>au_last := None\<rparr>) us"
  by (simp add: update_where_def)

lemma core_login_steps:
  "preserves (\<lambda>db. core db = C) (TouchLogin u)" "preserves (\<lambda>db. core db = C) (InsertAudit a b c d e)"
proof -
  show "preserves (\<lambda>db. core db = C) (TouchLogin u)"
    unfolding TouchLogin_def by (intro api_frame.stmt_preserves) (auto simp: core_def clear_last)
  show "preserves (\<lambda>db. core db = C) (InsertAudit a b c d e)"
    unfolding InsertAudit_def by (intro api_frame.stmt_preserves) (auto simp: core_def Let_def split: if_splits)
qed

lemma unprivileged_core:
  "required e \<noteq> AdminOnly \<Longrightarrow> safe_handler (\<lambda>db. core db = C) (endpoint_handler env sv rq e c)"
  by (cases e) (simp_all add: api_frame.read_handlers_safe api_frame.metrics_safe handleLogin_safe
      core_login_steps api_frame.queries_preserve)

lemma no_scan_replies [simp]:
  "rp_scan (writeJSON s v) = None" "rp_scan (writeError s m) = None" "rp_scan serverError = None"
  "rp_scan (plain_reply p) = None" "rp_scan (http_error m s) = None"
  by (simp_all add: writeJSON_def writeError_def serverError_def plain_reply_def http_error_def case_prod_beta)

lemma no_scan_steps:
  "rp_scan r = None \<Longrightarrow> no_scan (respond r)" "(\<And>x. no_scan (k x)) \<Longrightarrow> no_scan (or_500 m k)"
  "no_scan h \<Longrightarrow> no_scan (best_effort m h)" "(\<And>r. no_scan (k' r)) \<Longrightarrow> no_scan (readJSON env fs z rq k')"
  "(\<And>x. no_scan (f x)) \<Longrightarrow> no_scan h \<Longrightarrow> no_scan (case v of None \<Rightarrow> h | Some x \<Rightarrow> f x)"
  "no_scan h \<Longrightarrow> no_scan h' \<Longrightarrow> no_scan (if b then h else h')"
  by (auto simp: no_scan_def respond_def or_500_def best_effort_def readJSON_def split: prod.splits sum.splits option.splits)

lemma login_no_scan: "no_scan (handleLogin env sv rq)"
  unfolding handleLogin_def
  by (rule no_scan_steps)
     (auto simp: no_scan_def login_failed_def login_granted_def best_effort_def respond_def Let_def split: prod.splits sum.splits)

lemma unprivileged_no_scan: "required e \<noteq> AdminOnly \<Longrightarrow> no_scan (endpoint_handler env sv rq e c)"
  using login_no_scan [of env sv rq]
  by (cases e) (auto simp: handleStats_def handleDevices_def handleDevice_def handleDevicesCSV_def
      handleSoftware_def handleSoftwareDevices_def handleChanges_def handleScans_def handleScanDetail_def
      handleListTargets_def handleListSchedules_def handleMe_def handleHealth_def handleLogout_def handleMetrics_def
      Let_def no_scan_def respond_def or_500_def split: prod.splits sum.splits option.splits)

text \<open>
  Only administrators change anything: a request whose cookie is not a valid token of the
  role admin starts no scan and changes no target, credential, schedule, device or user: all it
  can add is an audit entry and the time of a login.
\<close>

lemma only_admins_change:
  assumes "\<And>c. claimsFromRequest env sv (w_clock w (db_tick db)) rq = Inr c \<Longrightarrow> cl_role c \<noteq> RoleAdmin"
  shows "core (snd (Handler env sv rq w db)) = core db \<and> rp_scan (fst (Handler env sv rq w db)) = None"
proof (cases "find_endpoint rq")
  case None
  then show ?thesis by (simp add: Handler_def respond_def no_route_def split: option.splits)
next
  case (Some e)
  show ?thesis
  proof (cases "required e = AdminOnly")
    case True
    have "Handler env sv rq w db = with_admin env sv rq (endpoint_handler env sv rq e) w db"
      by (simp add: Handler_def Some True)
    also have "\<dots> = (case claimsFromRequest env sv (w_clock w (db_tick db)) rq of
        Inl x \<Rightarrow> (writeError 401 ''unauthorized'', db) | Inr c \<Rightarrow> (writeError 403 ''admin role required'', db))"
      using assms by (auto simp: with_admin_def with_auth_def respond_def split: sum.splits)
    finally show ?thesis by (simp split: sum.splits)
  next
    case False
    have "safe_handler (\<lambda>x. core x = core db) (Handler env sv rq) \<and> no_scan (Handler env sv rq)"
      using unprivileged_core [OF False, of "core db" env sv rq] unprivileged_no_scan [OF False, of env sv rq] False
      by (cases "required e") (auto simp: Handler_def Some safe_auth, auto simp: no_scan_def with_auth_def split: sum.splits)
    then show ?thesis by (simp add: safe_handler_def no_scan_def)
  qed
qed

end
