(* ===== verification/ApiSession.thy ===== *)
theory ApiSession
  imports ApiSpec
begin

text \<open>
  Sessions and audits of the HTTP interface: a login gives a cookie worth exactly the user's
  claims until it expires, and management requests are audited or change nothing.
\<close>

section \<open>Logging in\<close>

lemma GetUserByUsername_run:
  assumes "quiet w" and "db_inv db"
  shows "GetUserByUsername n w db =
    (case find (\<lambda>u. au_username u = n) (db_appusers db) of None \<Rightarrow> Inl ErrUserNotFound | Some u \<Rightarrow> Inr u, tick db)"
proof -
  have "distinct (map au_username (db_appusers db))" using assms(2) by (simp add: db_inv_def admin_ok_def)
  from filter_key_find [OF this, of n] assms(1) show ?thesis
    by (simp add: GetUserByUsername_def query_quiet split: option.splits)
qed

definition user_claims :: "appuser_row \<Rightarrow> int \<Rightarrow> claims" where
  "user_claims u expires = \<lparr>cl_user = au_id u, cl_name = au_username u, cl_role = au_role u, cl_expires = expires\<rparr>"

text \<open>Text columns of a UTF-8 database, and an expiry that fits 64 bits.\<close>

definition user_printable :: "appuser_row \<Rightarrow> bool" where
  "user_printable u \<longleftrightarrow> valid_utf8 (au_id u) \<and> valid_utf8 (au_username u) \<and> valid_utf8 (au_role u)"

lemma session_claims:
  assumes "user_printable u" and "- (2 ^ 63) \<le> e" and "e < 2 ^ 63"
    and "map_of (rq_cookies rq) sessionCookie = Some (IssueToken (ap_mac env) (sv_secret sv) (user_claims u e))"
  shows "claimsFromRequest env sv now rq = (if e < unix now then Inl (ErrText ''token expired'') else Inr (user_claims u e))"
proof -
  let ?c = "user_claims u e"
  have "VerifyToken (ap_mac env) (sv_secret sv) (unix now) (IssueToken (ap_mac env) (sv_secret sv) ?c) =
      (if cl_expires ?c < unix now then Inl (ErrText ''token expired'') else Inr ?c)"
    by (rule verify_issued, rule claims_back) (use assms(1-3) in \<open>simp_all add: user_printable_def user_claims_def\<close>)
  then show ?thesis by (simp add: claimsFromRequest_def assms(4) user_claims_def)
qed

lemma handleLogin_run:
  assumes "quiet w" and "db_inv db"
    and "read_body login_fields \<lparr>lq_username = [], lq_password = []\<rparr> rq = Some \<lparr>lq_username = name, lq_password = pw\<rparr>"
  shows "handleLogin env sv rq w db = (case find (\<lambda>u. au_username u = name) (db_appusers db) of
      None \<Rightarrow> login_failed rq name w (tick db)
    | Some u \<Rightarrow> if CheckPassword (ap_bcrypt env) (au_hash u) pw then login_granted env sv rq u w (tick db)
        else login_failed rq name w (tick db))"
  by (simp add: handleLogin_def readJSON_def assms(3) GetUserByUsername_run [OF assms(1,2)] split: option.splits)

text \<open>
  (C7) Logging in works for exactly the right password. If the user exists and the password
  matches its hash, the reply sets a session cookie, and any later request that carries it has
  exactly the user's id, name and role until the session time is over, and none after that;
  otherwise the reply is 401 and sets no cookie.
\<close>

theorem login_session:
  assumes "quiet w" and "db_inv db" and "\<And>u. u \<in> set (db_appusers db) \<Longrightarrow> user_printable u"
    and "read_body login_fields \<lparr>lq_username = [], lq_password = []\<rparr> rq = Some \<lparr>lq_username = name, lq_password = pw\<rparr>"
    and "e = unix (w_clock w (Suc (db_tick db)) + sv_ttl sv)" and "- (2 ^ 63) \<le> e" and "e < 2 ^ 63"
  shows "case find (\<lambda>u. au_username u = name) (db_appusers db) of
      Some u \<Rightarrow> if CheckPassword (ap_bcrypt env) (au_hash u) pw
        then \<exists>ck. rp_status (fst (handleLogin env sv rq w db)) = 200 \<and> rp_cookie (fst (handleLogin env sv rq w db)) = Some ck \<and>
          ck_name ck = sessionCookie \<and>
          (\<forall>rq' now. map_of (rq_cookies rq') sessionCookie = Some (ck_value ck) \<longrightarrow>
             claimsFromRequest env sv now rq' =
               (if e < unix now then Inl (ErrText ''token expired'') else Inr (user_claims u e)))
        else rp_status (fst (handleLogin env sv rq w db)) = 401 \<and> rp_cookie (fst (handleLogin env sv rq w db)) = None
    | None \<Rightarrow> rp_status (fst (handleLogin env sv rq w db)) = 401 \<and> rp_cookie (fst (handleLogin env sv rq w db)) = None"
proof -
  have fail: "rp_status (fst (login_failed rq name w x)) = 401 \<and> rp_cookie (fst (login_failed rq name w x)) = None" for x
    by (simp add: login_failed_def best_effort_def respond_def writeError_def writeJSON_def)
  note run = handleLogin_run [OF assms(1,2,4)]
  show ?thesis
  proof (cases "find (\<lambda>u. au_username u = name) (db_appusers db)")
    case None
    with fail show ?thesis by (simp add: run)
  next
    case (Some u)
    then have u: "user_printable u" using assms(3) by (auto dest: find_SomeD)
    let ?ck = "session_cookie sv (IssueToken (ap_mac env) (sv_secret sv) (user_claims u e)) (Some (w_clock w (Suc (db_tick db)) + sv_ttl sv)) 0"
    have "fst (login_granted env sv rq u w (tick db)) =
        (writeJSON 200 (JObj [(''role'', JStr (au_role u)), (''username'', JStr (au_username u))]))\<lparr>rp_cookie := Some ?ck\<rparr>"
      by (simp add: login_granted_def Let_def best_effort_def respond_def user_claims_def assms(5))
    moreover have "claimsFromRequest env sv now rq' = (if e < unix now then Inl (ErrText ''token expired'') else Inr (user_claims u e))"
      if "map_of (rq_cookies rq') sessionCookie = Some (ck_value ?ck)" for rq' now
      using session_claims [OF u assms(6,7)] that by (simp add: session_cookie_def)
    ultimately show ?thesis
      using fail by (simp add: run Some) (auto simp: writeJSON_def session_cookie_def)
  qed
qed

section \<open>Audits\<close>

definition fresh_audit_ids :: "world \<Rightarrow> db \<Rightarrow> bool" where
  "fresh_audit_ids w db \<longleftrightarrow> (\<forall>t. new_uuid w t \<notin> al_id ` set (db_audit db))"

text \<open>A reply below 300 comes with one audit row, any other with the tables as they were.\<close>

definition audited :: "request \<Rightarrow> claims \<Rightarrow> handler \<Rightarrow> bool" where
  "audited rq c h \<longleftrightarrow> (\<forall>w db r db'. quiet w \<longrightarrow> fresh_audit_ids w db \<longrightarrow> h w db = (r, db') \<longrightarrow>
     (if rp_status r < 300
      then \<exists>row. db_audit db' = db_audit db @ [row] \<and> al_actor row = Some (cl_name c) \<and> al_ip row = Some (clientIP rq)
      else same_tables db db'))"

lemma audit_run:
  assumes "quiet w" and "fresh_audit_ids w db"
  shows "\<exists>row. snd (audit rq c a t d (respond r) w db) = (tick db)\<lparr>db_audit := db_audit db @ [row]\<rparr> \<and>
    fst (audit rq c a t d (respond r) w db) = r \<and> al_actor row = Some (cl_name c) \<and> al_ip row = Some (clientIP rq)"
  using assms
  by (auto simp: audit_def best_effort_def respond_def InsertAudit_def stmt_quiet Let_def fresh_audit_ids_def)

text \<open>Writes that leave the tables alone when they fail, and never touch the audit log.\<close>

definition quiet_write :: "'a sql \<Rightarrow> bool" where
  "quiet_write m \<longleftrightarrow> (\<forall>w db r db'. m w db = (r, db') \<longrightarrow>
     db_audit db' = db_audit db \<and> (case r of Inl e \<Rightarrow> same_tables db db' | Inr x \<Rightarrow> True))"

lemma quiet_write_stmt:
  assumes "\<And>w t db x db'. f w t db = Inr (x, db') \<Longrightarrow> db_audit db' = db_audit db"
  shows "quiet_write (stmt f)"
  unfolding quiet_write_def
proof (intro allI impI)
  fix w db r db'
  assume "stmt f w db = (r, db')"
  then show "db_audit db' = db_audit db \<and> (case r of Inl e \<Rightarrow> same_tables db db' | Inr x \<Rightarrow> True)"
    using assms [of w "db_tick db" "tick db"]
    by (auto simp: stmt_def tick_def [symmetric] Let_def split: option.splits sum.splits)
qed

lemma admin_writes:
  "quiet_write (CreateScanTarget n cidrs b)" "quiet_write (DeleteScanTarget i)" "quiet_write (CreateCredential n k u s x)"
  "quiet_write (DeleteCredential i)" "quiet_write (CreateSchedule i iv b)" "quiet_write (seal_secret env sv s)"
  "quiet_write ListCredentials" "quiet_write (GetScanTarget i)"
  unfolding CreateScanTarget_def DeleteScanTarget_def CreateCredential_def DeleteCredential_def CreateSchedule_def
    ListCredentials_def GetScanTarget_def query_def
       apply (rule quiet_write_stmt; auto simp: Let_def with_uuid_Inr delete_target_cascade_def split: if_splits sum.splits)+
    apply (simp add: quiet_write_def seal_secret_def split: sum.splits)
   apply (rule quiet_write_stmt; auto split: sum.splits)+
  done

lemma audited_fail: "300 \<le> rp_status r \<Longrightarrow> audited rq c (respond r)"
  by (simp add: audited_def respond_def)

lemma audited_read: "(\<And>r. audited rq c (k r)) \<Longrightarrow> audited rq c (readJSON env fs z rq' k)"
  by (auto simp: audited_def readJSON_def writeError_def writeJSON_def split: option.splits)

lemma audited_write:
  assumes "quiet_write m" and "\<And>x. rp_status (r x) < 300"
  shows "audited rq c (or_500 m (\<lambda>x. audit rq c a (t x) (d x) (respond (r x))))"
  unfolding audited_def
proof (intro allI impI)
  fix w db rep db'
  assume q: "quiet w" and f: "fresh_audit_ids w db"
    and h: "or_500 m (\<lambda>x. audit rq c a (t x) (d x) (respond (r x))) w db = (rep, db')"
  obtain o1 db1 where m: "m w db = (o1, db1)" by (cases "m w db")
  from assms(1) m have db1: "db_audit db1 = db_audit db" "case o1 of Inl e \<Rightarrow> same_tables db db1 | Inr x \<Rightarrow> True"
    unfolding quiet_write_def by blast+
  show "if rp_status rep < 300
      then \<exists>row. db_audit db' = db_audit db @ [row] \<and> al_actor row = Some (cl_name c) \<and> al_ip row = Some (clientIP rq)
      else same_tables db db'"
  proof (cases o1)
    case (Inl e)
    with h m db1 show ?thesis by (auto simp: or_500_def serverError_def writeError_def writeJSON_def)
  next
    case (Inr x)
    have "fresh_audit_ids w db1" using f db1 by (simp add: fresh_audit_ids_def)
    from audit_run [OF q this, of rq c a "t x" "d x" "r x"] h m Inr assms(2) db1 show ?thesis
      by (auto simp: or_500_def)
  qed
qed

lemma audited_if: "audited rq c h \<Longrightarrow> audited rq c h' \<Longrightarrow> audited rq c (if b then h else h')"
  by simp

text \<open>A step before: it may fail with a 500, and otherwise changes nothing.\<close>

lemma audited_before:
  assumes "quiet_write m" and "\<And>w db x db'. m w db = (Inr x, db') \<Longrightarrow> same_tables db db'" and "\<And>x. audited rq c (k x)"
  shows "audited rq c (or_500 m k)"
  unfolding audited_def
proof (intro allI impI)
  fix w db rep db'
  assume q: "quiet w" and f: "fresh_audit_ids w db" and h: "or_500 m k w db = (rep, db')"
  obtain o1 db1 where m: "m w db = (o1, db1)" by (cases "m w db")
  from assms(1) m have a: "db_audit db1 = db_audit db" and e: "case o1 of Inl e \<Rightarrow> same_tables db db1 | Inr x \<Rightarrow> True"
    unfolding quiet_write_def by blast+
  show "if rp_status rep < 300
      then \<exists>row. db_audit db' = db_audit db @ [row] \<and> al_actor row = Some (cl_name c) \<and> al_ip row = Some (clientIP rq)
      else same_tables db db'"
  proof (cases o1)
    case (Inl x)
    with h m e show ?thesis by (auto simp: or_500_def serverError_def writeError_def writeJSON_def)
  next
    case (Inr x)
    have "fresh_audit_ids w db1" using f a by (simp add: fresh_audit_ids_def)
    moreover have "k x w db1 = (rep, db')" using h m Inr by (simp add: or_500_def)
    ultimately have "if rp_status rep < 300
        then \<exists>row. db_audit db' = db_audit db1 @ [row] \<and> al_actor row = Some (cl_name c) \<and> al_ip row = Some (clientIP rq)
        else same_tables db1 db'"
      using assms(3) [of x] q unfolding audited_def by simp
    moreover have "same_tables db db1" using assms(2) m Inr by blast
    ultimately show ?thesis using same_tables_trans [of db db1 db'] by (simp add: a split: if_splits)
  qed
qed

lemma query_same: "query f w db = (r, db') \<Longrightarrow> same_tables db db'"
  using query_db [of f w db] by simp

lemma start_scan_audited: "audited rq c (start_scan env sv rq c tid specs)"
  unfolding start_scan_def
  by (intro audited_if audited_fail audited_write admin_writes) (simp_all add: writeError_def writeJSON_def)

lemma management_audited:
  "audited rq c (handleTriggerScan env sv rq c)" "audited rq c (handleCreateTarget env rq c)"
  "audited rq c (handleDeleteTarget rq c i)" "audited rq c (handleCreateCredential env sv rq c)"
  "audited rq c (handleDeleteCredential rq c i)" "audited rq c (handleCreateSchedule env rq c)"
proof -
  have bad: "audited rq c (respond (writeError 400 m))" "audited rq c (respond (writeError 404 m))" for m
    by (simp_all add: audited_fail writeError_def writeJSON_def)
  have ok: "rp_status (created x) < 300" "rp_status deleted < 300" for x
    by (simp_all add: created_def deleted_def writeJSON_def)
  show "audited rq c (handleTriggerScan env sv rq c)"
    unfolding handleTriggerScan_def
  proof (intro audited_read audited_if start_scan_audited audited_before admin_writes)
    show "same_tables db db'" if "GetScanTarget i w db = (Inr x, db')" for i w db x db'
      using that unfolding GetScanTarget_def by (rule query_same)
    show "audited rq c (case x of None \<Rightarrow> respond (writeError 404 ''scan target not found'')
        | Some t \<Rightarrow> start_scan env sv rq c i (tr_cidrs t))" for x i
      by (cases x) (simp_all add: bad start_scan_audited)
  qed
  show "audited rq c (handleCreateTarget env rq c)" "audited rq c (handleDeleteTarget rq c i)"
    "audited rq c (handleDeleteCredential rq c i)" "audited rq c (handleCreateSchedule env rq c)"
    unfolding handleCreateTarget_def handleDeleteTarget_def handleDeleteCredential_def handleCreateSchedule_def
    by (intro audited_read audited_if bad audited_write admin_writes ok)+
  show "audited rq c (handleCreateCredential env sv rq c)"
    unfolding handleCreateCredential_def
    by (intro audited_read audited_if bad audited_before audited_write admin_writes ok) (simp add: seal_secret_def)
qed

text \<open>The endpoints that manage something.\<close>

definition manages :: "endpoint \<Rightarrow> bool" where
  "manages e \<longleftrightarrow> required e = AdminOnly \<and> e \<notin> {Credentials, AuditLog}"


text \<open>The address on record is the caller's choice: the header is believed whoever sends it.\<close>

lemma client_ip_chosen:
  assumes "ip \<noteq> []" and "list_all plain_char ip" and "CHR '','' \<notin> set ip"
  shows "clientIP (rq\<lparr>rq_forwarded := ip\<rparr>) = ip"
proof -
  have "split_on (CHR '','') ip = [ip]" using assms(3) by (rule split_on_single)
  then show ?thesis using assms(1,2) by (simp add: clientIP_def trim_space_all_plain list_all_iff)
qed

end
