(* ===== verification/ApiSecrets.thy ===== *)
theory ApiSecrets
  imports ApiSession
begin

text \<open>
  Stored secrets do not leave the program through the read interface: a reply to a \<open>GET\<close> is the
  same whatever the sealed credentials and the password hashes are.
\<close>

section \<open>Blinding the secrets\<close>

definition blind_cred :: "cred_row \<Rightarrow> cred_row" where
  "blind_cred r = r\<lparr>cd_sealed := None\<rparr>"

definition blind_user :: "appuser_row \<Rightarrow> appuser_row" where
  "blind_user u = u\<lparr>au_hash := []\<rparr>"

definition blind :: "db \<Rightarrow> db" where
  "blind db = db\<lparr>db_creds := map blind_cred (db_creds db), db_appusers := map blind_user (db_appusers db)\<rparr>"

lemma blind_tables [simp]:
  "db_tick (blind db) = db_tick db" "db_devices (blind db) = db_devices db" "db_ifaces (blind db) = db_ifaces db"
  "db_os (blind db) = db_os db" "db_hw (blind db) = db_hw db" "db_sw (blind db) = db_sw db"
  "db_users (blind db) = db_users db" "db_changes (blind db) = db_changes db" "db_targets (blind db) = db_targets db"
  "db_scheds (blind db) = db_scheds db" "db_runs (blind db) = db_runs db" "db_events (blind db) = db_events db"
  "db_audit (blind db) = db_audit db" "db_creds (blind db) = map blind_cred (db_creds db)"
  "join_os (blind db) = join_os db"
  by (simp_all add: blind_def join_os_def fun_eq_iff)

lemma blind_tick: "tick (blind db) = blind (tick db)"
  by (simp add: blind_def tick_def)

lemma blind_counter: "(blind db)\<lparr>db_tick := n\<rparr> = blind (db\<lparr>db_tick := n\<rparr>)"
  by (simp add: blind_def)

definition blind_sql :: "'a sql \<Rightarrow> bool" where
  "blind_sql m \<longleftrightarrow> (\<forall>w db. m w (blind db) = (fst (m w db), blind (snd (m w db))))"

named_theorems blind_intros

lemma blind_query [blind_intros]: "(\<And>w t db. f w t (blind db) = f w t db) \<Longrightarrow> blind_sql (query f)"
  by (auto simp: blind_sql_def query_def stmt_def blind_counter Let_def split: option.splits sum.splits)

lemma blind_bind [blind_intros]: "blind_sql m \<Longrightarrow> (\<And>x. blind_sql (f x)) \<Longrightarrow> blind_sql (bind_sql m f)"
  by (auto simp: blind_sql_def bind_sql_def split: prod.splits sum.splits)

lemma blind_return [blind_intros]: "blind_sql (return_sql x)"
  by (simp add: blind_sql_def return_sql_def)

lemma blind_optional [blind_intros]: "blind_sql m \<Longrightarrow> blind_sql (optional_row m)"
  by (auto simp: blind_sql_def optional_row_def split: prod.splits sum.splits)

lemma blind_option [blind_intros]:
  "blind_sql m \<Longrightarrow> (\<And>x. blind_sql (f x)) \<Longrightarrow> blind_sql (case v of None \<Rightarrow> m | Some x \<Rightarrow> f x)"
  by (cases v) auto

lemma blind_queries:
  "blind_sql Stats" "blind_sql (ListDevices f)" "blind_sql (GetDevice i)" "blind_sql (SoftwareRollup q l offset srt)"
  "blind_sql (DevicesWithSoftware n v l)" "blind_sql (ListChanges i l)" "blind_sql (ListScans l)"
  "blind_sql (GetScanRun i)" "blind_sql (ListScanEvents i l)" "blind_sql (ListAudit l)" "blind_sql ListScanTargets"
  "blind_sql ListSchedules"
  unfolding Stats_def ListDevices_def count_devices_def page_devices_def GetDevice_def one_of_def
    deviceInterfaces_def deviceSoftware_def deviceUsers_def SoftwareRollup_def DevicesWithSoftware_def
    ListChanges_def ListScans_def GetScanRun_def ListScanEvents_def ListAudit_def ListScanTargets_def
    ListSchedules_def Let_def case_prod_beta
  by (intro blind_intros; simp add: rows_of_def cong: sum.case_cong)+

section \<open>Handlers\<close>

definition blind_handler :: "handler \<Rightarrow> bool" where
  "blind_handler h \<longleftrightarrow> (\<forall>w db. fst (h w (blind db)) = fst (h w db))"

definition blind_run :: "handler \<Rightarrow> bool" where
  "blind_run h \<longleftrightarrow> (\<forall>w db. h w (blind db) = (fst (h w db), blind (snd (h w db))))"

lemma blind_run_handler: "blind_run h \<Longrightarrow> blind_handler h"
  by (simp add: blind_run_def blind_handler_def)

lemma blind_respond [blind_intros]: "blind_run (respond r)"
  by (simp add: blind_run_def respond_def)

lemma blind_or_500 [blind_intros]: "blind_sql m \<Longrightarrow> (\<And>x. blind_run (k x)) \<Longrightarrow> blind_run (or_500 m k)"
  by (auto simp: blind_run_def blind_sql_def or_500_def split: prod.splits sum.splits)

lemma blind_case [blind_intros]:
  "blind_run h \<Longrightarrow> (\<And>x. blind_run (f x)) \<Longrightarrow> blind_run (case v of None \<Rightarrow> h | Some x \<Rightarrow> f x)"
  "blind_run h \<Longrightarrow> blind_run h' \<Longrightarrow> blind_run (if b then h else h')"
  by (cases v) auto

lemma blind_metrics: "blind_run (handleMetrics env)"
  using blind_queries(1) by (auto simp: blind_run_def blind_sql_def handleMetrics_def split: prod.splits sum.splits)

lemma read_handlers_blind:
  "blind_run (handleStats env)" "blind_run (handleDevices env rq)" "blind_run (handleDevice env i)"
  "blind_run (handleDevicesCSV env rq)" "blind_run (handleSoftware rq)" "blind_run (handleSoftwareDevices env rq)"
  "blind_run (handleChanges env rq)" "blind_run (handleScans env rq)" "blind_run (handleScanDetail env rq i)"
  "blind_run (handleAudit env rq)" "blind_run handleListTargets" "blind_run (handleListSchedules env)"
  "blind_run (handleMe c)" "blind_run handleHealth"
  unfolding handleStats_def handleDevices_def handleDevice_def handleDevicesCSV_def handleSoftware_def
    handleSoftwareDevices_def handleChanges_def handleScans_def handleScanDetail_def handleAudit_def
    handleListTargets_def handleListSchedules_def handleMe_def handleHealth_def Let_def case_prod_beta
  by (intro blind_intros blind_queries)+

lemma scan_rows_map: "scan_rows w t (map f xs) = map f (scan_rows w t xs)"
proof -
  have "map ((!) (map f xs)) p = map f (map ((!) xs) p)" if "sort p = [0..<length xs]" for p
  proof -
    have "set p = {0..<length xs}" using that by (metis set_sort set_upt)
    then show ?thesis by auto
  qed
  then show ?thesis by (simp add: scan_rows_def Let_def)
qed

lemma sort_key_map_commute: "sort_key k (map f xs) = map f (sort_key (\<lambda>x. k (f x)) xs)"
proof (induction xs)
  case (Cons x xs)
  have "insort_key k (f x) (map f ys) = map f (insort_key (\<lambda>x. k (f x)) x ys)" for ys
    by (induction ys) auto
  with Cons show ?case by simp
qed simp

lemma nil_slice_map: "nil_slice f (map g xs) = nil_slice (\<lambda>x. f (g x)) xs"
  by (simp add: nil_slice_def o_def)

text \<open>The listing of the credentials writes everything but the sealed values.\<close>

lemma credentials_blind: "blind_handler handleListCredentials"
proof -
  have "cd_name (blind_cred r) = cd_name r" "cd_id (blind_cred r) = cd_id r" "cd_kind (blind_cred r) = cd_kind r"
    "cd_username (blind_cred r) = cd_username r" "cd_extra (blind_cred r) = cd_extra r" for r
    by (simp_all add: blind_cred_def)
  then show ?thesis
    by (simp add: blind_handler_def handleListCredentials_def or_500_def ListCredentials_def query_def stmt_def
        tick_def [symmetric] blind_tick Let_def respond_def scan_rows_map sort_key_map_commute nil_slice_map
        credential_json_def split: option.split sum.split prod.split)
qed

lemma get_endpoint_blind:
  assumes "get_endpoint p = Some e"
  shows "blind_handler (endpoint_handler env sv rq e c)"
  using assms
  by (auto simp: get_endpoint_def credentials_blind intro!: blind_run_handler read_handlers_blind blind_metrics
      split: if_splits)


section \<open>Stored secrets in use\<close>

text \<open>What one stored credential contributes to a scan: nothing if its secret does not open.\<close>

definition unsealed :: "secretbox \<Rightarrow> vault \<Rightarrow> stored_credential \<Rightarrow> credential list" where
  "unsealed box v sc = DecryptCredentials box v [sc]"

lemma DecryptCredentials_concat: "DecryptCredentials box v scs = concat (map (unsealed box v) scs)"
  by (induction scs) (simp_all add: unsealed_def Let_def split: sum.splits)

definition stored_cred :: "cred_row \<Rightarrow> stored_credential" where
  "stored_cred r = \<lparr>st_id = cd_id r, st_name = cd_name r, st_kind = cd_kind r,
     st_username = text_or_empty (cd_username r), st_sealed = text_or_empty (cd_sealed r), st_extra = cd_extra r\<rparr>"

lemma mset_concat_map: "mset (concat (map f xs)) = \<Sum>\<^sub># (image_mset (\<lambda>x. mset (f x)) (mset xs))"
  by (induction xs) simp_all

lemma credentials_for_scan:
  assumes "quiet w"
  shows "\<exists>scs. fst (ListCredentials w db) = Inr scs \<and>
    mset (DecryptCredentials box v scs) =
      \<Sum>\<^sub># (image_mset (\<lambda>r. mset (unsealed box v (stored_cred r))) (mset (db_creds db)))"
  using assms
  by (simp add: ListCredentials_def query_quiet DecryptCredentials_concat mset_concat_map stored_cred_def image_mset.compositionality o_def)

text \<open>
  (C8) A credential stored through the interface is the one scans log in with: after
  \<open>POST /api/credentials\<close> is answered 201, the credentials a scan decrypts are those of before and
  exactly one more, with the id of the reply and the kind, user name, secret and extra values of
  the request.
\<close>

theorem created_credential_used:
  assumes "quiet w" and "box_correct (ap_box env)" and "\<And>t n. ap_nonce env t = Inr n \<Longrightarrow> length n = nonceSize"
    and "read_body credential_fields \<lparr>cq_name = [], cq_kind = [], cq_username = [], cq_secret = [], cq_extra = []\<rparr> rq = Some req"
    and "handleCreateCredential env sv rq c w db = (r, db')" and "rp_status r = 201"
  shows "\<exists>cid before after. rp_body r = JsonBody (JObj [(''id'', JStr cid)]) \<and>
    fst (ListCredentials w db) = Inr before \<and> fst (ListCredentials w db') = Inr after \<and>
    mset (DecryptCredentials (ap_box env) (sv_vault sv) after) =
      mset (DecryptCredentials (ap_box env) (sv_vault sv) before) +
      {#\<lparr>cr_id = cid, cr_kind = cq_kind req, cr_username = cq_username req, cr_secret = cq_secret req, cr_extra = cq_extra req\<rparr>#}"
proof -
  let ?dec = "DecryptCredentials (ap_box env) (sv_vault sv)"
  obtain sealed cid db1 where sealed: "fst (seal_secret env sv (cq_secret req) w db) = Inr sealed"
    and make: "CreateCredential (cq_name req) (cq_kind req) (cq_username req) sealed (cq_extra req) w db = (Inr cid, db1)"
    and reply: "r = created cid" and db': "db' = snd (InsertAudit (cl_name c) ''create_credential'' (cq_name req) (clientIP rq)
        [(''kind'', JStr (cq_kind req)), (''username'', JStr (cq_username req))] w db1)"
    using assms(5,6)
    by (auto simp: handleCreateCredential_def readJSON_def assms(4) or_500_def audit_def best_effort_def respond_def
        writeError_def writeJSON_def serverError_def seal_secret_def split: if_splits sum.splits prod.splits)
  have opens: "unsealed (ap_box env) (sv_vault sv) (stored_cred
        \<lparr>cd_id = cid, cd_name = n, cd_kind = k, cd_username = Some u, cd_sealed = Some sealed, cd_extra = x\<rparr>) =
      [\<lparr>cr_id = cid, cr_kind = k, cr_username = u, cr_secret = cq_secret req, cr_extra = x\<rparr>]" for n k u x
  proof (cases "cq_secret req = []")
    case True
    with sealed show ?thesis by (simp add: seal_secret_def unsealed_def stored_cred_def text_or_empty_def)
  next
    case False
    with sealed obtain nonce where "vault_Seal (ap_box env) (sv_vault sv) (Inr nonce) (cq_secret req) = Inr sealed"
      and "length nonce = nonceSize"
      using assms(3) by (cases "ap_nonce env (db_tick db)") (auto simp: seal_secret_def vault_Seal_def)
    from vault_open_seal [OF assms(2) this(2,1)] show ?thesis by (simp add: unsealed_def stored_cred_def text_or_empty_def)
  qed
  have "db_creds db1 = db_creds db @ [\<lparr>cd_id = cid, cd_name = cq_name req, cd_kind = cq_kind req,
      cd_username = Some (cq_username req), cd_sealed = Some sealed, cd_extra = cq_extra req\<rparr>]"
    using make by (auto simp: CreateCredential_def Let_def elim!: stmt_InrE split: if_splits)
  moreover have "db_creds db' = db_creds db1"
    unfolding db' using assms(1) by (simp add: InsertAudit_def stmt_quiet Let_def split: sum.splits if_splits)
  moreover obtain before after where "fst (ListCredentials w db) = Inr before" "fst (ListCredentials w db') = Inr after"
    and "mset (?dec before) = \<Sum>\<^sub># (image_mset (\<lambda>r. mset (unsealed (ap_box env) (sv_vault sv) (stored_cred r))) (mset (db_creds db)))"
    and "mset (?dec after) = \<Sum>\<^sub># (image_mset (\<lambda>r. mset (unsealed (ap_box env) (sv_vault sv) (stored_cred r))) (mset (db_creds db')))"
    using credentials_for_scan [OF assms(1)] by meson
  ultimately show ?thesis using reply by (simp add: opens created_def writeJSON_def)
qed

section \<open>A server for the examples\<close>

text \<open>Hashes are the passwords themselves, the key of a token is part of its signature.\<close>

definition demo_api :: api_env where
  "demo_api = \<lparr>ap_mac = (\<lambda>k p. k @ p), ap_bcrypt = \<lparr>bc_generate = Inr, bc_compare = (\<lambda>h p. if h = p then None else Some (ErrText ''mismatch''))\<rparr>,
     ap_box = demo_secretbox, ap_nonce = (\<lambda>_. Inr (replicate 24 CHR ''n'')), ap_time = itoa, ap_csvtime = itoa, ap_jsonerr = id,
     ap_quote = id, ap_range = (\<lambda>_. []), ap_mux = (\<lambda>_. (404, [], []))\<rparr>"

definition demo_server :: server where
  "demo_server = api_New \<lparr>vt_key = replicate 32 CHR ''k''\<rparr>
     \<lparr>so_secret = ''s3cret'', so_ttl = 0, so_workers = 0, so_secure = False, so_static = None\<rparr>"

definition demo_request :: "string \<Rightarrow> string list \<Rightarrow> string \<Rightarrow> (string \<times> string) list \<Rightarrow> request" where
  "demo_request m p b cookies = \<lparr>rq_method = m, rq_path = p, rq_query = [], rq_cookies = cookies, rq_forwarded = [],
     rq_remote = ''10.0.0.9:4711'', rq_body = b\<rparr>"

lemma first_json_text: "json_ok v \<Longrightarrow> length (json_text v) \<le> 1048576 \<Longrightarrow> first_json (json_text v) = Some v"
  using json_parse_text [of v]
  by (auto simp: json_parse_def first_json_def Let_def split: option.splits prod.splits if_splits)

definition demo_login_json :: json where
  "demo_login_json = JObj [(''username'', JStr ''bob''), (''password'', JStr ''h9'')]"

definition demo_login_request :: request where
  "demo_login_request = demo_request ''POST'' [''api'', ''login''] (json_text demo_login_json) []"

lemma demo_login_body:
  "read_body login_fields \<lparr>lq_username = [], lq_password = []\<rparr> demo_login_request =
     Some \<lparr>lq_username = ''bob'', lq_password = ''h9''\<rparr>"
proof -
  have "first_json (json_text demo_login_json) = Some demo_login_json"
    by (rule first_json_text)
      (simp_all add: demo_login_json_def utf8_width_def json_quote_def json_escape.simps escape_ascii_def short_escape_def)
  then show ?thesis
    by (simp add: read_body_def demo_login_request_def demo_request_def demo_login_json_def login_fields_def
        find_field_def at_field_def)
qed

lemma demo_users_inv: "db_inv demo_user_db"
  by (simp add: demo_user_db_def db_inv_def part_defs empty_db_def unique_key_def)

lemma blind_idem: "blind (blind db) = blind db"
  by (simp add: blind_def blind_cred_def blind_user_def o_def)


lemma login_session_witness:
  "rp_status (fst (handleLogin demo_api demo_server demo_login_request demo_world demo_user_db)) = 200"
proof -
  have p: "user_printable u" if "u \<in> set (db_appusers demo_user_db)" for u
    using that by (auto simp: demo_user_db_def user_printable_def utf8_width_def)
  have f: "find (\<lambda>u. au_username u = ''bob'') (db_appusers demo_user_db) =
      Some \<lparr>au_id = ''u2'', au_username = ''bob'', au_hash = ''h9'', au_role = ''admin'', au_created = 2, au_last = None\<rparr>"
    by (simp add: demo_user_db_def)
  have c: "CheckPassword (ap_bcrypt demo_api) ''h9'' ''h9''" by (simp add: CheckPassword_def demo_api_def)
  let ?e = "unix (w_clock demo_world (Suc (db_tick demo_user_db)) + sv_ttl demo_server)"
  have "?e = 43200"
    by (simp add: unix_def demo_server_def api_New_def pg_second_def demo_user_db_def empty_db_def)
  then have "- (2 ^ 63) \<le> ?e" "?e < 2 ^ 63" by simp_all
  from login_session [OF demo_world_quiet demo_users_inv p demo_login_body HOL.refl this, of demo_api] f c
  show ?thesis by simp
qed

definition demo_admin :: claims where
  "demo_admin = \<lparr>cl_user = ''u2'', cl_name = ''bob'', cl_role = RoleAdmin, cl_expires = 43200\<rparr>"

definition demo_delete :: request where
  "demo_delete = demo_request ''DELETE'' [''api'', ''targets'', ''t1''] []
     [(sessionCookie, IssueToken (ap_mac demo_api) (sv_secret demo_server) demo_admin)]"

lemma demo_delete_claims: "claimsFromRequest demo_api demo_server 100 demo_delete = Inr demo_admin"
proof -
  have "VerifyToken (ap_mac demo_api) (sv_secret demo_server) (unix 100)
      (IssueToken (ap_mac demo_api) (sv_secret demo_server) demo_admin) = Inr demo_admin"
    by (subst verify_issued, rule claims_back) (simp_all add: demo_admin_def utf8_width_def unix_def pg_second_def)
  then show ?thesis by (simp add: claimsFromRequest_def demo_delete_def demo_request_def)
qed


definition demo_cred_json :: json where
  "demo_cred_json = JObj [(''name'', JStr ''web''), (''kind'', JStr ''ssh-password''), (''username'', JStr ''root''), (''secret'', JStr ''pw'')]"

definition demo_cred_request :: request where
  "demo_cred_request = demo_request ''POST'' [''api'', ''credentials''] (json_text demo_cred_json) []"

lemma demo_cred_body:
  "read_body credential_fields \<lparr>cq_name = [], cq_kind = [], cq_username = [], cq_secret = [], cq_extra = []\<rparr> demo_cred_request =
     Some \<lparr>cq_name = ''web'', cq_kind = ''ssh-password'', cq_username = ''root'', cq_secret = ''pw'', cq_extra = []\<rparr>"
proof -
  have "first_json (json_text demo_cred_json) = Some demo_cred_json"
    by (rule first_json_text)
      (simp_all add: demo_cred_json_def utf8_width_def json_quote_def json_escape.simps escape_ascii_def short_escape_def)
  then show ?thesis
    by (simp add: read_body_def demo_cred_request_def demo_request_def demo_cred_json_def credential_fields_def
        find_field_def at_field_def)
qed

lemma created_credential_used_witness:
  "\<exists>creds. fst (ListCredentials demo_world (snd (handleCreateCredential demo_api demo_server demo_cred_request demo_admin demo_world demo_user_db))) =
       Inr creds \<and>
     map (\<lambda>c. (cr_kind c, cr_username c, cr_secret c)) (DecryptCredentials (ap_box demo_api) (sv_vault demo_server) creds) =
       [(''ssh-password'', ''root'', ''pw'')]"
proof -
  obtain r db' where h: "handleCreateCredential demo_api demo_server demo_cred_request demo_admin demo_world demo_user_db = (r, db')"
    by (cases "handleCreateCredential demo_api demo_server demo_cred_request demo_admin demo_world demo_user_db")
  have box: "box_correct (ap_box demo_api)" by (simp add: demo_api_def box_correct_def demo_secretbox_def)
  have nonce: "length n = nonceSize" if "ap_nonce demo_api t = Inr n" for t n using that by (auto simp: demo_api_def nonceSize_def)
  have none: "fst (ListCredentials demo_world demo_user_db) = Inr []"
    by (simp add: ListCredentials_def query_quiet demo_user_db_def empty_db_def)
  have made: "rp_status r = 201" using h
    by (auto simp: handleCreateCredential_def readJSON_def demo_cred_body or_500_def seal_secret_def demo_api_def vault_Seal_def
        CreateCredential_def stmt_quiet Let_def demo_user_db_def empty_db_def audit_def best_effort_def respond_def created_def writeJSON_def)
  have "\<exists>cid before after. rp_body r = JsonBody (JObj [(''id'', JStr cid)]) \<and>
      fst (ListCredentials demo_world demo_user_db) = Inr before \<and> fst (ListCredentials demo_world db') = Inr after \<and>
      mset (DecryptCredentials (ap_box demo_api) (sv_vault demo_server) after) =
        mset (DecryptCredentials (ap_box demo_api) (sv_vault demo_server) before) +
        {#\<lparr>cr_id = cid, cr_kind = ''ssh-password'', cr_username = ''root'', cr_secret = ''pw'', cr_extra = []\<rparr>#}"
    using created_credential_used [OF demo_world_quiet box _ demo_cred_body h made] nonce by simp
  then show ?thesis using h none by auto
qed

end
