(* ===== verification/Cli.thy ===== *)
theory Cli
  imports Api Collectors Config Migrate
begin

text \<open>
  The commands of \<open>cmd/motzworks\<close>, with the two small packages they use and nothing else does
  (\<open>internal/logging\<close>, \<open>internal/web\<close>) and \<open>store.Open\<close>. A command is a function of its
  arguments; what it prints and how it ends are values. \<open>cmdServe\<close> ends where the server
  starts to listen: its result is the server, the scheduler and the address.
\<close>

section \<open>Flags\<close>

text \<open>The \<open>flag\<close> package; number and duration syntax are parameters (\<open>cx_int\<close>, \<open>cx_duration\<close>).\<close>

datatype flag_kind = StringFlag | BoolFlag | IntFlag | DurationFlag

type_synonym flag_spec = "(string \<times> flag_kind) list"
type_synonym settings = "(string \<times> string) list"

datatype flags_result = FlagsOk settings "string list" | FlagsHelp | FlagsError

record flag_syntax =
  fx_int :: "string \<Rightarrow> int option"
  fx_duration :: "string \<Rightarrow> int option"

definition parse_bool :: "string \<Rightarrow> bool option" where
  "parse_bool s = (if s \<in> {''1'', ''t'', ''T'', ''TRUE'', ''true'', ''True''} then Some True
     else if s \<in> {''0'', ''f'', ''F'', ''FALSE'', ''false'', ''False''} then Some False else None)"

fun flag_ok :: "flag_syntax \<Rightarrow> flag_kind \<Rightarrow> string \<Rightarrow> bool" where
  "flag_ok fx StringFlag v = True"
| "flag_ok fx BoolFlag v = (parse_bool v \<noteq> None)"
| "flag_ok fx IntFlag v = (fx_int fx v \<noteq> None)"
| "flag_ok fx DurationFlag v = (fx_duration fx v \<noteq> None)"

text \<open>The name and value of \<open>-name\<close>, \<open>--name\<close>, \<open>-name=value\<close>; \<open>None\<close> is bad syntax.\<close>

definition flag_name :: "string \<Rightarrow> (string \<times> string option) option" where
  "flag_name s =
     (let body = (if take 2 s = ''--'' then drop 2 s else drop 1 s)
      in if body = [] \<or> hd body = CHR ''-'' \<or> hd body = CHR ''='' then None
         else (case cut (CHR ''='') body of (n, v, found) \<Rightarrow> Some (n, if found then Some v else None)))"

fun flag_parse :: "flag_syntax \<Rightarrow> flag_spec \<Rightarrow> settings \<Rightarrow> string list \<Rightarrow> flags_result" where
  "flag_parse fx spec acc [] = FlagsOk acc []"
| "flag_parse fx spec acc (s # args) =
     (if length s < 2 \<or> hd s \<noteq> CHR ''-'' then FlagsOk acc (s # args)
      else if s = ''--'' then FlagsOk acc args
      else (case flag_name s of
              None \<Rightarrow> FlagsError
            | Some (name, value) \<Rightarrow>
                (case map_of spec name of
                   None \<Rightarrow> if name = ''help'' \<or> name = ''h'' then FlagsHelp else FlagsError
                 | Some kind \<Rightarrow>
                     (case (kind = BoolFlag, value) of
                        (True, v) \<Rightarrow>
                          (let v' = (case v of Some v \<Rightarrow> v | None \<Rightarrow> ''true'')
                           in if flag_ok fx kind v' then flag_parse fx spec (acc @ [(name, v')]) args else FlagsError)
                      | (False, Some v) \<Rightarrow> if flag_ok fx kind v then flag_parse fx spec (acc @ [(name, v)]) args else FlagsError
                      | (False, None) \<Rightarrow>
                          (case args of
                             [] \<Rightarrow> FlagsError
                           | v # rest \<Rightarrow> if flag_ok fx kind v then flag_parse fx spec (acc @ [(name, v)]) rest else FlagsError)))))"

text \<open>The last setting of a flag counts.\<close>

definition flag_value :: "settings \<Rightarrow> string \<Rightarrow> string \<Rightarrow> string" where
  "flag_value st name d = (case map_of (rev st) name of None \<Rightarrow> d | Some v \<Rightarrow> v)"

definition flag_number :: "(string \<Rightarrow> int option) \<Rightarrow> settings \<Rightarrow> string \<Rightarrow> int \<Rightarrow> int" where
  "flag_number syn st name d = (case map_of (rev st) name of None \<Rightarrow> d | Some v \<Rightarrow> (case syn v of None \<Rightarrow> d | Some i \<Rightarrow> i))"

definition arg0 :: "string list \<Rightarrow> string" where
  "arg0 rest = (case rest of [] \<Rightarrow> [] | a # _ \<Rightarrow> a)"

section \<open>Logging and the dashboard\<close>

datatype log_level = LevelDebug | LevelInfo | LevelWarn | LevelError

record logger =
  lg_level :: log_level
  lg_json :: bool

definition logging_New :: "string \<Rightarrow> string \<Rightarrow> logger" where
  "logging_New level format =
     (let l = to_lower level
      in \<lparr>lg_level = (if l = ''debug'' then LevelDebug else if l = ''warn'' \<or> l = ''warning'' then LevelWarn
                      else if l = ''error'' then LevelError else LevelInfo),
          lg_json = (to_lower format = ''json'')\<rparr>)"

text \<open>The embedded files: \<open>fs.Sub\<close>, \<open>fs.ReadFile\<close>, \<open>fs.Stat\<close> and \<open>http.FileServer\<close>.\<close>

record web_fs =
  wf_sub :: "go_error option"
  wf_index :: "go_error + string"
  wf_exists :: "string \<Rightarrow> bool"
  wf_serve :: plain_handler

definition asset_path :: "request \<Rightarrow> string" where
  "asset_path rq = (let p = join ''/'' (rq_path rq) in if p = [] then ''index.html'' else p)"

definition web_Handler :: "web_fs \<Rightarrow> go_error + plain_handler" where
  "web_Handler fs =
     (case wf_sub fs of
        Some e \<Rightarrow> Inl e
      | None \<Rightarrow>
          (case wf_index fs of
             Inl e \<Rightarrow> Inl e
           | Inr index \<Rightarrow> Inr (\<lambda>rq. if wf_exists fs (asset_path rq) then wf_serve fs rq
                                     else (200, [(''Content-Type'', ''text/html; charset=utf-8'')], index))))"

section \<open>The environment of a command\<close>

record cli_env =
  cx_flags :: flag_syntax
  cx_quote :: "string \<Rightarrow> string"
  cx_read :: "string \<Rightarrow> read_result"
  cx_yaml :: yaml
  cx_getenv :: environment
  cx_dsn :: "string \<Rightarrow> go_error option"
  cx_connect :: "go_error option"
  cx_ping :: "go_error option"
  cx_bcrypt :: bcrypt
  cx_random :: "go_error + string"
  cx_collectors :: collector_env
  cx_scan :: scan_env
  cx_snmp :: snmp_net
  cx_order :: "addr list \<Rightarrow> (nat \<times> bool) list"
  cx_web :: web_fs

definition store_Open :: "cli_env \<Rightarrow> string \<Rightarrow> go_error option" where
  "store_Open env dsn =
     (case cx_dsn env dsn of
        Some e \<Rightarrow> Some (ErrWrap ''parse dsn: '' e)
      | None \<Rightarrow>
          (case cx_connect env of
             Some e \<Rightarrow> Some (ErrWrap ''connect: '' e)
           | None \<Rightarrow> map_option (ErrWrap ''ping: '') (cx_ping env)))"

definition load_config :: "cli_env \<Rightarrow> string \<Rightarrow> go_error + config" where
  "load_config env path = Load (cx_read env) (cx_yaml env) (cx_getenv env) path"

text \<open>A command returns an error or none, or ends the process (\<open>flag.ExitOnError\<close>).\<close>

datatype ended = Returned "go_error option" | Exited int

definition failed :: "string \<Rightarrow> ended" where
  "failed msg = Returned (Some (ErrText msg))"

definition with_flags :: "cli_env \<Rightarrow> flag_spec \<Rightarrow> string list \<Rightarrow> (ended \<Rightarrow> 'a) \<Rightarrow> (settings \<Rightarrow> string list \<Rightarrow> 'a) \<Rightarrow> 'a" where
  "with_flags env spec args stop k =
     (case flag_parse (cx_flags env) spec [] args of
        FlagsOk st rest \<Rightarrow> k st rest | FlagsHelp \<Rightarrow> stop (Exited 0) | FlagsError \<Rightarrow> stop (Exited 2))"

section \<open>config, migrate and vault\<close>

definition newline :: string where "newline = [CHR 0x0A]"

definition config_report :: "string \<Rightarrow> config \<Rightarrow> string" where
  "config_report path cfg =
     ''config OK ('' @ path @ '')'' @ newline @
     ''  log:      level='' @ lc_level (cf_log cfg) @ '' format='' @ lc_format (cf_log cfg) @ newline @
     ''  database: '' @ db_host (cf_database cfg) @ '':'' @ itoa (db_port (cf_database cfg)) @ ''/'' @ db_name (cf_database cfg) @
       '' (sslmode='' @ db_sslmode (cf_database cfg) @ '')'' @ newline @
     ''  server:   addr='' @ cf_addr cfg @ newline @
     ''  scan:     concurrency='' @ itoa (sn_concurrency (cf_scan cfg)) @ newline"

definition cmdConfig :: "cli_env \<Rightarrow> string list \<Rightarrow> string \<times> ended" where
  "cmdConfig env args = with_flags env [(''config'', StringFlag)] args (Pair []) (\<lambda>st rest.
     let path = flag_value st ''config'' ''config.yaml''; sub = arg0 rest
     in if sub \<noteq> [] \<and> sub \<noteq> ''check'' then ([], failed ''usage: motzworks config check [-config path]'')
        else (case load_config env path of
                Inl e \<Rightarrow> ([], Returned (Some e))
              | Inr cfg \<Rightarrow> (config_report path cfg, Returned None)))"

definition cmdMigrate :: "cli_env \<Rightarrow> 's mig_world \<Rightarrow> migrations_fs \<Rightarrow> string list \<Rightarrow> 's mig_db \<Rightarrow> ended \<times> 's mig_db" where
  "cmdMigrate env w fs args db = with_flags env [(''config'', StringFlag)] args (\<lambda>e. (e, db)) (\<lambda>st rest.
     let path = flag_value st ''config'' ''config.yaml''; sub = arg0 rest
     in if sub \<noteq> [] \<and> sub \<noteq> ''up'' then (failed ''usage: motzworks migrate up [-config path]'', db)
        else (case load_config env path of
                Inl e \<Rightarrow> (Returned (Some e), db)
              | Inr cfg \<Rightarrow>
                  (case store_Open env (DSN (cf_database cfg)) of
                     Some e \<Rightarrow> (Returned (Some e), db)
                   | None \<Rightarrow> (case Migrate w fs db of ((applied, err), db') \<Rightarrow> (Returned err, db')))))"

definition cmdVault :: "cli_env \<Rightarrow> string list \<Rightarrow> string \<times> ended" where
  "cmdVault env args = with_flags env [] args (Pair []) (\<lambda>st rest.
     if arg0 rest = ''genkey''
     then (case GenerateKey (cx_random env) of
             Inl e \<Rightarrow> ([], Returned (Some e)) | Inr key \<Rightarrow> (key @ newline, Returned None))
     else ([], failed ''usage: motzworks vault genkey''))"

section \<open>user\<close>

definition user_flags :: flag_spec where
  "user_flags = [(''config'', StringFlag), (''username'', StringFlag), (''password'', StringFlag), (''role'', StringFlag)]"

definition user_saved :: "cli_env \<Rightarrow> string \<Rightarrow> string \<Rightarrow> string \<Rightarrow> string" where
  "user_saved env username role uid = ''user '' @ cx_quote env username @ '' ('' @ role @ '') saved: '' @ uid @ newline"

definition cmdUser :: "cli_env \<Rightarrow> string list \<Rightarrow> world \<Rightarrow> db \<Rightarrow> (string \<times> ended) \<times> db" where
  "cmdUser env args w db =
     (if args = [] \<or> hd args \<noteq> ''add''
      then (([], failed ''usage: motzworks user add -username <u> -password <p> [-role admin|viewer]''), db)
      else with_flags env user_flags (tl args) (\<lambda>e. (([], e), db)) (\<lambda>st rest.
        let username = flag_value st ''username'' []; password = flag_value st ''password'' []
        in if username = [] \<or> password = [] then (([], failed ''user add requires -username and -password''), db)
           else (case NormalizeRole (flag_value st ''role'' ''viewer'') of
             Inl e \<Rightarrow> (([], Returned (Some e)), db)
           | Inr role \<Rightarrow> (case load_config env (flag_value st ''config'' ''config.yaml'') of
             Inl e \<Rightarrow> (([], Returned (Some e)), db)
           | Inr cfg \<Rightarrow> (case HashPassword (cx_bcrypt env) password of
             Inl e \<Rightarrow> (([], Returned (Some e)), db)
           | Inr hash \<Rightarrow> (case store_Open env (DSN (cf_database cfg)) of
             Some e \<Rightarrow> (([], Returned (Some e)), db)
           | None \<Rightarrow> (case CreateUser username hash role w db of
             (Inl e, db') \<Rightarrow> (([], Returned (Some e)), db')
           | (Inr uid, db') \<Rightarrow> ((user_saved env username role uid, Returned None), db'))))))))"

section \<open>scan\<close>

definition splitNonEmpty :: "string \<Rightarrow> string list" where
  "splitNonEmpty s = filter (\<lambda>p. p \<noteq> []) (map trim_space (split_on (CHR '','') s))"

text \<open>The loop of \<open>parsePorts\<close>; the first bad port ends it.\<close>

fun ports_from :: "(string \<Rightarrow> string) \<Rightarrow> string list \<Rightarrow> int list \<Rightarrow> go_error + int list" where
  "ports_from q [] ports = Inr ports"
| "ports_from q (p # ps) ports =
     (case atoi (trim_space p) of
        None \<Rightarrow> Inl (ErrText (''invalid port '' @ q p))
      | Some n \<Rightarrow> if n < 1 \<or> 65535 < n then Inl (ErrText (''invalid port '' @ q p)) else ports_from q ps (ports @ [n]))"

definition parsePorts :: "(string \<Rightarrow> string) \<Rightarrow> string \<Rightarrow> go_error + int list" where
  "parsePorts q s = (if trim_space s = [] then Inr [] else ports_from q (splitNonEmpty s) [])"

record cred_flags =
  gf_sshUser :: string
  gf_sshPass :: string
  gf_sshKey :: string
  gf_snmpCommunity :: string
  gf_winrmUser :: string
  gf_winrmPass :: string
  gf_wmiUser :: string
  gf_wmiPass :: string
  gf_wmiDomain :: string
  gf_proxmoxToken :: string
  gf_proxmoxSecret :: string
  gf_opnsenseKey :: string
  gf_opnsenseSecret :: string
  gf_fortigateToken :: string

definition made_cred :: "string \<Rightarrow> string \<Rightarrow> string \<Rightarrow> (string \<times> string) list \<Rightarrow> credential" where
  "made_cred kind username secret extra =
     \<lparr>cr_id = [], cr_kind = kind, cr_username = username, cr_secret = secret, cr_extra = extra\<rparr>"

definition ssh_creds :: "(string \<Rightarrow> read_result) \<Rightarrow> cred_flags \<Rightarrow> go_error + credential list" where
  "ssh_creds readfile f =
     (if gf_sshUser f = [] then Inr []
      else if gf_sshKey f = [] then Inr [made_cred ''ssh-password'' (gf_sshUser f) (gf_sshPass f) []]
      else (case readfile (gf_sshKey f) of
              FileContent key \<Rightarrow> Inr [made_cred ''ssh-key'' (gf_sshUser f) key []]
            | FileMissing e \<Rightarrow> Inl (ErrWrap ''read ssh key: '' e)
            | FileError e \<Rightarrow> Inl (ErrWrap ''read ssh key: '' e)))"

definition buildCredentials :: "(string \<Rightarrow> read_result) \<Rightarrow> cred_flags \<Rightarrow> go_error + credential list" where
  "buildCredentials readfile f =
     (case ssh_creds readfile f of
        Inl e \<Rightarrow> Inl e
      | Inr creds \<Rightarrow> Inr (creds @
          (if gf_snmpCommunity f \<noteq> [] then [made_cred ''snmp-v2c'' [] (gf_snmpCommunity f) []] else []) @
          (if gf_winrmUser f \<noteq> [] then [made_cred ''winrm'' (gf_winrmUser f) (gf_winrmPass f) []] else []) @
          (if gf_wmiUser f \<noteq> [] then [made_cred ''wmi'' (gf_wmiUser f) (gf_wmiPass f)
             (if gf_wmiDomain f \<noteq> [] then [(''domain'', gf_wmiDomain f)] else [])] else []) @
          (if gf_proxmoxToken f \<noteq> [] then [made_cred ''proxmox-token'' (gf_proxmoxToken f) (gf_proxmoxSecret f) []] else []) @
          (if gf_opnsenseKey f \<noteq> [] then [made_cred ''opnsense-api'' (gf_opnsenseKey f) (gf_opnsenseSecret f) []] else []) @
          (if gf_fortigateToken f \<noteq> [] then [made_cred ''fortigate-token'' [] (gf_fortigateToken f) []] else [])))"

text \<open>\<open>%-15s\<close>; what is padded here is ASCII.\<close>

definition pad :: "nat \<Rightarrow> string \<Rightarrow> string" where
  "pad n s = s @ replicate (n - length s) CHR '' ''"

definition host_line :: "(pg_error \<Rightarrow> string) \<Rightarrow> host_result \<Rightarrow> string" where
  "host_line pgt h =
     (let status0 = (case hr_err h of None \<Rightarrow> ''ok'' | Some e \<Rightarrow> ''error: '' @ error_text pgt e);
          via = (if hr_collector h = [] then ''(discovery only)'' else hr_collector h);
          status = (if hr_collector h = [] \<and> hr_collecterr h \<noteq> [] then ''collect failed: '' @ hr_collecterr h else status0)
      in ''  '' @ pad 15 (hr_addr h) @ '' '' @ pad 10 (hr_class h) @ '' via='' @ pad 12 via @ '' changes='' @
         itoa (hr_changes h) @ '' '' @ status @ newline)"

definition printSummary :: "(pg_error \<Rightarrow> string) \<Rightarrow> summary \<Rightarrow> string" where
  "printSummary pgt s =
     ''scan '' @ sm_run s @ '': discovered='' @ itoa (sm_discovered s) @ '' collected='' @ itoa (sm_collected s) @
     '' persisted='' @ itoa (sm_persisted s) @ newline @ concat (map (host_line pgt) (sm_hosts s))"

definition scan_flags :: flag_spec where
  "scan_flags = map (\<lambda>n. (n, StringFlag)) [''config'', ''targets'', ''ports'', ''ssh-user'', ''ssh-pass'', ''ssh-key'',
     ''snmp-community'', ''winrm-user'', ''winrm-pass'', ''wmi-user'', ''wmi-pass'', ''wmi-domain'', ''proxmox-token'',
     ''proxmox-secret'', ''opnsense-key'', ''opnsense-secret'', ''fortigate-token''] @
   [(''timeout'', DurationFlag), (''discover-concurrency'', IntFlag), (''collect-concurrency'', IntFlag),
    (''rate'', IntFlag), (''jitter'', DurationFlag)]"

definition cred_flags_of :: "settings \<Rightarrow> cred_flags" where
  "cred_flags_of st = (let v = (\<lambda>n. flag_value st n []) in
     \<lparr>gf_sshUser = v ''ssh-user'', gf_sshPass = v ''ssh-pass'', gf_sshKey = v ''ssh-key'',
      gf_snmpCommunity = v ''snmp-community'', gf_winrmUser = v ''winrm-user'', gf_winrmPass = v ''winrm-pass'',
      gf_wmiUser = v ''wmi-user'', gf_wmiPass = v ''wmi-pass'', gf_wmiDomain = v ''wmi-domain'',
      gf_proxmoxToken = v ''proxmox-token'', gf_proxmoxSecret = v ''proxmox-secret'',
      gf_opnsenseKey = v ''opnsense-key'', gf_opnsenseSecret = v ''opnsense-secret'',
      gf_fortigateToken = v ''fortigate-token''\<rparr>)"

definition command_options :: "flag_syntax \<Rightarrow> settings \<Rightarrow> int list \<Rightarrow> credential list \<Rightarrow> scan_options" where
  "command_options fx st ports creds =
     \<lparr>sp_specs = splitNonEmpty (flag_value st ''targets'' []), sp_creds = creds,
      sp_discovery = \<lparr>do_ports = ports, do_timeout = flag_number (fx_duration fx) st ''timeout'' (2 * second),
        do_concurrency = flag_number (fx_int fx) st ''discover-concurrency'' 256,
        do_rate = flag_number (fx_int fx) st ''rate'' 0, do_jitter = flag_number (fx_duration fx) st ''jitter'' 0\<rparr>,
      sp_workers = flag_number (fx_int fx) st ''collect-concurrency'' 32\<rparr>"

definition cmdScan :: "cli_env \<Rightarrow> string list \<Rightarrow> world \<Rightarrow> db \<Rightarrow> ((string \<times> ended) \<times> db) option" where
  "cmdScan env args w db =
     (let stop = (\<lambda>e. Some (([], Returned (Some e)), db))
      in with_flags env scan_flags args (\<lambda>e. Some (([], e), db)) (\<lambda>st rest.
        if flag_value st ''targets'' [] = []
        then Some (([], failed ''scan requires -targets (e.g. -targets 10.0.0.0/24)''), db)
        else (case load_config env (flag_value st ''config'' ''config.yaml'') of Inl e \<Rightarrow> stop e
        | Inr cfg \<Rightarrow> (case parsePorts (cx_quote env) (flag_value st ''ports'' []) of Inl e \<Rightarrow> stop e
        | Inr ports \<Rightarrow> (case buildCredentials (cx_read env) (cred_flags_of st) of Inl e \<Rightarrow> stop e
        | Inr creds \<Rightarrow> (case store_Open env (DSN (cf_database cfg)) of Some e \<Rightarrow> stop e
        | None \<Rightarrow>
            (case Run pg_ops (registerCollectors (cx_collectors env) new_registry)
                    ((cx_scan env)\<lparr>se_probe := SNMPProbe creds (cx_snmp env) (cx_order env)\<rparr>)
                    (command_options (cx_flags env) st ports creds) w db of
               None \<Rightarrow> None
             | Some ((smy, Some e), db') \<Rightarrow> Some (([], Returned (Some e)), db')
             | Some ((smy, None), db') \<Rightarrow> Some ((printSummary (w_errtext w) smy, Returned None), db'))))))))"

section \<open>serve\<close>

record serving =
  sg_server :: server
  sg_scheduler :: scheduler
  sg_registry :: registry
  sg_addr :: string
  sg_log :: logger

datatype serve_outcome = ServeExit int | ServeError go_error | Serving serving

definition serve_flags :: flag_spec where
  "serve_flags = [(''config'', StringFlag), (''addr'', StringFlag), (''migrate'', BoolFlag)]"

text \<open>\<open>secret, _ = auth.GenerateSecret()\<close>: on an error the secret is the empty string.\<close>

definition session_secret :: "cli_env \<Rightarrow> config \<Rightarrow> string" where
  "session_secret env cfg =
     (if ac_secret (cf_auth cfg) = []
      then (case GenerateSecret (cx_random env) of Inl e \<Rightarrow> [] | Inr s \<Rightarrow> s)
      else ac_secret (cf_auth cfg))"

text \<open>Durations are nanoseconds in 64 bits; the server's clock counts microseconds.\<close>

definition session_ttl :: "config \<Rightarrow> int" where
  "session_ttl cfg = wrap64 (ac_hours (cf_auth cfg) * (3600 * second)) div 1000"

definition serve_server :: "cli_env \<Rightarrow> config \<Rightarrow> vault \<Rightarrow> plain_handler \<Rightarrow> server" where
  "serve_server env cfg v static = api_New v
     \<lparr>so_secret = session_secret env cfg, so_ttl = session_ttl cfg, so_workers = sn_concurrency (cf_scan cfg),
      so_secure = False, so_static = Some static\<rparr>"

definition serve_scheduler :: "config \<Rightarrow> scheduler" where
  "serve_scheduler cfg = scheduler_New (30 * second) (sn_concurrency (cf_scan cfg)) (sn_rate (cf_scan cfg))
     (wrap64 (sn_jitter (cf_scan cfg) * 1000000))"

definition start_serving :: "cli_env \<Rightarrow> settings \<Rightarrow> config \<Rightarrow> vault \<Rightarrow> world \<Rightarrow> db \<Rightarrow> serve_outcome \<times> db" where
  "start_serving env st cfg v w db =
     (let db1 = snd (CountUsers w db)
      in case web_Handler (cx_web env) of
           Inl e \<Rightarrow> (ServeError (ErrWrap ''web assets: '' e), db1)
         | Inr static \<Rightarrow>
             (Serving \<lparr>sg_server = serve_server env cfg v static, sg_scheduler = serve_scheduler cfg,
                sg_registry = registerCollectors (cx_collectors env) new_registry,
                sg_addr = (let a = flag_value st ''addr'' [] in if a \<noteq> [] then a else cf_addr cfg),
                sg_log = logging_New (lc_level (cf_log cfg)) (lc_format (cf_log cfg))\<rparr>, db1))"

definition no_vault_key :: "world \<Rightarrow> config \<Rightarrow> go_error \<Rightarrow> go_error" where
  "no_vault_key w cfg e = ErrText (''vault: '' @ error_text (w_errtext w) e @
     '' (generate one with `motzworks vault genkey` and export '' @ cf_keyenv cfg @ '')'')"

definition cmdServe :: "cli_env \<Rightarrow> 's mig_world \<Rightarrow> migrations_fs \<Rightarrow> string list \<Rightarrow> world \<Rightarrow> db \<times> 's mig_db \<Rightarrow>
    serve_outcome \<times> db \<times> 's mig_db" where
  "cmdServe env mw fs args w = (\<lambda>(db, mdb). with_flags env serve_flags args
     (\<lambda>e. (case e of Exited n \<Rightarrow> ServeExit n | Returned x \<Rightarrow> ServeExit 0, db, mdb)) (\<lambda>st rest.
       case load_config env (flag_value st ''config'' ''config.yaml'') of Inl e \<Rightarrow> (ServeError e, db, mdb)
     | Inr cfg \<Rightarrow> (case FromEnv (cx_getenv env) (cf_keyenv cfg) of Inl e \<Rightarrow> (ServeError (no_vault_key w cfg e), db, mdb)
     | Inr v \<Rightarrow> (case store_Open env (DSN (cf_database cfg)) of Some e \<Rightarrow> (ServeError e, db, mdb)
     | None \<Rightarrow>
         if parse_bool (flag_value st ''migrate'' ''false'') = Some True
         then (case Migrate mw fs mdb of
                 ((applied, Some e), mdb') \<Rightarrow> (ServeError (ErrWrap ''migrate: '' e), db, mdb')
               | ((applied, None), mdb') \<Rightarrow> (case start_serving env st cfg v w db of (r, db') \<Rightarrow> (r, db', mdb')))
         else (case start_serving env st cfg v w db of (r, db') \<Rightarrow> (r, db', mdb))))))"

section \<open>main\<close>

datatype command =
    Version | ConfigCmd "string list" | MigrateCmd "string list" | ScanCmd "string list" | ServeCmd "string list"
  | UserCmd "string list" | VaultCmd "string list" | Help | NoCommand | Unknown string

definition main_command :: "string list \<Rightarrow> command" where
  "main_command args =
     (case args of
        [] \<Rightarrow> NoCommand
      | c # rest \<Rightarrow>
          if c \<in> {''version'', ''-v'', ''--version''} then Version
          else if c = ''config'' then ConfigCmd rest else if c = ''migrate'' then MigrateCmd rest
          else if c = ''scan'' then ScanCmd rest else if c = ''serve'' then ServeCmd rest
          else if c = ''user'' then UserCmd rest else if c = ''vault'' then VaultCmd rest
          else if c \<in> {''help'', ''-h'', ''--help''} then Help else Unknown c)"

text \<open>The exit status of the process after a command.\<close>

fun exit_status :: "ended \<Rightarrow> int" where
  "exit_status (Returned None) = 0"
| "exit_status (Returned (Some e)) = 1"
| "exit_status (Exited n) = n"

fun main_status :: "command \<Rightarrow> ended \<Rightarrow> int" where
  "main_status NoCommand e = 2" | "main_status (Unknown c) e = 2" | "main_status Help e = 0" | "main_status Version e = 0"
| "main_status _ e = exit_status e"

end
