(* ===== verification/CliSpec.thy ===== *)
theory CliSpec
  imports Cli ApiSecrets
begin

text \<open>
  What the commands promise: \<open>parsePorts\<close> accepts exactly the port numbers, the credentials that
  \<open>scan\<close> builds are the ones its collectors pick, and an account made by \<open>user add\<close> can log in
  at the interface \<open>serve\<close> offers.
\<close>

section \<open>Ports\<close>

definition no_plain :: "string list \<Rightarrow> bool" where
  "no_plain ps \<longleftrightarrow> (\<forall>p \<in> set ps. \<forall>x \<in> set p. \<not> plain_char x)"

lemma utf8_spaces_no_plain: "no_plain utf8_spaces" and rev_utf8_spaces_no_plain: "no_plain (map rev utf8_spaces)"
  by (auto simp: no_plain_def utf8_spaces_def plain_char_def)

lemma space_len_no_plain:
  assumes "no_plain ps" and "x \<in> set (take (space_len ps s) s)"
  shows "\<not> plain_char x"
proof (cases s)
  case s: (Cons c cs)
  show ?thesis
  proof (cases "ascii_space c")
    case True
    then show ?thesis using assms(2) s plain_char_not_space by auto
  next
    case False
    show ?thesis
    proof (cases "filter (has_prefix (c # cs)) ps")
      case Nil
      with False s assms(2) show ?thesis by simp
    next
      case (Cons p rest)
      then have "p \<in> set ps" and "take (length p) (c # cs) = p"
        by (auto simp: filter_eq_Cons_iff has_prefix_def)
      with False Cons assms s show ?thesis by (auto simp: no_plain_def)
    qed
  qed
qed (use assms(2) in simp)

lemma strip_lead_keeps: "no_plain ps \<Longrightarrow> plain_char c \<Longrightarrow> c \<in> set s \<Longrightarrow> c \<in> set (strip_lead ps s)"
proof (induction ps s rule: strip_lead.induct)
  case (1 ps s)
  let ?n = "space_len ps s"
  show ?case
  proof (cases "?n = 0")
    case True
    with 1 show ?thesis by (simp add: strip_lead_stop)
  next
    case False
    have "c \<notin> set (take ?n s)" using space_len_no_plain 1(2,3) by blast
    moreover have "c \<in> set (take ?n s) \<union> set (drop ?n s)"
      using 1(4) by (simp flip: set_append)
    ultimately show ?thesis using 1 False by (subst strip_lead.simps) simp
  qed
qed

lemma trim_space_keeps:
  assumes "plain_char c" and "c \<in> set s"
  shows "c \<in> set (trim_space s)"
  using strip_lead_keeps [OF utf8_spaces_no_plain assms]
    strip_lead_keeps [OF rev_utf8_spaces_no_plain assms(1), of "rev (trim_left s)"]
  by (simp add: trim_space_def trim_left_def trim_right_def)

lemma splitNonEmpty_blank: "trim_space s = [] \<Longrightarrow> splitNonEmpty s = []"
proof -
  assume blank: "trim_space s = []"
  have "plain_char CHR '',''" by (simp add: plain_char_def)
  with trim_space_keeps [of "CHR '',''" s] blank have "CHR '','' \<notin> set s" by auto
  with blank show "splitNonEmpty s = []" by (simp add: splitNonEmpty_def split_on_single)
qed

definition port_of :: "string \<Rightarrow> int option" where
  "port_of p = (case atoi (trim_space p) of None \<Rightarrow> None | Some n \<Rightarrow> if 1 \<le> n \<and> n \<le> 65535 then Some n else None)"

lemma ports_from_ref:
  "ports_from q ps acc = (case find (\<lambda>p. port_of p = None) ps of
       Some p \<Rightarrow> Inl (ErrText (''invalid port '' @ q p))
     | None \<Rightarrow> Inr (acc @ map (the \<circ> port_of) ps))"
  by (induction q ps acc rule: ports_from.induct) (auto simp: port_of_def split: option.splits)

lemma parsePorts_ref:
  "parsePorts q s = (case find (\<lambda>p. port_of p = None) (splitNonEmpty s) of
       Some p \<Rightarrow> Inl (ErrText (''invalid port '' @ q p))
     | None \<Rightarrow> Inr (map (the \<circ> port_of) (splitNonEmpty s)))"
proof (cases "trim_space s = []")
  case True
  then show ?thesis by (simp add: parsePorts_def splitNonEmpty_blank)
next
  case False
  then show ?thesis unfolding parsePorts_def ports_from_ref by (simp split: option.splits)
qed

lemma find_split:
  "find P xs = Some x \<longleftrightarrow> (\<exists>pre post. xs = pre @ x # post \<and> list_all (\<lambda>y. \<not> P y) pre \<and> P x)"
proof (induction xs)
  case (Cons a xs)
  show ?case
  proof (cases "P a")
    case True
    then show ?thesis by (auto simp: Cons_eq_append_conv)
  next
    case False
    have "\<exists>pre' post. a # pre @ x # t = pre' @ x # post \<and> list_all (\<lambda>y. \<not> P y) pre'"
      if "list_all (\<lambda>y. \<not> P y) pre" for pre t
      using False that by (intro exI [of _ "a # pre"] exI [of _ t]) simp
    with False have "(\<exists>pre post. a # xs = pre @ x # post \<and> list_all (\<lambda>y. \<not> P y) pre \<and> P x) \<longleftrightarrow>
        (\<exists>pre post. xs = pre @ x # post \<and> list_all (\<lambda>y. \<not> P y) pre \<and> P x)"
      by (auto simp: Cons_eq_append_conv)
    with False Cons show ?thesis by simp
  qed
qed simp

lemma all_ports:
  assumes "find (\<lambda>p. port_of p = None) ps = None"
  shows "map port_of ps = map Some ports \<longleftrightarrow> ports = map (the \<circ> port_of) ps"
proof -
  have "map port_of ps = map Some (map (the \<circ> port_of) ps)" using assms by (auto simp: find_None_iff)
  then show ?thesis by (metis inj_Some list.inj_map inj_eq)
qed

lemma bad_port: "find (\<lambda>p. port_of p = None) ps = Some p \<Longrightarrow> map port_of ps \<noteq> map Some ports"
  by (induction ps arbitrary: ports) (auto split: if_splits)


section \<open>Credentials\<close>

definition login_of :: "string list \<Rightarrow> credential list \<Rightarrow> (string \<times> string) option" where
  "login_of kinds creds = map_option (\<lambda>c. (cr_username c, cr_secret c)) (pick_kind kinds creds)"

lemma login_of_Nil [simp]: "login_of ks [] = None"
  by (simp add: login_of_def pick_kind_def)

lemma login_of_Cons [simp]:
  "login_of ks (c # cs) = (if cr_kind c \<in> set ks then Some (cr_username c, cr_secret c) else login_of ks cs)"
  by (simp add: login_of_def pick_kind_def)

lemma login_of_append: "login_of ks (xs @ ys) = (case login_of ks xs of None \<Rightarrow> login_of ks ys | Some l \<Rightarrow> Some l)"
  by (induction xs) simp_all

lemma login_of_if: "login_of ks (if b then [made_cred k u s x] else []) = (if b \<and> k \<in> set ks then Some (u, s) else None)"
  by (simp add: made_cred_def)

lemma login_of_ssh:
  assumes "ssh_creds readfile f = Inr creds"
  shows "login_of ks creds = (if gf_sshUser f = [] then None
    else if gf_sshKey f = [] then (if ''ssh-password'' \<in> set ks then Some (gf_sshUser f, gf_sshPass f) else None)
    else if ''ssh-key'' \<in> set ks then Some (gf_sshUser f, case readfile (gf_sshKey f) of FileContent k \<Rightarrow> k | _ \<Rightarrow> [])
    else None)"
  using assms by (auto simp: ssh_creds_def made_cred_def split: if_splits read_result.splits)

definition demo_flags :: cred_flags where
  "demo_flags = \<lparr>gf_sshUser = ''root'', gf_sshPass = [], gf_sshKey = ''id_rsa'', gf_snmpCommunity = ''public'',
     gf_winrmUser = [], gf_winrmPass = [], gf_wmiUser = [], gf_wmiPass = [], gf_wmiDomain = [], gf_proxmoxToken = [],
     gf_proxmoxSecret = [], gf_opnsenseKey = [], gf_opnsenseSecret = [], gf_fortigateToken = []\<rparr>"




section \<open>Accounts\<close>

text \<open>
  (C33) An account made by \<open>user add\<close> can log in: after the command has succeeded, a login with
  that name and password is answered 200 with the role given on the command line (\<open>viewer\<close> if
  none), whether or not the account existed, and every other account is as it was.
\<close>

theorem user_add_then_login:
  assumes "quiet w" and "db_inv db" and "cmdUser cli args w db = ((out, Returned None), db')"
    and "flag_parse (cx_flags cli) user_flags [] (tl args) = FlagsOk st rest"
    and "ap_bcrypt env = cx_bcrypt cli"
    and "\<And>p h. bc_generate (cx_bcrypt cli) p = Inr h \<Longrightarrow> bc_compare (cx_bcrypt cli) h p = None"
    and "read_body login_fields \<lparr>lq_username = [], lq_password = []\<rparr> rq =
      Some \<lparr>lq_username = flag_value st ''username'' [], lq_password = flag_value st ''password'' []\<rparr>"
  shows "\<exists>role. NormalizeRole (flag_value st ''role'' ''viewer'') = Inr role \<and>
    rp_status (fst (handleLogin env sv rq w db')) = 200 \<and>
    rp_body (fst (handleLogin env sv rq w db')) =
      JsonBody (JObj [(''role'', JStr role), (''username'', JStr (flag_value st ''username'' []))]) \<and>
    filter (\<lambda>u. au_username u \<noteq> flag_value st ''username'' []) (db_appusers db') =
      filter (\<lambda>u. au_username u \<noteq> flag_value st ''username'' []) (db_appusers db)"
proof -
  let ?n = "flag_value st ''username'' []" and ?p = "flag_value st ''password'' []"
  obtain role hash uid where role: "NormalizeRole (flag_value st ''role'' ''viewer'') = Inr role"
    and hash: "HashPassword (cx_bcrypt cli) ?p = Inr hash" and make: "CreateUser ?n hash role w db = (Inr uid, db')"
    using assms(3) by (auto simp: cmdUser_def with_flags_def assms(4) Let_def failed_def split: if_splits sum.splits option.splits prod.splits)
  have inv: "db_inv db'" using CreateUser_inv make assms(2) unfolding preserves_def by (metis snd_conv)
  obtain u where u: "fst (GetUserByUsername ?n w db') = Inr u" "au_username u = ?n" "au_hash u = hash" "au_role u = role"
    and others: "filter (\<lambda>u. au_username u \<noteq> ?n) (db_appusers db') = filter (\<lambda>u. au_username u \<noteq> ?n) (db_appusers db)"
    using create_user_then_lookup [OF assms(1,2) make] by auto
  have "find (\<lambda>u. au_username u = ?n) (db_appusers db') = Some u"
    using u(1) by (simp add: GetUserByUsername_run [OF assms(1) inv] split: option.splits)
  moreover have "CheckPassword (cx_bcrypt cli) hash ?p" using hash assms(6) by (simp add: CheckPassword_def HashPassword_def)
  ultimately have "handleLogin env sv rq w db' = login_granted env sv rq u w (tick db')"
    using handleLogin_run [OF assms(1) inv assms(7)] u assms(5) by simp
  then have "rp_status (fst (handleLogin env sv rq w db')) = 200"
    and "rp_body (fst (handleLogin env sv rq w db')) = JsonBody (JObj [(''role'', JStr role), (''username'', JStr ?n)])"
    by (simp_all add: login_granted_def Let_def best_effort_def respond_def writeJSON_def u)
  with role others show ?thesis by blast
qed

definition demo_cli :: cli_env where
  "demo_cli = \<lparr>cx_flags = \<lparr>fx_int = atoi, fx_duration = atoi\<rparr>, cx_quote = id, cx_read = (\<lambda>_. FileMissing ErrNoRows),
     cx_yaml = (\<lambda>_ c. Inr c), cx_getenv = (\<lambda>_. []), cx_dsn = (\<lambda>_. None), cx_connect = None, cx_ping = None,
     cx_bcrypt = ap_bcrypt demo_api, cx_random = Inr (replicate 32 CHR ''r''), cx_collectors = demo_network,
     cx_scan = demo_env, cx_snmp = ce_snmp demo_network, cx_order = (\<lambda>_. []),
     cx_web = \<lparr>wf_sub = None, wf_index = Inr ''<html>'', wf_exists = (\<lambda>_. False), wf_serve = (\<lambda>_. (404, [], []))\<rparr>\<rparr>"

lemma user_add_then_login_witness:
  "\<exists>db'. cmdUser demo_cli [''add'', ''-username'', ''bob'', ''-password=h9''] demo_world demo_user_db =
       ((''user bob (viewer) saved: u2'' @ newline, Returned None), db') \<and>
     rp_status (fst (handleLogin demo_api demo_server demo_login_request demo_world db')) = 200"
proof -
  have f: "flag_parse (cx_flags demo_cli) user_flags [] [''-username'', ''bob'', ''-password=h9''] =
      FlagsOk [(''username'', ''bob''), (''password'', ''h9'')] []"
    by (simp add: user_flags_def flag_name_def str_eval)
  have env: "load_config demo_cli ''config.yaml'' = Inr Default" "HashPassword (cx_bcrypt demo_cli) p = Inr p"
    "store_Open demo_cli dsn = None" "cx_quote demo_cli = id" for p dsn
    by (simp_all add: demo_cli_def load_config_def Load_def applyEnv_def overlay_def Default_def Validate_def
        HashPassword_def demo_api_def store_Open_def)
  obtain db' where c: "cmdUser demo_cli [''add'', ''-username'', ''bob'', ''-password=h9''] demo_world demo_user_db =
       ((''user bob (viewer) saved: u2'' @ newline, Returned None), db')"
    by (simp add: cmdUser_def with_flags_def f flag_value_def NormalizeRole_def env CreateUser_def
        stmt_quiet demo_user_db_def user_saved_def RoleAdmin_def RoleViewer_def Let_def del: flag_parse.simps)
  have b: "read_body login_fields \<lparr>lq_username = [], lq_password = []\<rparr> demo_login_request =
      Some \<lparr>lq_username = flag_value [(''username'', ''bob''), (''password'', ''h9'')] ''username'' [],
        lq_password = flag_value [(''username'', ''bob''), (''password'', ''h9'')] ''password'' []\<rparr>"
    by (simp add: demo_login_body flag_value_def)
  have l: "ap_bcrypt demo_api = cx_bcrypt demo_cli" "bc_generate (cx_bcrypt demo_cli) p = Inr h \<Longrightarrow> bc_compare (cx_bcrypt demo_cli) h p = None"
    for p h by (simp_all add: demo_cli_def demo_api_def)
  from user_add_then_login [OF demo_world_quiet demo_users_inv c _ l b, of "[]"] f c show ?thesis by auto
qed

section \<open>What serve sets up\<close>

text \<open>No configuration makes the session cookie of \<open>serve\<close> a secure one.\<close>

lemma serve_cookie_insecure:
  assumes "rp_cookie (fst (handleLogin env (serve_server cli cfg v static) rq w db)) = Some ck"
  shows "\<not> ck_secure ck"
  using assms
  by (auto simp: handleLogin_def readJSON_def login_failed_def login_granted_def best_effort_def respond_def writeError_def
      writeJSON_def session_cookie_def serve_server_def api_New_def Let_def split: option.splits sum.splits prod.splits if_splits)

end
