(* ===== verification/Service.thy ===== *)
theory Service
  imports Cli ApiSecrets
begin

text \<open>
  The running service: what \<open>cmdServe\<close> starts (the HTTP server, the scheduler, and the scans
  that requests start in the background) as a step relation over one database. A step is a
  whole request, a whole background scan or a whole pass of the scheduler; inside them the
  statements that fail and the moments they run at are the world's.
\<close>

record service_env =
  vc_api :: api_env
  vc_snmp :: snmp_net
  vc_order :: "addr list \<Rightarrow> (nat \<times> bool) list"

text \<open>The database and the scans whose goroutine has not run yet.\<close>

record service =
  sr_db :: db
  sr_background :: "scan_options list"

datatype event = Request request | Background scan_options | Pass

definition background_env :: "service_env \<Rightarrow> scan_env \<Rightarrow> scan_options \<Rightarrow> scan_env" where
  "background_env env net opts = net\<lparr>se_probe := SNMPProbe (sp_creds opts) (vc_snmp env) (vc_order env)\<rparr>"

text \<open>The pools of the scans of a pass end in orders they can end in.\<close>

definition valid_pass :: "service_env \<Rightarrow> serving \<Rightarrow> pass_env \<Rightarrow> world \<Rightarrow> db \<Rightarrow> bool" where
  "valid_pass env sg pass w db \<longleftrightarrow>
     (case DueSchedules w db of
        (Inl e, db1) \<Rightarrow> True
      | (Inr due, db1) \<Rightarrow>
          (case ListCredentials w db1 of
             (Inl e, db2) \<Rightarrow> True
           | (Inr sealed, db2) \<Rightarrow>
               pass_orders (sg_scheduler sg) pass (DecryptCredentials (ap_box (vc_api env)) (sv_vault (sg_server sg)) sealed) 0 due))"

inductive service_step :: "service_env \<Rightarrow> serving \<Rightarrow> world \<Rightarrow> service \<Rightarrow> event \<Rightarrow> service \<Rightarrow> bool"
  for env sg w where
  request: "Handler (vc_api env) (sg_server sg) rq w (sr_db s) = (r, db') \<Longrightarrow>
    service_step env sg w s (Request rq)
      \<lparr>sr_db = db', sr_background = sr_background s @ (case rp_scan r of None \<Rightarrow> [] | Some opts \<Rightarrow> [opts])\<rparr>"
| background: "sr_background s = before @ opts # after \<Longrightarrow>
    scan_orders (background_env env net opts) opts \<Longrightarrow>
    Run pg_ops (sg_registry sg) (background_env env net opts) opts w (sr_db s) = Some (res, db') \<Longrightarrow>
    service_step env sg w s (Background opts) \<lparr>sr_db = db', sr_background = before @ after\<rparr>"
| pass: "valid_pass env sg p w (sr_db s) \<Longrightarrow>
    runDue (sg_scheduler sg) (sg_registry sg) (ap_box (vc_api env)) (sv_vault (sg_server sg)) p w (sr_db s) = Some (log, db') \<Longrightarrow>
    service_step env sg w s Pass (s\<lparr>sr_db := db'\<rparr>)"

inductive service_run :: "service_env \<Rightarrow> serving \<Rightarrow> world \<Rightarrow> service \<Rightarrow> event list \<Rightarrow> service \<Rightarrow> bool"
  for env sg w where
  start: "service_run env sg w s [] s"
| more: "service_run env sg w s es s' \<Longrightarrow> service_step env sg w s' e s'' \<Longrightarrow> service_run env sg w s (es @ [e]) s''"

inductive_cases service_stepE: "service_step env sg w s e s'"

section \<open>Every step keeps the schema\<close>

lemma runDue_inv:
  assumes "db_inv db" and "valid_pass env sg p w db"
    and "runDue (sg_scheduler sg) reg (ap_box (vc_api env)) (sv_vault (sg_server sg)) p w db = Some (log, db')"
  shows "db_inv db'"
proof -
  obtain r1 db1 where d: "DueSchedules w db = (r1, db1)" by (cases "DueSchedules w db")
  have "preserves db_inv DueSchedules" "preserves db_inv ListCredentials" by (intro inv_intros)+
  note inv1 = preservesD [OF this(1) assms(1), of w, unfolded d snd_conv] and lc = this(2)
  obtain r2 db2 where l: "ListCredentials w db1 = (r2, db2)" by (cases "ListCredentials w db1")
  note inv2 = preservesD [OF lc inv1, of w, unfolded l snd_conv]
  from assms(2,3) inv1 inv2 show ?thesis
    by (auto simp: runDue_def valid_pass_def d l split: sum.splits if_splits intro: run_schedules_inv)
qed

lemma step_inv: "service_step env sg w s e s' \<Longrightarrow> db_inv (sr_db s) \<Longrightarrow> db_inv (sr_db s')"
proof (erule service_stepE, goal_cases)
  case (1 rq r db')
  then show ?case using Handler_safe [of "vc_api env" "sg_server sg" rq] by (auto simp: safe_handler_def dest!: spec [of _ w] spec [of _ "sr_db s"])
next
  case (2 before opts after net res db')
  then show ?case using Run_keeps_admin by (cases res) auto
next
  case (3 p log db')
  then show ?case using runDue_inv by auto
qed


section \<open>Without an administrator nothing is managed\<close>

text \<open>Targets, credentials, accounts and schedules, but for the last logins and the next runs.\<close>

definition settings_of :: "db \<Rightarrow> target_row list \<times> cred_row list \<times> appuser_row list \<times> sched_row list" where
  "settings_of db = (db_targets db, db_creds db, map (\<lambda>u. u\<lparr>au_last := None\<rparr>) (db_appusers db),
     map (\<lambda>r. r\<lparr>sc_next := None\<rparr>) (db_scheds db))"

interpretation settings_frame: db_invariant "\<lambda>db. settings_of db = L" for L
  by unfold_locales (simp add: settings_of_def)

lemma settings_core: "core db' = core db \<Longrightarrow> settings_of db' = settings_of db"
proof -
  have "settings_of db = settings_of (core db)" for db by (simp add: settings_of_def core_def o_def)
  then show "core db' = core db \<Longrightarrow> ?thesis" by metis
qed

lemma settings_admin_tables: "admin_tables db' = admin_tables db \<Longrightarrow> settings_of db' = settings_of db"
  by (simp add: settings_of_def admin_tables_def)

lemma advance_settings: "preserves (\<lambda>db. settings_of db = L) (AdvanceSchedule sid iv)"
  unfolding AdvanceSchedule_def
  by (intro settings_frame.stmt_preserves) (auto simp: settings_of_def update_where_def o_def split: if_splits)

lemma run_schedules_settings:
  "pass_orders s env creds k ds \<Longrightarrow> db_inv db \<Longrightarrow> run_schedules s reg env creds w ds k db = Some (log, db') \<Longrightarrow>
   settings_of db' = settings_of db"
proof (induction ds arbitrary: k db log)
  case (Cons d ds)
  then have ord: "scan_orders (scheduled_env env creds k) (scheduled_options s creds d)"
    and ords: "pass_orders s env creds (Suc k) ds" by simp_all
  obtain r db1 where a: "AdvanceSchedule (du_sched d) (du_interval d) w db = (r, db1)" by fastforce
  have "preserves db_inv (AdvanceSchedule (du_sched d) (du_interval d))" by (intro inv_intros)
  from preservesD [OF this Cons.prems(2), of w] have inv1: "db_inv db1" by (simp add: a)
  have same: "settings_of db1 = settings_of db"
    using preservesD [OF advance_settings HOL.refl, of "du_sched d" "du_interval d" w db] by (simp add: a)
  show ?case
  proof (cases "(\<exists>e. r = Inl e) \<or> du_cidrs d = []")
    case True
    with Cons.prems(3) a Cons.IH [OF ords inv1] same show ?thesis by (auto split: sum.splits)
  next
    case False
    with Cons.prems(3) a obtain smy err db2 log' where
      run: "Run pg_ops reg (scheduled_env env creds k) (scheduled_options s creds d) w db1 = Some ((smy, err), db2)"
      and rest: "run_schedules s reg env creds w ds (Suc k) db2 = Some (log', db')"
      by (auto split: sum.splits option.splits)
    have "db_inv db2" using Run_keeps_admin [OF inv1 ord run] by (rule conjunct1)
    moreover have "settings_of db2 = settings_of db1"
      using Run_keeps_admin [OF inv1 ord run] by (intro settings_admin_tables) (rule conjunct2)
    ultimately
    show ?thesis using Cons.IH [OF ords _ rest] same by simp
  qed
qed simp

lemma due_settings: "preserves (\<lambda>db. settings_of db = L) DueSchedules" "preserves (\<lambda>db. settings_of db = L) ListCredentials"
  unfolding DueSchedules_def ListCredentials_def by (rule settings_frame.query_preserves)+

lemma runDue_settings:
  assumes "db_inv db" and "valid_pass env sg p w db"
    and "runDue (sg_scheduler sg) reg (ap_box (vc_api env)) (sv_vault (sg_server sg)) p w db = Some (log, db')"
  shows "settings_of db' = settings_of db"
proof -
  obtain r1 db1 where d: "DueSchedules w db = (r1, db1)" by (cases "DueSchedules w db")
  have "preserves db_inv DueSchedules" "preserves db_inv ListCredentials" by (intro inv_intros)+
  note inv1 = preservesD [OF this(1) assms(1), of w, unfolded d snd_conv] and lc = this(2)
  obtain r2 db2 where l: "ListCredentials w db1 = (r2, db2)" by (cases "ListCredentials w db1")
  note inv2 = preservesD [OF lc inv1, of w, unfolded l snd_conv]
  have q: "settings_of db1 = settings_of db" "settings_of db2 = settings_of db1"
    using preservesD [OF due_settings(1) HOL.refl, of w db] preservesD [OF due_settings(2) HOL.refl, of w db1] by (simp_all add: d l)
  from assms(2,3) inv1 inv2 q show ?thesis
    by (auto simp: runDue_def valid_pass_def d l split: sum.splits if_splits dest: run_schedules_settings)
qed

lemma quiet_step:
  assumes "service_step env sg w s e s'" and "db_inv (sr_db s)" and "sr_background s = []"
    and "\<And>rq now c. e = Request rq \<Longrightarrow> claimsFromRequest (vc_api env) (sg_server sg) now rq = Inr c \<Longrightarrow> cl_role c \<noteq> RoleAdmin"
  shows "settings_of (sr_db s') = settings_of (sr_db s) \<and> sr_background s' = []"
  using assms(1)
proof (rule service_stepE, goal_cases)
  case (1 rq r db')
  have "core db' = core (sr_db s) \<and> rp_scan r = None"
    using only_admins_change [of "vc_api env" "sg_server sg" w "sr_db s" rq, OF assms(4) [OF 1(1)]] 1(3) by simp
  then have "settings_of db' = settings_of (sr_db s)" "rp_scan r = None" by (blast intro: settings_core)+
  with 1(2) assms(3) show ?case by simp
next
  case 2
  with assms(3) show ?case by simp
next
  case 3
  with runDue_settings [OF assms(2)] assms(3) show ?case by auto
qed

text \<open>
  (C3) Without an administrator nothing is managed: in a run of the service in which no request
  carries a valid token of the role admin, no scan is started by a request, and the targets,
  credentials, accounts and schedules stay as they were; only logins are recorded and
  schedules re-armed. In particular no request can make an account or raise its role.
\<close>

theorem no_admin_no_change:
  assumes "service_run env sg w s es s'" and "db_inv (sr_db s)" and "sr_background s = []"
    and "\<And>rq now c. Request rq \<in> set es \<Longrightarrow> claimsFromRequest (vc_api env) (sg_server sg) now rq = Inr c \<Longrightarrow> cl_role c \<noteq> RoleAdmin"
  shows "settings_of (sr_db s') = settings_of (sr_db s) \<and> sr_background s' = []"
proof -
  have "db_inv (sr_db s') \<and> settings_of (sr_db s') = settings_of (sr_db s) \<and> sr_background s' = []"
    using assms
  proof (induction rule: service_run.induct)
    case (more s es s' e s'')
    then have "db_inv (sr_db s')" "settings_of (sr_db s') = settings_of (sr_db s)" "sr_background s' = []" by auto
    with more.hyps(2) quiet_step [OF more.hyps(2)] more.prems(3) show ?case by (auto intro: step_inv)
  qed simp
  then show ?thesis by blast
qed

section \<open>An example\<close>

definition demo_service_env :: service_env where
  "demo_service_env = \<lparr>vc_api = demo_api, vc_snmp = ce_snmp demo_network, vc_order = (\<lambda>_. [])\<rparr>"

definition demo_serving :: serving where
  "demo_serving = \<lparr>sg_server = demo_server, sg_scheduler = scheduler_New 0 0 0 0,
     sg_registry = registerCollectors demo_network new_registry, sg_addr = '':8080'', sg_log = logging_New [] []\<rparr>"

definition demo_service :: service where
  "demo_service = \<lparr>sr_db = demo_user_db, sr_background = []\<rparr>"

text \<open>A login, then a pass of the scheduler.\<close>

lemma demo_service_run:
  "\<exists>s'. service_run demo_service_env demo_serving demo_world demo_service [Request demo_login_request, Pass] s'"
proof -
  obtain r db' where h: "Handler demo_api demo_server demo_login_request demo_world demo_user_db = (r, db')"
    by (cases "Handler demo_api demo_server demo_login_request demo_world demo_user_db")
  have same: "core db' = core demo_user_db \<and> rp_scan r = None"
    using only_admins_change [of demo_api demo_server demo_world demo_user_db demo_login_request] h
    by (simp add: claimsFromRequest_def demo_login_request_def demo_request_def)
  then have "db_scheds db' = []" by (auto simp: core_def demo_user_db_def empty_db_def dest!: arg_cong [of _ _ db_scheds])
  then have due: "DueSchedules demo_world db' = (Inr [], tick db')"
    by (simp add: DueSchedules_def query_quiet)
  have "service_step demo_service_env demo_serving demo_world demo_service (Request demo_login_request)
      \<lparr>sr_db = db', sr_background = []\<rparr>"
    using service_step.request [of demo_service_env demo_serving demo_login_request demo_world demo_service r db'] h same
    by (simp add: demo_service_env_def demo_serving_def demo_service_def)
  moreover have "service_step demo_service_env demo_serving demo_world \<lparr>sr_db = db', sr_background = []\<rparr> Pass
      \<lparr>sr_db = tick db', sr_background = []\<rparr>"
    using service_step.pass [of demo_service_env demo_serving demo_pass demo_world "\<lparr>sr_db = db', sr_background = []\<rparr>" "[]" "tick db'"]
    by (simp add: valid_pass_def runDue_def due split: sum.splits prod.splits)
  ultimately show ?thesis using service_run.start service_run.more by (metis append_Nil append_Cons)
qed


lemma no_admin_no_change_witness:
  "\<exists>s'. service_run demo_service_env demo_serving demo_world demo_service [Request demo_login_request, Pass] s' \<and>
     settings_of (sr_db s') = settings_of demo_user_db"
proof -
  obtain s' where run: "service_run demo_service_env demo_serving demo_world demo_service [Request demo_login_request, Pass] s'"
    using demo_service_run by blast
  have "settings_of (sr_db s') = settings_of (sr_db demo_service) \<and> sr_background s' = []"
    by (rule no_admin_no_change [OF run])
      (simp_all add: demo_service_def demo_users_inv claimsFromRequest_def demo_login_request_def demo_request_def)
  with run show ?thesis by (auto simp: demo_service_def)
qed

end
