(* ===== verification/Spec2Isabelle.thy ===== *)
theory Spec2Isabelle
  imports Fingerprint Worker ScanSpec Discovery DeviceInv DeviceSpec Upsert Rescan AdminStore
    ScanEngine ScanRun Ssh SshSpec Json Windows Base64 ApiCollectors Snmp SnmpSpec Collectors JsonText Auth Vault Config Scheduler
    QuerySpec Views Migrate ApiSecrets CliSpec Service
begin

text \<open>
  A model of motzworks, an agentless asset inventory: it sweeps address ranges, guesses what
  each live host is, logs in with stored credentials, and merges what it learns into a
  PostgreSQL database that a web dashboard reads. Paths below are relative to \<open>src/internal\<close>
  unless they start with \<open>cmd\<close>.

  \<^bold>\<open>How the parts interact.\<close> \<open>cmd/motzworks\<close> loads the configuration (\<open>config\<close>), opens and migrates
  the database (\<open>store\<close>) and runs one command. \<open>scan\<close> and \<open>serve\<close> use the scan engine
  (\<open>scan/engine.go\<close>): it expands the specs and sweeps the addresses (\<open>discovery\<close>, on the worker
  pool \<open>worker\<close>), classifies each live host by its ports (\<open>fingerprint\<close>), asks the registered
  collectors (\<open>collector/*\<close>) in turn until one can read the host, and stores each device with
  \<open>UpsertDevice\<close>, which resolves its identity, merges it into the stored row, replaces its
  children and records what changed. \<open>serve\<close> also runs the scheduler (\<open>scheduler\<close>), which starts the
  scans that are due, and the HTTP interface (\<open>api\<close>), which reads and manages the same tables;
  \<open>auth\<close> gives it sessions and \<open>vault\<close> the sealed credentials.

  \<^bold>\<open>Theories and the code they model.\<close>

  \<^item> \<open>Prelude\<close>: errors as values (\<open>go_error\<close>), 64-bit integers, the collections of facts the proofs
    share. \<open>GoStrings\<close>, \<open>NetAddr\<close>, \<open>Json\<close>, \<open>JsonText\<close>, \<open>Base64\<close>: the parts of Go's \<open>strings\<close>, \<open>strconv\<close>,
    \<open>net/netip\<close>, \<open>encoding/json\<close> and \<open>encoding/base64\<close> that the program uses, on byte strings.
  \<^item> \<open>Model\<close>: \<open>model/model.go\<close> and the registry of \<open>collector/collector.go\<close>. \<open>Fingerprint\<close>:
    \<open>fingerprint/fingerprint.go\<close>.
  \<^item> \<open>Worker\<close>: \<open>worker/pool.go\<close>; the loop, its semaphore, the goroutines and cancellation as a step
    relation. \<open>ScanSpec\<close> and \<open>Discovery\<close>: \<open>discovery/discovery.go\<close>.
  \<^item> \<open>Db\<close>, \<open>Schema\<close>: the tables of \<open>store/migrations\<close>, transactions, and the constraints as the invariant
    \<open>db_inv\<close>. \<open>DeviceStore\<close>: \<open>store/devices.go\<close>, \<open>store/null.go\<close>. \<open>AdminStore\<close>: \<open>store/targets.go\<close>, \<open>scanrun.go\<close>,
    \<open>users.go\<close>, \<open>audit.go\<close>. \<open>Queries\<close>: \<open>store/queries.go\<close>. \<open>Views\<close>: the views of
    \<open>store/migrations/0003_zabbix_views.sql\<close>. \<open>Migrate\<close>: \<open>store/migrate.go\<close>.
  \<^item> \<open>Ssh\<close>, \<open>Windows\<close>, \<open>ApiCollectors\<close>, \<open>Snmp\<close>: the eight collectors; \<open>Collectors\<close>: \<open>cmd/motzworks/collectors.go\<close>.
  \<^item> \<open>ScanEngine\<close>: \<open>scan/engine.go\<close> over a record of the store's methods. \<open>Scheduler\<close>: \<open>scan/credentials.go\<close>
    and \<open>scheduler/scheduler.go\<close>.
  \<^item> \<open>Auth\<close>, \<open>Vault\<close>, \<open>Config\<close>: the files of these names. \<open>Http\<close> and \<open>Api\<close>: \<open>api/*.go\<close>, one definition per
    handler, and the routes.
  \<^item> \<open>Cli\<close>: \<open>cmd/motzworks\<close>, \<open>logging\<close>, \<open>web/embed.go\<close>, \<open>store.Open\<close>. \<open>Service\<close>: what \<open>serve\<close> runs, as a step
    relation over requests, background scans and scheduler passes.

  \<^bold>\<open>State and operations.\<close> A struct is a record, an operation a function with the name of the Go
  function. A method of the store has the type \<open>'a sql\<close>: it takes the world and the database and
  gives an error or a value and the new database. The world says, for every statement by its
  number, whether it fails, when it runs, which ids are generated and in which order the
  service meets the rows of a table; the theorems hold for every world, or for a \<open>quiet\<close> one in
  which no statement fails. A transaction that fails leaves the tables as they were. A handler
  takes a request to a reply and a new database; a scan it starts in the background is part of
  the reply.

  \<^bold>\<open>What the lemmas show.\<close> \<open>DeviceSpec\<close>, \<open>DeviceInv\<close>, \<open>Upsert\<close>, \<open>Rescan\<close>: the upsert against an abstract
  specification, the schema under every statement, what a rescan and a change event mean.
  \<open>ScanRun\<close>: the journal of a run and its invariants, over the locales \<open>scan_store\<close> and
  \<open>scan_journal\<close> of what the engine asks of the store. \<open>SshSpec\<close>, \<open>SnmpSpec\<close>: parsers and probes.
  \<open>QuerySpec\<close>: pages, rollups, and that a stored device reads back; \<open>Views\<close>: that Zabbix sees one row
  per device and per title. \<open>ApiSpec\<close>, \<open>ApiSession\<close>,
  \<open>ApiSecrets\<close>: what a request may change, sessions, audits, secrets. \<open>CliSpec\<close>: ports, the credentials
  of \<open>scan\<close>, accounts made by \<open>user add\<close>. \<open>Service\<close>: the invariants of the running service. The
  locale \<open>db_invariant\<close> (\<open>Db\<close>) proves once what holds of a property that statements keep; it is
  interpreted for the schema and for the frames the theorems need. The collectors are
  interpretations of \<open>inventory_collector\<close> and \<open>credentialed_collector\<close>, the base64 codecs of
  \<open>byte_codec\<close>.

  \<^bold>\<open>Loops and bounds.\<close> The range loop of \<open>Expand\<close> is a partial function with \<open>None\<close> for a loop that does
  not end (\<open>Expand_terminates\<close> shows that only a range across two zones makes it so); the loop
  over a CIDR block ends by a measure. The
  JSON parser has fuel \<open>2 * length + 1\<close>, enough for every text because each call consumes a byte or
  descends one level (\<open>json_value_text\<close> reads back whatever was written). Every step of
  the worker pool lowers a measure. Integers are unbounded where the code keeps them
  within 64 bits and wrapped (\<open>wrap64\<close>) where it does not; integer columns reject what does not
  fit them.

  \<^bold>\<open>Parameters.\<close> Code outside the repository is an argument: the network (dialling, SSH, WinRM, SNMP,
  HTTP, the Python sidecar), bcrypt, HMAC and secretbox, random bytes, the YAML and XML
  decoders, the file system and the environment, the database's collation, pattern matching
  and parsing of addresses, the text of times and of errors of libraries.

  \<^bold>\<open>Not modelled.\<close> Logging and the middleware that logs and recovers (no handler of the model
  panics), the jitter sleeps, HTTP time-outs and the shutdown of the server, the usage text, the
  raw payload of a collection (written nowhere), and the JavaScript of the dashboard. Steps of \<open>Service\<close> are whole requests, scans and passes: the order
  of the statements of two requests that run at the same time is not modelled.
\<close>

end
